(* ===== verification/Kernel_Prelude.thy ===== *)
theory Kernel_Prelude
  imports Main "HOL-Library.Word"
begin

text \<open>
  Shared vocabulary of the CubikOS kernel development: the machine integer types of
  \<^verbatim>\<open>stdint.h\<close>, the outcomes a piece of C code can have, sequencing of code that may not
  return, the alignment macros of \<^verbatim>\<open>Kernel/include/macros.h\<close>, the range type of
  \<^verbatim>\<open>Kernel/include/utils/range.h\<close>, and the generic facts on words and lists that the
  component theories use.
\<close>

unbundle bit_operations_syntax

named_theorems res_simps \<open>evaluation of sequenced kernel code\<close>
named_theorems layout_simps \<open>constants fixed by the headers and by structure layouts\<close>

type_synonym u8 = "8 word"
type_synonym u16 = "16 word"
type_synonym u32 = "32 word"
type_synonym u64 = "64 word"

section \<open>Outcomes\<close>

text \<open>
  A call either returns a value or never comes back to its caller.  The second kind is split by
  its cause: a NULL pointer or an unmapped address is dereferenced, \<^verbatim>\<open>CallPanic\<close> is entered
  with a text, the processor is halted, a spinlock that nobody will release is awaited, a loop
  is still running when its fuel is used up, an array index, a shift count or a pointer
  alignment leaves the range for which C defines the operation, or the value of a function that
  ends without a \<^verbatim>\<open>return\<close> is used.
\<close>

datatype fault =
    NullDeref
  | PageFault u64
  | Panic string
  | CpuHalt
  | Deadlock
  | OutOfFuel
  | OutOfBounds
  | UndefinedShift
  | Misaligned u64
  | DivideError
  | MissingReturn

type_synonym 'a res = "fault + 'a"

definition bind_res :: "'a res \<Rightarrow> ('a \<Rightarrow> 'b res) \<Rightarrow> 'b res" where
  "bind_res m f = (case m of Inl e \<Rightarrow> Inl e | Inr x \<Rightarrow> f x)"

text \<open>An array access of the source: the index has to be below the declared length.\<close>

definition check_index :: "nat \<Rightarrow> nat \<Rightarrow> unit res" where
  "check_index n i = (if i < n then Inr () else Inl OutOfBounds)"

section \<open>Alignment and ranges\<close>

definition ALIGN_DOWN :: "u64 \<Rightarrow> u64 \<Rightarrow> u64" where
  "ALIGN_DOWN addr align = addr AND NOT (align - 1)"

definition ALIGN_UP :: "u64 \<Rightarrow> u64 \<Rightarrow> u64" where
  "ALIGN_UP addr align = (addr + align - 1) AND NOT (align - 1)"

record range_t =
  range_start :: u64
  range_end :: u64

definition ARCH_PAGE_SIZE :: u64 where
  "ARCH_PAGE_SIZE = 4096"

section \<open>Facts on outcomes\<close>

lemma bind_res_Inr [simp]: "bind_res (Inr x) f = f x"
  by (simp add: bind_res_def)

lemma bind_res_Inl [simp]: "bind_res (Inl e) f = Inl e"
  by (simp add: bind_res_def)

lemma bind_res_eq_Inr: "bind_res m f = Inr y \<longleftrightarrow> (\<exists>x. m = Inr x \<and> f x = Inr y)"
  by (cases m) (simp_all add: bind_res_def)

lemma bind_res_eq_Inl: "bind_res m f = Inl e \<longleftrightarrow> m = Inl e \<or> (\<exists>x. m = Inr x \<and> f x = Inl e)"
  by (cases m) (simp_all add: bind_res_def)

lemma bind_res_assoc: "bind_res (bind_res m f) g = bind_res m (\<lambda>x. bind_res (f x) g)"
  by (cases m) simp_all

lemma bind_res_cong [fundef_cong]:
  "m = m' \<Longrightarrow> (\<And>x. m' = Inr x \<Longrightarrow> f x = f' x) \<Longrightarrow> bind_res m f = bind_res m' f'"
  by (cases m') simp_all

lemma check_index_Inr [simp]: "check_index n i = Inr u \<longleftrightarrow> i < n"
  by (simp add: check_index_def)

lemma check_index_ok [res_simps]: "i < n \<Longrightarrow> check_index n i = Inr ()"
  by (simp add: check_index_def)

lemma check_index_bad [res_simps]: "\<not> i < n \<Longrightarrow> check_index n i = Inl OutOfBounds"
  by (simp add: check_index_def)

section \<open>Facts on words\<close>

lemma unat_pow2 [simp]:
  assumes "k < LENGTH('a)"
  shows "unat ((2 :: 'a::len word) ^ k) = 2 ^ k"
proof -
  have "unat (word_of_nat (2 ^ k) :: 'a word) = 2 ^ k"
    using assms by (simp only: unat_of_nat) simp
  then show ?thesis by simp
qed

lemma unat_plus_one:
  fixes s :: "'a::len word"
  assumes "unat s + 1 < 2 ^ LENGTH('a)"
  shows "unat (s + 1) = unat s + 1"
  using assms unat_add_lem [of s 1] by simp

lemma sint_zero_iff [simp]: "sint (x :: 'a::len word) = 0 \<longleftrightarrow> x = 0"
  by (rule signed_eq_0_iff)

lemma sint_eq_iff: "sint (x :: 'a::len word) = sint y \<longleftrightarrow> x = y"
  by (rule word_eq_iff_signed [symmetric])

lemma and_not_mask_drop_push:
  fixes a :: "'a::len word"
  shows "a AND NOT (mask k) = push_bit k (drop_bit k a)"
  by (rule bit_word_eqI) (auto simp: bit_simps)

lemma unat_and_mask_mod: "unat (a AND mask n :: 'a::len word) = unat a mod 2 ^ n"
proof -
  have "unat (a AND mask n) = take_bit n (unat a)"
    by (simp only: take_bit_eq_mask [symmetric] unsigned_take_bit_eq)
  then show ?thesis by (simp add: take_bit_eq_mod)
qed

lemma unat_push_drop:
  fixes a :: "'a::len word"
  shows "unat (push_bit k (drop_bit k a)) = unat a div 2 ^ k * 2 ^ k"
proof -
  have "push_bit k (drop_bit k a) = word_of_nat (unat a div 2 ^ k * 2 ^ k)"
    by (simp add: push_bit_eq_mult flip: drop_bit_eq_div unat_drop_bit_eq)
  moreover have "unat a div 2 ^ k * 2 ^ k < 2 ^ LENGTH('a)"
    by (meson div_times_less_eq_dividend le_less_trans unsigned_less)
  ultimately show ?thesis by (simp only: unat_of_nat mod_less)
qed

lemma unat_ALIGN_DOWN: "unat (ALIGN_DOWN a (2 ^ k)) = unat a div 2 ^ k * 2 ^ k"
  by (simp add: ALIGN_DOWN_def and_not_mask_drop_push unat_push_drop flip: mask_eq_exp_minus_1)

lemma ALIGN_UP_DOWN: "ALIGN_UP a (2 ^ k) = ALIGN_DOWN (a + 2 ^ k - 1) (2 ^ k)"
  by (simp add: ALIGN_UP_def ALIGN_DOWN_def)

lemma unat_ALIGN_UP:
  assumes "k < 64" and "unat a + 2 ^ k - 1 < 2 ^ 64"
  shows "unat (ALIGN_UP a (2 ^ k)) = (unat a + (2 ^ k - 1)) div 2 ^ k * 2 ^ k"
proof -
  have m: "unat ((2 :: u64) ^ k - 1) = 2 ^ k - 1"
    using assms(1) by (simp add: unat_minus_one unat_pow2)
  have "unat (a + (2 ^ k - 1)) = unat a + (2 ^ k - 1)"
    using assms(2) m by (subst unat_add_lem [THEN iffD1]) auto
  then show ?thesis
    by (simp add: ALIGN_UP_DOWN unat_ALIGN_DOWN add_diff_eq)
qed

end
