(* ===== verification/LinkedList.thy ===== *)
theory LinkedList
  imports Kernel_Prelude
begin

text \<open>
  The intrusive doubly linked list of \<^verbatim>\<open>Kernel/src/utils/list.c\<close>.  A node is two
  machine words inside a larger structure, \<^verbatim>\<open>prev\<close> at its address and \<^verbatim>\<open>next\<close> eight
  bytes above, so the operations work on the word memory itself and any overlap with the
  surrounding structure is visible.  The theory gives the list a sequence as its abstraction,
  shows what the two operations do to that sequence and to every other list, and packages
  these laws as the interface \<open>intrusive_list\<close> that the page frame lists rely on.
\<close>

section \<open>Word memory and list nodes\<close>

text \<open>Memory as 64-bit cells, each at the address of its first byte.\<close>

type_synonym wmem = "u64 \<Rightarrow> u64"

definition node_prev :: "wmem \<Rightarrow> u64 \<Rightarrow> u64" where
  "node_prev m p = m p"

definition node_next :: "wmem \<Rightarrow> u64 \<Rightarrow> u64" where
  "node_next m p = m (p + 8)"

definition set_prev :: "u64 \<Rightarrow> u64 \<Rightarrow> wmem \<Rightarrow> wmem" where
  "set_prev p v m = m(p := v)"

definition set_next :: "u64 \<Rightarrow> u64 \<Rightarrow> wmem \<Rightarrow> wmem" where
  "set_next p v m = m(p + 8 := v)"

section \<open>The operations\<close>

definition LinkedListRemove :: "u64 \<Rightarrow> wmem \<Rightarrow> wmem res" where
  "LinkedListRemove node m =
     (if node = 0 then Inl NullDeref
      else let prev_node = node_prev m node;
               next_node = node_next m node;
               m1 = (if prev_node \<noteq> 0 then set_next prev_node next_node m else m);
               m2 = (if next_node \<noteq> 0 then set_prev next_node prev_node m1 else m1)
           in Inr m2)"

definition LinkedListAppend :: "u64 \<Rightarrow> u64 \<Rightarrow> wmem \<Rightarrow> wmem" where
  "LinkedListAppend current node m =
     (if current = 0 \<or> node = 0 then m
      else let m1 = set_prev node current m;
               m2 = (if node_next m1 current \<noteq> 0
                     then let m' = set_next node (node_next m1 current) m1
                          in set_prev (node_next m' current) node m'
                     else m1)
           in set_next current node m2)"

section \<open>The sequence a list head stands for\<close>

fun linked :: "wmem \<Rightarrow> u64 \<Rightarrow> u64 list \<Rightarrow> bool" where
  "linked m h [] \<longleftrightarrow> node_next m h = 0"
| "linked m h (x # xs) \<longleftrightarrow> node_next m h = x \<and> node_prev m x = h \<and> linked m x xs"

text \<open>The links of a stretch of a list, whatever follows its last node.\<close>

fun chained :: "wmem \<Rightarrow> u64 \<Rightarrow> u64 list \<Rightarrow> bool" where
  "chained m h [] \<longleftrightarrow> True"
| "chained m h (x # xs) \<longleftrightarrow> node_next m h = x \<and> node_prev m x = h \<and> chained m x xs"

text \<open>
  Node addresses that may be used together: none is NULL, and the \<^verbatim>\<open>next\<close> cell of one
  node is not the \<^verbatim>\<open>prev\<close> cell of another.
\<close>

definition separate :: "u64 set \<Rightarrow> bool" where
  "separate N \<longleftrightarrow> 0 \<notin> N \<and> (\<forall>p\<in>N. p + 8 \<notin> N)"

text \<open>The first element of a list, or NULL.\<close>

fun head_of :: "u64 list \<Rightarrow> u64" where
  "head_of [] = 0"
| "head_of (x # xs) = x"

section \<open>Reading after writing\<close>

lemma next_set_next: "node_next (set_next a v m) p = (if p = a then v else node_next m p)"
  by (simp add: node_next_def set_next_def)

lemma prev_set_prev: "node_prev (set_prev a v m) p = (if p = a then v else node_prev m p)"
  by (simp add: node_prev_def set_prev_def)

lemma prev_set_next: "p \<noteq> a + 8 \<Longrightarrow> node_prev (set_next a v m) p = node_prev m p"
  by (simp add: node_prev_def set_next_def)

lemma next_set_prev: "a \<noteq> p + 8 \<Longrightarrow> node_next (set_prev a v m) p = node_next m p"
  by (auto simp: node_next_def set_prev_def)

lemma separateD:
  assumes "separate N" and "p \<in> N" and "q \<in> N"
  shows "p \<noteq> 0" and "p + 8 \<noteq> q" and "q \<noteq> p + 8"
  using assms by (auto simp: separate_def)

lemma separate_subset: "separate N \<Longrightarrow> M \<subseteq> N \<Longrightarrow> separate M"
  by (auto simp: separate_def)

lemmas node_update = next_set_next prev_set_prev prev_set_next next_set_prev

lemma linked_cong:
  assumes "\<And>p. p \<in> set (h # xs) \<Longrightarrow> node_next m' p = node_next m p"
    and "\<And>p. p \<in> set xs \<Longrightarrow> node_prev m' p = node_prev m p"
  shows "linked m' h xs = linked m h xs"
  using assms by (induction xs arbitrary: h) auto

lemma linked_next: "linked m h xs \<Longrightarrow> node_next m h = head_of xs"
  by (cases xs) auto

text \<open>A list is cut at any place: a chain of links up to the cut and a list from there on.\<close>

lemma chained_append:
  "chained m h (xs @ ys) \<longleftrightarrow> chained m h xs \<and> chained m (last (h # xs)) ys"
  by (induction xs arbitrary: h) auto

lemma linked_append: "linked m h (xs @ ys) \<longleftrightarrow> chained m h xs \<and> linked m (last (h # xs)) ys"
  by (induction xs arbitrary: h) auto

lemma chained_cong:
  assumes "\<And>p. p \<in> set (butlast (h # xs)) \<Longrightarrow> node_next m' p = node_next m p"
    and "\<And>p. p \<in> set xs \<Longrightarrow> node_prev m' p = node_prev m p"
  shows "chained m' h xs = chained m h xs"
  using assms by (induction xs arbitrary: h) auto

section \<open>What the operations do\<close>

lemma LinkedListAppend_linked:
  assumes sep: "separate N" and sub: "set (h # n # xs) \<subseteq> N" and dist: "distinct (h # n # xs)"
    and l: "linked m h xs" and stale: "xs = [] \<Longrightarrow> node_next m n = 0"
  shows "linked (LinkedListAppend h n m) h (n # xs)"
proof -
  have N: "h \<in> N" "n \<in> N" "h \<noteq> n" "h \<noteq> 0" "n \<noteq> 0" "\<And>p q. p \<in> N \<Longrightarrow> q \<in> N \<Longrightarrow> p \<noteq> q + 8"
    using sub dist separateD [OF sep] by auto
  show ?thesis
  proof (cases xs)
    case Nil
    then show ?thesis
      using N l stale by (simp add: LinkedListAppend_def Let_def node_update)
  next
    case (Cons x ys)
    then have X: "x \<in> N" "x \<noteq> 0" "x \<noteq> h" "x \<noteq> n" "set ys \<subseteq> N" "h \<notin> set ys" "n \<notin> set ys" "x \<notin> set ys"
      using sub dist separateD(1) [OF sep] by auto
    define m' where "m' = LinkedListAppend h n m"
    have m': "m' = set_next h n (set_prev x n (set_next n x (set_prev n h m)))"
      using N X l by (simp add: m'_def Cons LinkedListAppend_def Let_def node_update)
    have "linked m' x ys = linked m x ys"
      by (rule linked_cong) (use N X in \<open>auto simp: m' node_update\<close>)
    moreover have "node_next m' h = n" "node_prev m' n = h" "node_next m' n = x" "node_prev m' x = n"
      using N X by (auto simp: m' node_update)
    ultimately show ?thesis
      using l by (simp add: Cons flip: m'_def)
  qed
qed

lemma LinkedListAppend_frame:
  assumes sep: "separate N" and N: "h \<in> N" "n \<in> N" "p \<in> N" and l: "linked m h xs"
    and xs: "set xs \<subseteq> N" and p: "p \<noteq> n"
  shows "p \<noteq> h \<Longrightarrow> node_next (LinkedListAppend h n m) p = node_next m p"
    and "p \<noteq> head_of xs \<Longrightarrow> node_prev (LinkedListAppend h n m) p = node_prev m p"
proof -
  have S: "\<And>a b. a \<in> N \<Longrightarrow> b \<in> N \<Longrightarrow> a \<noteq> b + 8" and Z: "h \<noteq> 0" "n \<noteq> 0"
    using separateD [OF sep] N by blast+
  have H: "head_of xs \<noteq> 0 \<Longrightarrow> head_of xs \<in> N" using xs by (cases xs) auto
  note defs = LinkedListAppend_def Let_def linked_next [OF l]
  show "p \<noteq> h \<Longrightarrow> node_next (LinkedListAppend h n m) p = node_next m p"
    using S Z N p H by (auto simp: defs node_update)
  show "p \<noteq> head_of xs \<Longrightarrow> node_prev (LinkedListAppend h n m) p = node_prev m p"
    using S Z N p H by (auto simp: defs node_update)
qed

lemma LinkedListRemove_eq:
  assumes sep: "separate N" and sub: "set (h # as @ x # bs) \<subseteq> N"
    and l: "linked m h (as @ x # bs)"
  shows "LinkedListRemove x m =
     Inr (let m1 = set_next (last (h # as)) (head_of bs) m
          in if bs = [] then m1 else set_prev (head_of bs) (last (h # as)) m1)"
proof -
  from l have links: "node_prev m x = last (h # as)" "node_next m x = head_of bs"
    by (auto simp: linked_append linked_next)
  have "last (h # as) \<in> set (h # as)" by (rule last_in_set) simp
  then have "last (h # as) \<in> N" and "x \<in> N" using sub by auto
  then have "last (h # as) \<noteq> 0" and "x \<noteq> 0" using separateD(1) [OF sep] by blast+
  moreover have "bs \<noteq> [] \<Longrightarrow> head_of bs \<noteq> 0"
    using sub separateD(1) [OF sep] by (cases bs) auto
  ultimately show ?thesis
    by (cases bs) (auto simp: LinkedListRemove_def Let_def links)
qed

lemma LinkedListRemove_linked:
  assumes sep: "separate N" and sub: "set (h # as @ x # bs) \<subseteq> N"
    and dist: "distinct (h # as @ x # bs)" and l: "linked m h (as @ x # bs)"
  shows "\<exists>m'. LinkedListRemove x m = Inr m' \<and> linked m' h (as @ bs)"
proof -
  define q where "q = last (h # as)"
  define m' where "m' = (let m1 = set_next q (head_of bs) m
     in if bs = [] then m1 else set_prev (head_of bs) q m1)"
  have qin: "q \<in> set (h # as)" unfolding q_def by (rule last_in_set) simp
  have S: "\<And>a b. a \<in> N \<Longrightarrow> b \<in> N \<Longrightarrow> a \<noteq> b + 8" using separateD [OF sep] by blast
  have hd: "bs \<noteq> [] \<Longrightarrow> head_of bs \<in> set bs" by (cases bs) auto
  have A: "set (h # as) \<subseteq> N" "set (h # as) \<inter> set bs = {}" "q \<in> N" using sub dist qin by auto
  have B: "bs \<noteq> [] \<Longrightarrow> head_of bs \<in> N \<and> head_of bs \<notin> set (h # as)" using A hd sub by auto
  have but: "q \<notin> set (butlast (h # as))"
    using dist unfolding q_def by (metis append_butlast_last_id distinct_append disjoint_iff
      list.distinct(1) list.set_intros(1) append_Cons)
  have c: "chained m h as" and b: "linked m x bs"
    using l by (auto simp: linked_append)
  have nx: "node_next m' p = node_next m p" if "p \<in> set (butlast (h # as))" for p
  proof -
    from that have "p \<in> N" "p \<noteq> q" using A(1) but in_set_butlastD [OF that] by blast+
    then show ?thesis using S B A(3) by (auto simp: m'_def Let_def node_update)
  qed
  have pv: "node_prev m' p = node_prev m p" if "p \<in> set as" for p
    using that S [of p q] A B by (auto simp: m'_def Let_def node_update)
  have "chained m' h as"
    using c chained_cong [OF nx pv] by simp
  moreover have "linked m' q bs"
  proof (cases bs)
    case Nil
    then show ?thesis by (simp add: m'_def node_update)
  next
    case (Cons y ys)
    have Y: "q \<notin> set (y # ys)" "set (y # ys) \<subseteq> N" "y \<notin> set ys"
      using A(2) qin sub dist Cons by auto
    have "linked m' y ys = linked m y ys"
      by (rule linked_cong) (use S A(3) Y in \<open>auto simp: m'_def Cons Let_def node_update\<close>)
    then show ?thesis
      using b S A(3) Y by (auto simp: Cons m'_def Let_def node_update)
  qed
  moreover have "LinkedListRemove x m = Inr m'"
    unfolding m'_def q_def by (rule LinkedListRemove_eq [OF sep sub l])
  ultimately show ?thesis by (auto simp: linked_append q_def)
qed

text \<open>
  The removed node keeps its own pointers.  A second removal therefore writes the same two
  links again; while the neighbours have not changed it changes nothing.
\<close>

lemma LinkedListRemove_again:
  assumes "x \<noteq> 0" and "node_prev m x \<noteq> 0 \<Longrightarrow> node_next m (node_prev m x) = node_next m x"
    and "node_next m x \<noteq> 0 \<Longrightarrow> node_prev m (node_next m x) = node_prev m x"
  shows "LinkedListRemove x m = Inr m"
proof -
  have n: "set_next p (node_next m p) m = m" and v: "set_prev p (node_prev m p) m = m" for p
    by (simp_all add: set_next_def node_next_def set_prev_def node_prev_def)
  show ?thesis
    using assms n [of "node_prev m x"] v [of "node_next m x"]
    by (auto simp: LinkedListRemove_def Let_def)
qed

lemma LinkedListRemove_frame:
  assumes sep: "separate N" and sub: "set (h # as @ x # bs) \<subseteq> N" and p: "p \<in> N"
    and l: "linked m h (as @ x # bs)" and r: "LinkedListRemove x m = Inr m'"
  shows "p \<noteq> last (h # as) \<Longrightarrow> node_next m' p = node_next m p"
    and "p \<noteq> head_of bs \<Longrightarrow> node_prev m' p = node_prev m p"
proof -
  have "last (h # as) \<in> set (h # as)" by (rule last_in_set) simp
  then have q: "last (h # as) \<in> N" using sub by auto
  have b: "bs \<noteq> [] \<Longrightarrow> head_of bs \<in> N" using sub by (cases bs) auto
  have S: "\<And>a b. a \<in> N \<Longrightarrow> b \<in> N \<Longrightarrow> a \<noteq> b + 8" using separateD [OF sep] by blast
  have m': "m' = (let m1 = set_next (last (h # as)) (head_of bs) m
      in if bs = [] then m1 else set_prev (head_of bs) (last (h # as)) m1)"
    using r LinkedListRemove_eq [OF sep sub l] by simp
  show "p \<noteq> last (h # as) \<Longrightarrow> node_next m' p = node_next m p"
    using S b p by (simp add: m' Let_def node_update)
  show "p \<noteq> head_of bs \<Longrightarrow> node_prev m' p = node_prev m p"
    using S q p by (simp add: m' Let_def node_update)
qed

lemma LinkedListAppend_other:
  assumes sep: "separate N" and sub: "set (h # n # xs) \<subseteq> N" "set (h' # ys) \<subseteq> N"
    and disj: "set (h # n # xs) \<inter> set (h' # ys) = {}" and l: "linked m h xs" and o: "linked m h' ys"
  shows "linked (LinkedListAppend h n m) h' ys"
proof -
  note fr = LinkedListAppend_frame [OF sep _ _ _ l, of n]
  have "head_of xs \<notin> set ys"
    using disj sub(2) separateD(1) [OF sep] by (cases xs) auto
  then have "linked (LinkedListAppend h n m) h' ys = linked m h' ys"
    by (intro linked_cong fr) (use sub disj in auto)
  with o show ?thesis by simp
qed

lemma LinkedListRemove_other:
  assumes sep: "separate N" and sub: "set (h # as @ x # bs) \<subseteq> N" "set (h' # ys) \<subseteq> N"
    and disj: "set (h # as @ x # bs) \<inter> set (h' # ys) = {}"
    and l: "linked m h (as @ x # bs)" and o: "linked m h' ys" and r: "LinkedListRemove x m = Inr m'"
  shows "linked m' h' ys"
proof -
  note fr = LinkedListRemove_frame [OF sep sub(1) _ l r]
  have "last (h # as) \<in> set (h # as)" by (rule last_in_set) simp
  then have L: "last (h # as) \<notin> set (h' # ys)" using disj by auto
  have H: "head_of bs \<notin> set ys"
    using disj sub(2) separateD(1) [OF sep] by (cases bs) auto
  have "linked m' h' ys = linked m h' ys"
    by (intro linked_cong fr) (use sub L H in auto)
  with o show ?thesis by simp
qed

section \<open>The interface of an intrusive list\<close>

text \<open>
  What the page frame lists need of a list: inserting behind the head and unlinking have the
  effect of the corresponding sequence operations, lists with other nodes are untouched, and a
  node that has never been linked stays clean (its \<^verbatim>\<open>next\<close> field is NULL).
\<close>

locale intrusive_list =
  fixes insert_after :: "u64 \<Rightarrow> u64 \<Rightarrow> 'm \<Rightarrow> 'm"
    and unlink :: "u64 \<Rightarrow> 'm \<Rightarrow> 'm res"
    and holds :: "'m \<Rightarrow> u64 \<Rightarrow> u64 list \<Rightarrow> bool"
    and clean :: "'m \<Rightarrow> u64 \<Rightarrow> bool"
    and usable :: "u64 set \<Rightarrow> bool"
  assumes insert_holds:
      "usable N \<Longrightarrow> set (h # n # xs) \<subseteq> N \<Longrightarrow> distinct (h # n # xs) \<Longrightarrow> holds m h xs \<Longrightarrow>
       (xs = [] \<Longrightarrow> clean m n) \<Longrightarrow> holds (insert_after h n m) h (n # xs)"
    and insert_keeps_clean:
      "usable N \<Longrightarrow> set (p # h # n # xs) \<subseteq> N \<Longrightarrow> p \<notin> set (h # n # xs) \<Longrightarrow> holds m h xs \<Longrightarrow>
       clean m p \<Longrightarrow> clean (insert_after h n m) p"
    and insert_keeps_list:
      "usable N \<Longrightarrow> set (h # n # xs) \<subseteq> N \<Longrightarrow> set (h' # ys) \<subseteq> N \<Longrightarrow>
       set (h # n # xs) \<inter> set (h' # ys) = {} \<Longrightarrow> holds m h xs \<Longrightarrow> holds m h' ys \<Longrightarrow>
       holds (insert_after h n m) h' ys"
    and unlink_holds:
      "usable N \<Longrightarrow> set (h # as @ x # bs) \<subseteq> N \<Longrightarrow> distinct (h # as @ x # bs) \<Longrightarrow>
       holds m h (as @ x # bs) \<Longrightarrow> \<exists>m'. unlink x m = Inr m' \<and> holds m' h (as @ bs)"
    and unlink_keeps_list:
      "usable N \<Longrightarrow> set (h # as @ x # bs) \<subseteq> N \<Longrightarrow> set (h' # ys) \<subseteq> N \<Longrightarrow>
       set (h # as @ x # bs) \<inter> set (h' # ys) = {} \<Longrightarrow> holds m h (as @ x # bs) \<Longrightarrow> holds m h' ys \<Longrightarrow>
       unlink x m = Inr m' \<Longrightarrow> holds m' h' ys"
begin

lemma push_all:
  "usable N \<Longrightarrow> set (h # ns @ xs) \<subseteq> N \<Longrightarrow> distinct (h # ns @ xs) \<Longrightarrow> holds m h xs \<Longrightarrow>
   (\<And>n. n \<in> set ns \<Longrightarrow> clean m n) \<Longrightarrow> holds (fold (insert_after h) ns m) h (rev ns @ xs)"
proof (induction ns arbitrary: m xs)
  case Nil
  then show ?case by simp
next
  case (Cons n ns)
  have "holds (insert_after h n m) h (n # xs)"
    using Cons.prems by (intro insert_holds [of N]) auto
  moreover have "clean (insert_after h n m) p" if "p \<in> set ns" for p
    using Cons.prems that by (intro insert_keeps_clean [of N p h n xs]) auto
  ultimately have "holds (fold (insert_after h) ns (insert_after h n m)) h (rev ns @ n # xs)"
    using Cons.prems by (intro Cons.IH) auto
  then show ?case by simp
qed

lemma insert_unlink:
  assumes "usable N" and "set (h # n # xs) \<subseteq> N" and "distinct (h # n # xs)" and "holds m h xs"
    and "xs = [] \<Longrightarrow> clean m n"
  shows "\<exists>m'. unlink n (insert_after h n m) = Inr m' \<and> holds m' h xs"
  using unlink_holds [of N h "[]" n xs "insert_after h n m"] insert_holds [OF assms] assms by simp

end

definition clean_node :: "wmem \<Rightarrow> u64 \<Rightarrow> bool" where
  "clean_node m n \<longleftrightarrow> node_next m n = 0"

interpretation klist: intrusive_list LinkedListAppend LinkedListRemove linked clean_node separate
proof (unfold_locales, goal_cases)
  case (1 N h n xs m)
  then show ?case by (intro LinkedListAppend_linked [of N]) (auto simp: clean_node_def)
next
  case (2 N p h n xs m)
  then show ?case
    using LinkedListAppend_frame(1) [of N h n p m xs] by (simp add: clean_node_def)
next
  case (3 N h n xs h' ys m)
  then show ?case by (rule LinkedListAppend_other)
next
  case (4 N h as x bs m)
  then show ?case by (rule LinkedListRemove_linked)
next
  case (5 N h as x bs h' ys m m')
  then show ?case by (rule LinkedListRemove_other)
qed

section \<open>Properties\<close>

text \<open>
  Inserting nodes one after the other behind a list head makes them the list's first
  elements, the most recent one first, provided the nodes are distinct, do not overlap and have
  never been linked before.
\<close>

theorem append_is_lifo:
  assumes "separate (set (h # ns @ xs))" and "distinct (h # ns @ xs)" and "linked m h xs"
    and "\<And>n. n \<in> set ns \<Longrightarrow> node_next m n = 0"
  shows "linked (fold (LinkedListAppend h) ns m) h (rev ns @ xs)"
  using assms by (intro klist.push_all [of "set (h # ns @ xs)"]) (auto simp: clean_node_def)

theorem append_is_lifo_witness:
  "linked (fold (LinkedListAppend 4096) [8192, 16384] (\<lambda>_. 0)) 4096 [16384, 8192]"
  using append_is_lifo [of 4096 "[8192, 16384]" "[]" "\<lambda>_. 0"]
  by (simp add: separate_def node_next_def)

text \<open>
  C28. Removing a node from the middle of a list returns, leaves exactly the other elements in
  their order, and leaves every list that has none of these nodes as it was.
\<close>

theorem remove_deletes_node:
  assumes "separate (set (h # as @ x # bs) \<union> set (h' # ys))" and "distinct (h # as @ x # bs)"
    and "set (h # as @ x # bs) \<inter> set (h' # ys) = {}"
    and "linked m h (as @ x # bs)" and "linked m h' ys"
  shows "\<exists>m'. LinkedListRemove x m = Inr m' \<and> linked m' h (as @ bs) \<and> linked m' h' ys"
proof -
  let ?N = "set (h # as @ x # bs) \<union> set (h' # ys)"
  obtain m' where m': "LinkedListRemove x m = Inr m'" "linked m' h (as @ bs)"
    using klist.unlink_holds [of ?N h as x bs m] assms by auto
  moreover have "linked m' h' ys"
    using klist.unlink_keeps_list [of ?N h as x bs h' ys m m'] assms m' by auto
  ultimately show ?thesis by blast
qed

definition two_lists :: wmem where
  "two_lists = (\<lambda>_. 0)(4104 := 8192, 8192 := 4096, 8200 := 16384, 16384 := 8192, 32776 := 65536, 65536 := 32768)"

theorem remove_deletes_node_witness:
  "\<exists>m'. LinkedListRemove 8192 two_lists = Inr m' \<and> linked m' 4096 [16384] \<and> linked m' 32768 [65536]"
  using remove_deletes_node [of 4096 "[]" 8192 "[16384]" 32768 "[65536]" two_lists]
  by (simp add: separate_def two_lists_def node_next_def node_prev_def)

text \<open>
  A node that still carries a \<^verbatim>\<open>next\<close> pointer from an earlier list keeps it when it is
  put into an empty list, so the new list does not consist of that node alone.
\<close>

theorem append_keeps_stale_next:
  assumes "separate {h, n}" and "h \<noteq> n" and "linked m h []" and "node_next m n = t" and "t \<noteq> 0"
  shows "node_next (LinkedListAppend h n m) n = t \<and> \<not> linked (LinkedListAppend h n m) h [n]"
  using assms
  by (auto simp: LinkedListAppend_def Let_def node_update separate_def)

theorem append_keeps_stale_next_witness:
  "\<not> linked (LinkedListAppend 4096 8192 ((\<lambda>_. 0)(8200 := 16384))) 4096 [8192]"
  using append_keeps_stale_next [of 4096 8192 "(\<lambda>_. 0)(8200 := 16384)" 16384]
  by (simp add: separate_def node_next_def)

end
