(* ===== verification/Spinlock.thy ===== *)
theory Spinlock
  imports Kernel_Prelude
begin

text \<open>
  The spinlock of \<^verbatim>\<open>Kernel/include/utils/spinlock.h\<close>.  The inline assembly of
  \<^verbatim>\<open>AcquireLock\<close> and \<^verbatim>\<open>ReleaseLock\<close> is modelled one instruction at a time, with any
  number of processors whose instructions interleave freely; mutual exclusion is an invariant of
  every reachable state.  The single processor functions \<open>AcquireLock\<close> and \<open>ReleaseLock\<close>
  that the sequential components call are proved to be what this machine does when one
  processor runs alone.
\<close>

section \<open>The instruction level machine\<close>

text \<open>
  Program points of one processor: outside, at the instructions of \<^verbatim>\<open>AcquireLock\<close> in their
  order (label 1 is \<open>AtXchg\<close>, label 2 is \<open>AtPause\<close>, label 3 is \<open>Held\<close>), and at the
  exchange of \<^verbatim>\<open>ReleaseLock\<close>.
\<close>

datatype spin_pc = Outside | AtXchg | AtTest | AtJz | AtPause | AtCmpl | AtJnz | AtJmp | Held | AtRelease

record spin_state =
  lock_value :: u32
  spin_pcs :: "nat \<Rightarrow> spin_pc"
  lockVal :: "nat \<Rightarrow> u32"
  zflag :: "nat \<Rightarrow> bool"

definition goto :: "nat \<Rightarrow> spin_pc \<Rightarrow> spin_state \<Rightarrow> spin_state" where
  "goto c l s = s\<lparr>spin_pcs := (spin_pcs s)(c := l)\<rparr>"

definition exec_cpu :: "nat \<Rightarrow> spin_state \<Rightarrow> spin_state" where
  "exec_cpu c s = (case spin_pcs s c of
     Outside \<Rightarrow> goto c AtXchg (s\<lparr>lockVal := (lockVal s)(c := 1)\<rparr>)
   | AtXchg \<Rightarrow> goto c AtTest (s\<lparr>lock_value := lockVal s c, lockVal := (lockVal s)(c := lock_value s)\<rparr>)
   | AtTest \<Rightarrow> goto c AtJz (s\<lparr>zflag := (zflag s)(c := (lockVal s c = 0))\<rparr>)
   | AtJz \<Rightarrow> goto c (if zflag s c then Held else AtPause) s
   | AtPause \<Rightarrow> goto c AtCmpl s
   | AtCmpl \<Rightarrow> goto c AtJnz (s\<lparr>zflag := (zflag s)(c := (lock_value s = 0))\<rparr>)
   | AtJnz \<Rightarrow> goto c (if zflag s c then AtJmp else AtPause) s
   | AtJmp \<Rightarrow> goto c AtXchg s
   | Held \<Rightarrow> goto c AtRelease (s\<lparr>lockVal := (lockVal s)(c := 0)\<rparr>)
   | AtRelease \<Rightarrow> goto c Outside (s\<lparr>lock_value := lockVal s c, lockVal := (lockVal s)(c := lock_value s)\<rparr>))"

definition spin_init :: spin_state where
  "spin_init = \<lparr>lock_value = 0, spin_pcs = (\<lambda>_. Outside), lockVal = (\<lambda>_. 0), zflag = (\<lambda>_. False)\<rparr>"

inductive spin_reachable :: "spin_state \<Rightarrow> bool" where
  start: "spin_reachable spin_init"
| step: "spin_reachable s \<Longrightarrow> spin_reachable (exec_cpu c s)"

section \<open>The operations as one processor sees them\<close>

text \<open>\<^verbatim>\<open>InitLock\<close> assigns its own parameter and leaves the lock as it is.\<close>

definition InitLock :: "u32 \<Rightarrow> u32" where
  "InitLock lock = lock"

definition AcquireLock :: "u32 \<Rightarrow> u32 res" where
  "AcquireLock lock = (if lock = 0 then Inr 1 else Inl Deadlock)"

definition ReleaseLock :: "u32 \<Rightarrow> u32" where
  "ReleaseLock lock = 0"

section \<open>Mutual exclusion\<close>

text \<open>The processors that hold the lock or have already won it.\<close>

definition owns :: "spin_state \<Rightarrow> nat \<Rightarrow> bool" where
  "owns s c \<longleftrightarrow> spin_pcs s c \<in> {Held, AtRelease} \<or> spin_pcs s c \<in> {AtTest, AtJz} \<and> lockVal s c = 0"

text \<open>What one processor's registers say at its program point.\<close>

definition regs_ok :: "spin_state \<Rightarrow> nat \<Rightarrow> bool" where
  "regs_ok s c \<longleftrightarrow>
     (spin_pcs s c \<in> {AtXchg, AtPause, AtCmpl, AtJnz, AtJmp} \<longrightarrow> lockVal s c \<noteq> 0) \<and>
     (spin_pcs s c = AtJz \<longrightarrow> zflag s c = (lockVal s c = 0)) \<and>
     (spin_pcs s c = AtRelease \<longrightarrow> lockVal s c = 0)"

definition spin_inv :: "spin_state \<Rightarrow> bool" where
  "spin_inv s \<longleftrightarrow> (\<forall>c. regs_ok s c) \<and> (\<forall>c. owns s c \<longrightarrow> lock_value s \<noteq> 0) \<and>
     (\<forall>c d. owns s c \<longrightarrow> owns s d \<longrightarrow> c = d)"

lemma goto_simps [simp]:
  "lock_value (goto c l s) = lock_value s" "lockVal (goto c l s) = lockVal s"
  "zflag (goto c l s) = zflag s" "spin_pcs (goto c l s) = (spin_pcs s)(c := l)"
  by (simp_all add: goto_def)

lemma exec_cpu_regs:
  assumes "d \<noteq> c"
  shows "spin_pcs (exec_cpu c s) d = spin_pcs s d" and "lockVal (exec_cpu c s) d = lockVal s d"
    and "zflag (exec_cpu c s) d = zflag s d"
  using assms by (simp_all add: exec_cpu_def split: spin_pc.split)

lemma exec_cpu_other:
  assumes "d \<noteq> c"
  shows "owns (exec_cpu c s) d = owns s d" and "regs_ok (exec_cpu c s) d = regs_ok s d"
  using assms by (simp_all add: owns_def regs_ok_def exec_cpu_regs)

lemma regs_ok_step: "regs_ok s c \<Longrightarrow> regs_ok (exec_cpu c s) c"
  by (cases "spin_pcs s c") (simp_all add: exec_cpu_def regs_ok_def)

text \<open>Only the two exchanges change the lock; only the first one can make its processor an owner.\<close>

lemma owns_step:
  assumes "regs_ok s c"
  shows "owns (exec_cpu c s) c \<longleftrightarrow> (if spin_pcs s c = AtXchg then lock_value s = 0
     else spin_pcs s c \<noteq> AtRelease \<and> owns s c)"
  using assms by (cases "spin_pcs s c") (auto simp: exec_cpu_def owns_def regs_ok_def)

lemma lock_value_step:
  assumes "regs_ok s c"
  shows "lock_value (exec_cpu c s) = (if spin_pcs s c \<in> {AtXchg, AtRelease} then lockVal s c else lock_value s)"
  using assms by (cases "spin_pcs s c") (auto simp: exec_cpu_def)

lemma spin_inv_step:
  assumes inv: "spin_inv s"
  shows "spin_inv (exec_cpu c s)"
proof -
  have r: "regs_ok s d" for d using inv by (simp add: spin_inv_def)
  have val: "owns s d \<Longrightarrow> lock_value s \<noteq> 0" and one: "owns s d \<Longrightarrow> owns s e \<Longrightarrow> d = e" for d e
    using inv by (auto simp: spin_inv_def)
  have rel: "spin_pcs s c = AtRelease \<Longrightarrow> owns s c" by (simp add: owns_def)
  have lv: "spin_pcs s c = AtXchg \<Longrightarrow> lockVal s c \<noteq> 0" using r [of c] by (simp add: regs_ok_def)
  have own: "owns (exec_cpu c s) d \<longleftrightarrow> (if d = c then
      (if spin_pcs s c = AtXchg then lock_value s = 0 else spin_pcs s c \<noteq> AtRelease \<and> owns s c)
      else owns s d)" for d
    using owns_step [OF r] exec_cpu_other(1) [of d c s] by simp
  have "regs_ok (exec_cpu c s) d" for d
    using r regs_ok_step exec_cpu_other(2) by (cases "d = c") blast+
  moreover have "lock_value (exec_cpu c s) \<noteq> 0" if "owns (exec_cpu c s) d" for d
  proof (cases "spin_pcs s c = AtXchg")
    case True
    with lv show ?thesis by (simp add: lock_value_step [OF r])
  next
    case False
    with that own [of d] have "owns s d" "spin_pcs s c = AtRelease \<Longrightarrow> d \<noteq> c"
      by (auto split: if_splits)
    then have "lock_value s \<noteq> 0" "spin_pcs s c \<noteq> AtRelease" using val one rel by blast+
    with False show ?thesis by (simp add: lock_value_step [OF r])
  qed
  moreover have "owns (exec_cpu c s) d \<Longrightarrow> owns (exec_cpu c s) e \<Longrightarrow> d = e" for d e
    using val one own [of d] own [of e] by (metis (full_types))
  ultimately show ?thesis by (auto simp: spin_inv_def)
qed

lemma spin_reachable_inv: "spin_reachable s \<Longrightarrow> spin_inv s"
proof (induction rule: spin_reachable.induct)
  case start
  show ?case by (simp add: spin_inv_def spin_init_def owns_def regs_ok_def)
next
  case (step s c)
  from step.IH show ?case by (rule spin_inv_step)
qed

section \<open>One processor alone\<close>

definition spinning :: "nat \<Rightarrow> spin_state \<Rightarrow> bool" where
  "spinning c s \<longleftrightarrow> lock_value s \<noteq> 0 \<and> lockVal s c \<noteq> 0 \<and>
     spin_pcs s c \<in> {AtXchg, AtTest, AtJz, AtPause, AtCmpl, AtJnz, AtJmp} \<and>
     (spin_pcs s c = AtJz \<longrightarrow> \<not> zflag s c)"

lemma spinning_step: "spinning c s \<Longrightarrow> spinning c (exec_cpu c s)"
  by (auto simp: spinning_def exec_cpu_def)

lemma spinning_forever: "spinning c s \<Longrightarrow> spinning c ((exec_cpu c ^^ k) s)"
  by (induction k) (auto intro: spinning_step)

section \<open>The interface of a lock\<close>

text \<open>
  What the sequential components use of a lock: a free lock is taken, a taken lock is never
  obtained a second time by the processor that would have to release it, and releasing frees.
\<close>

locale mutex =
  fixes acquire :: "'v \<Rightarrow> 'v res" and release :: "'v \<Rightarrow> 'v" and unlocked :: "'v \<Rightarrow> bool"
  assumes acquire_free: "unlocked v \<Longrightarrow> \<exists>w. acquire v = Inr w \<and> \<not> unlocked w"
    and acquire_taken: "\<not> unlocked v \<Longrightarrow> acquire v = Inl Deadlock"
    and release_frees: "unlocked (release v)"
begin

lemma bracket:
  assumes "unlocked v"
  shows "bind_res (acquire v) (\<lambda>w. f (release w)) = f (release (projr (acquire v)))"
  using acquire_free [OF assms] by auto

lemma not_reentrant: "bind_res (acquire v) acquire = Inl Deadlock"
  using acquire_free [of v] acquire_taken by (cases "unlocked v") auto

end

interpretation spin: mutex AcquireLock ReleaseLock "\<lambda>v. v = 0"
  by unfold_locales (auto simp: AcquireLock_def ReleaseLock_def)

lemma lock_simps [simp]:
  "AcquireLock 0 = Inr 1" "v \<noteq> 0 \<Longrightarrow> AcquireLock v = Inl Deadlock" "ReleaseLock v = 0"
  by (simp_all add: AcquireLock_def ReleaseLock_def)

section \<open>Properties\<close>

text \<open>
  C5. Mutual exclusion: however the instructions of the processors interleave, at most one of
  them is between the end of \<^verbatim>\<open>AcquireLock\<close> and the exchange of \<^verbatim>\<open>ReleaseLock\<close>.
\<close>

theorem spinlock_mutual_exclusion:
  assumes "spin_reachable s" and "spin_pcs s c \<in> {Held, AtRelease}" and "spin_pcs s d \<in> {Held, AtRelease}"
  shows "c = d"
proof -
  have "owns s c" and "owns s d" using assms(2,3) by (auto simp: owns_def)
  with spin_reachable_inv [OF assms(1)] show ?thesis by (auto simp: spin_inv_def)
qed

lemma two_cpus_run:
  "spin_reachable (exec_cpu 0 (exec_cpu 1 (exec_cpu 0 (exec_cpu 0 (exec_cpu 0 spin_init)))))"
  by (intro spin_reachable.intros)

theorem spinlock_mutual_exclusion_witness:
  "\<forall>d. spin_pcs (exec_cpu 0 (exec_cpu 1 (exec_cpu 0 (exec_cpu 0 (exec_cpu 0 spin_init))))) d \<in> {Held, AtRelease}
     \<longleftrightarrow> d = 0"
proof -
  have h: "spin_pcs (exec_cpu 0 (exec_cpu 1 (exec_cpu 0 (exec_cpu 0 (exec_cpu 0 spin_init))))) 0 = Held"
    by (simp add: exec_cpu_def spin_init_def)
  show ?thesis using spinlock_mutual_exclusion [OF two_cpus_run] h by blast
qed

text \<open>
  The single processor reading of \<^verbatim>\<open>AcquireLock\<close> is what its instructions do when no
  other processor runs: where it returns, three instructions end in the critical section with
  the lock holding the returned value; where it does not, no number of instructions gets there.
\<close>

theorem acquire_alone:
  assumes "spin_pcs s c = AtXchg" and "lockVal s c = 1"
  shows "case AcquireLock (lock_value s) of
      Inr v \<Rightarrow> spin_pcs ((exec_cpu c ^^ 3) s) c = Held \<and> lock_value ((exec_cpu c ^^ 3) s) = v
    | Inl e \<Rightarrow> \<forall>k. spin_pcs ((exec_cpu c ^^ k) s) c \<noteq> Held"
proof (cases "lock_value s = 0")
  case True
  with assms show ?thesis by (simp add: exec_cpu_def eval_nat_numeral)
next
  case False
  with assms have "spinning c s" by (simp add: spinning_def)
  then have "spin_pcs ((exec_cpu c ^^ k) s) c \<noteq> Held" for k
    using spinning_forever [of c s k] by (auto simp: spinning_def)
  with False show ?thesis by simp
qed

theorem acquire_alone_witness:
  "\<forall>k. spin_pcs ((exec_cpu 0 ^^ k) (exec_cpu 0 (spin_init\<lparr>lock_value := 1\<rparr>))) 0 \<noteq> Held"
  using acquire_alone [of "exec_cpu 0 (spin_init\<lparr>lock_value := 1\<rparr>)" 0]
  by (simp add: exec_cpu_def spin_init_def)

text \<open>
  The lock is not reentrant: a processor that acquires it twice without releasing it in
  between never returns from the second call.
\<close>

theorem acquire_twice_deadlocks: "bind_res (AcquireLock v) AcquireLock = Inl Deadlock"
  by (rule spin.not_reentrant)

end
