(* ===== verification/Page_Order.thy ===== *)
theory Page_Order
  imports Kernel_Prelude
begin

text \<open>
  Sizes and orders of \<^verbatim>\<open>Kernel/src/mm/page.c\<close>: the constants of
  \<^verbatim>\<open>Kernel/include/mm/page.h\<close>, rounding a size up to a power of two by smearing bits, and
  the search for the order of a size.  The bit trick is shown equal to the least power of two
  that is large enough, for the range of sizes where it is, and the two functions are shown to
  fit together.
\<close>

definition PAGE_MAX_SIZE :: u64 where "PAGE_MAX_SIZE = 4 * 1024 * 1024"
definition PAGE_MAX_ORDER :: u8 where "PAGE_MAX_ORDER = 10"
definition PAGE_MIN_ORDER :: u8 where "PAGE_MIN_ORDER = 0"
definition PAGE_AMOUNT_PER_BLOCK :: nat where "PAGE_AMOUNT_PER_BLOCK = 1024"

lemmas page_consts [layout_simps] =
  PAGE_MAX_SIZE_def PAGE_MAX_ORDER_def PAGE_MIN_ORDER_def PAGE_AMOUNT_PER_BLOCK_def ARCH_PAGE_SIZE_def

definition EQUALS_POWER_TWO :: "u64 \<Rightarrow> bool" where
  "EQUALS_POWER_TWO x \<longleftrightarrow> x AND (x - 1) = 0"

definition page_size_align :: "u64 \<Rightarrow> u64" where
  "page_size_align sz =
     (let s0 = sz - 1;
          s1 = s0 OR drop_bit 1 s0;
          s2 = s1 OR drop_bit 2 s1;
          s4 = s2 OR drop_bit 4 s2;
          s8 = s4 OR drop_bit 8 s4;
          s16 = s8 OR drop_bit 16 s8
      in s16 + 1)"

function order_loop :: "u64 \<Rightarrow> u64 \<Rightarrow> u8 \<Rightarrow> u8" where
  "order_loop m_size sz order =
     (if m_size > sz then order_loop (m_size div 2) sz (order - 1) else order)"
  by pat_completeness auto
termination
proof (relation "measure (\<lambda>(m, s, k). unat m)", simp, clarsimp)
  fix m s :: u64
  assume "s < m"
  then have "0 < unat m" by (simp add: word_less_nat_alt)
  then show "unat (m div 2) < unat m" by (simp add: unat_div)
qed

declare order_loop.simps [simp del]

definition page_size_order :: "u64 \<Rightarrow> u8" where
  "page_size_order sz = order_loop (PAGE_MAX_SIZE div ARCH_PAGE_SIZE) sz PAGE_MAX_ORDER"

section \<open>Smearing the highest bit\<close>

text \<open>\<open>x\<close> holds, at each place, whether \<open>s\<close> has a bit at one of the next \<open>n\<close> places.\<close>

definition smeared :: "nat \<Rightarrow> u64 \<Rightarrow> u64 \<Rightarrow> bool" where
  "smeared n s x \<longleftrightarrow> (\<forall>i. bit x i \<longleftrightarrow> (\<exists>j<n. bit s (i + j)))"

lemma smeared_start: "smeared 1 s s"
  by (simp add: smeared_def)

lemma ex_less_double:
  fixes P :: "nat \<Rightarrow> bool"
  shows "(\<exists>j<n + n. P j) \<longleftrightarrow> (\<exists>j<n. P j) \<or> (\<exists>j<n. P (n + j))"
proof
  assume "\<exists>j<n + n. P j"
  then obtain j where j: "j < n + n" "P j" by blast
  show "(\<exists>j<n. P j) \<or> (\<exists>j<n. P (n + j))"
  proof (cases "j < n")
    case False
    with j have "j - n < n" "P (n + (j - n))" by auto
    then show ?thesis by blast
  qed (use j in blast)
next
  assume "(\<exists>j<n. P j) \<or> (\<exists>j<n. P (n + j))"
  then show "\<exists>j<n + n. P j" by (auto intro: trans_less_add1 add_strict_left_mono)
qed

lemma smeared_double: "smeared n s x \<Longrightarrow> smeared (n + n) s (x OR drop_bit n x)"
  by (simp add: smeared_def bit_or_iff bit_drop_bit_eq ex_less_double add.assoc add.left_commute)

lemma page_size_align_smeared: "\<exists>x. smeared 32 (sz - 1) x \<and> page_size_align sz = x + 1"
proof -
  define s0 where "s0 = sz - 1"
  define s1 where "s1 = s0 OR drop_bit 1 s0"
  define s2 where "s2 = s1 OR drop_bit 2 s1"
  define s4 where "s4 = s2 OR drop_bit 4 s2"
  define s8 where "s8 = s4 OR drop_bit 8 s4"
  define s16 where "s16 = s8 OR drop_bit 16 s8"
  have "smeared 2 s0 s1" using smeared_double [OF smeared_start [of s0]] by (simp add: s1_def numeral_2_eq_2)
  from smeared_double [OF this] have "smeared 4 s0 s2" by (simp add: s2_def)
  from smeared_double [OF this] have "smeared 8 s0 s4" by (simp add: s4_def)
  from smeared_double [OF this] have "smeared 16 s0 s8" by (simp add: s8_def)
  from smeared_double [OF this] have "smeared 32 s0 s16" by (simp add: s16_def)
  then show ?thesis
    by (auto simp: page_size_align_def Let_def s0_def s1_def s2_def s4_def s8_def s16_def)
qed

text \<open>The position of the highest bit of a positive number below \<open>2 ^ n\<close>.\<close>

lemma highest_bit:
  assumes "0 < (x :: nat)" and "x < 2 ^ n"
  obtains k where "k < n" and "2 ^ k \<le> x" and "x < 2 ^ Suc k"
proof -
  have "\<exists>k<n. 2 ^ k \<le> x \<and> x < 2 ^ Suc k"
    using assms
  proof (induction n)
    case 0
    then show ?case by simp
  next
    case (Suc n)
    then show ?case
      by (cases "x < 2 ^ n") (auto intro: less_SucI exI [of _ n])
  qed
  then show ?thesis using that by blast
qed

lemma bit_at_top:
  fixes s :: u64
  assumes "2 ^ k \<le> unat s" and "unat s < 2 ^ Suc k"
  shows "bit s k" and "k < j \<Longrightarrow> \<not> bit s j"
proof -
  have b: "bit s i \<longleftrightarrow> odd (unat s div 2 ^ i)" for i
    by (simp add: bit_unsigned_iff flip: bit_iff_odd)
  have "unat s div 2 ^ k = 1"
    using assms by (intro div_nat_eqI) simp_all
  then show "bit s k" by (simp add: b)
  assume "k < j"
  then have "(2 :: nat) ^ Suc k \<le> 2 ^ j" by (intro power_increasing) auto
  then have "unat s div 2 ^ j = 0" using assms(2) by simp
  then show "\<not> bit s j" by (simp add: b)
qed

lemma smeared_mask:
  assumes "smeared 32 s x" and "k < 32" and "2 ^ k \<le> unat s" and "unat s < 2 ^ Suc k"
  shows "x = mask (Suc k)"
proof (rule bit_word_eqI)
  fix i assume i: "i < LENGTH(64)"
  note top = bit_at_top [OF assms(3,4)]
  have "(\<exists>j<32. bit s (i + j)) \<longleftrightarrow> i \<le> k"
  proof
    assume "i \<le> k"
    then have "k - i < 32" "bit s (i + (k - i))" using assms(2) top(1) by auto
    then show "\<exists>j<32. bit s (i + j)" by blast
  next
    assume "\<exists>j<32. bit s (i + j)"
    then obtain j where "bit s (i + j)" by blast
    then show "i \<le> k" using top(2) [of "i + j"] by linarith
  qed
  then show "bit x i = bit (mask (Suc k) :: u64) i"
    using assms(1) i by (auto simp: smeared_def bit_mask_iff)
qed

lemma page_size_align_pow2:
  assumes "1 < unat sz" and "unat sz \<le> 2 ^ 32"
  obtains k where "k < 32" and "page_size_align sz = 2 ^ Suc k" and "2 ^ k < unat sz" and "unat sz \<le> 2 ^ Suc k"
proof -
  have "sz \<noteq> 0" using assms(1) by auto
  then have m: "unat (sz - 1) = unat sz - 1" by (rule unat_minus_one)
  obtain k where k: "k < 32" "2 ^ k \<le> unat (sz - 1)" "unat (sz - 1) < 2 ^ Suc k"
    using assms m by (auto intro: highest_bit [of "unat (sz - 1)" 32])
  obtain x where x: "smeared 32 (sz - 1) x" "page_size_align sz = x + 1"
    using page_size_align_smeared by blast
  have "x = mask (Suc k)" by (rule smeared_mask [OF x(1) k])
  then have "page_size_align sz = 2 ^ Suc k" using x(2) by (simp add: mask_eq_exp_minus_1)
  moreover have "2 ^ k < unat sz" "unat sz \<le> 2 ^ Suc k" using k m assms(1) by auto
  ultimately show ?thesis using that k(1) by blast
qed

lemma page_size_align_1: "page_size_align 1 = 1"
  by (simp add: page_size_align_def Let_def)

section \<open>The order of a size\<close>

lemma order_loop_log:
  assumes "0 < unat sz" and "unat sz < 2 ^ Suc k" and "k < 64"
  shows "\<exists>j\<le>k. order_loop (2 ^ k) sz (of_nat k) = of_nat j \<and> 2 ^ j \<le> unat sz \<and> unat sz < 2 ^ Suc j"
  using assms
proof (induction k)
  case 0
  then have "sz = 1" by (simp add: word_unat_eq_iff)
  then show ?case by (simp add: order_loop.simps)
next
  case (Suc k)
  show ?case
  proof (cases "unat sz < 2 ^ Suc k")
    case True
    have "(2 :: u64) ^ Suc k div 2 = 2 ^ k"
      using Suc.prems(3) by (simp add: word_unat_eq_iff unat_div del: power_Suc) simp
    moreover have "sz < 2 ^ Suc k" using True Suc.prems(3) by (simp add: word_less_nat_alt del: power_Suc)
    ultimately have "order_loop (2 ^ Suc k) sz (of_nat (Suc k)) = order_loop (2 ^ k) sz (of_nat k)"
      by (simp add: order_loop.simps [of "2 ^ Suc k"] del: power_Suc)
    with Suc.IH [OF Suc.prems(1) True] Suc.prems(3) show ?thesis by (metis Suc_lessD le_SucI)
  next
    case False
    then have "\<not> sz < 2 ^ Suc k" using Suc.prems(3) by (simp add: word_less_nat_alt del: power_Suc)
    then have "order_loop (2 ^ Suc k) sz (of_nat (Suc k)) = of_nat (Suc k)"
      by (simp add: order_loop.simps [of "2 ^ Suc k"] del: power_Suc)
    with False Suc.prems(2) show ?thesis by (metis linorder_not_le order_refl)
  qed
qed

lemma page_size_order_log:
  assumes "0 < unat sz" and "unat sz < 2048"
  obtains j where "j \<le> 10" and "page_size_order sz = of_nat j" and "2 ^ j \<le> unat sz" and "unat sz < 2 ^ Suc j"
  using order_loop_log [of sz 10] assms that by (auto simp: page_size_order_def layout_simps)

lemma page_size_order_0: "page_size_order 0 = 255"
  by (simp add: page_size_order_def layout_simps order_loop.simps)

lemma page_size_order_large: "1024 \<le> unat sz \<Longrightarrow> page_size_order sz = 10"
  by (simp add: page_size_order_def layout_simps order_loop.simps word_less_nat_alt)

section \<open>Properties\<close>

text \<open>
  C29. For every size from 1 to \<open>2 ^ 32\<close> the bit trick of \<^verbatim>\<open>page_size_align\<close> returns the least
  power of two that is not smaller than the size.
\<close>

theorem page_size_align_least:
  assumes "1 \<le> unat sz" and "unat sz \<le> 2 ^ 32"
  shows "\<exists>k. page_size_align sz = 2 ^ k \<and> unat sz \<le> 2 ^ k \<and> (\<forall>j. unat sz \<le> 2 ^ j \<longrightarrow> k \<le> j)"
proof (cases "unat sz = 1")
  case True
  then have "sz = 1" by (simp add: word_unat_eq_iff)
  then have "page_size_align sz = 2 ^ 0 \<and> unat sz \<le> 2 ^ 0" by (simp add: page_size_align_1)
  then show ?thesis by blast
next
  case False
  then have "1 < unat sz" using assms(1) by simp
  then obtain k where k: "page_size_align sz = 2 ^ Suc k" "2 ^ k < unat sz" "unat sz \<le> 2 ^ Suc k"
    using assms(2) by (rule page_size_align_pow2)
  have "Suc k \<le> j" if "unat sz \<le> 2 ^ j" for j
  proof -
    have "(2 :: nat) ^ k < 2 ^ j" using k(2) that by (rule less_le_trans)
    then show ?thesis by simp
  qed
  with k show ?thesis by blast
qed

theorem page_size_align_least_witness: "page_size_align 5 = 8"
proof -
  obtain k where k: "page_size_align 5 = 2 ^ k" "5 \<le> (2 :: nat) ^ k" "\<And>j. 5 \<le> (2 :: nat) ^ j \<Longrightarrow> k \<le> j"
    using page_size_align_least [of 5] by auto
  have "k \<le> 3" by (rule k(3)) simp
  moreover have "(2 :: nat) ^ 2 < 2 ^ k" using k(2) by simp
  then have "2 < k" by (rule power_less_imp_less_exp [rotated]) simp
  ultimately have "k = 3" by linarith
  with k(1) show ?thesis by simp
qed

text \<open>
  A request for up to 1024 pages, rounded up, is exactly the block size of the order that
  \<^verbatim>\<open>page_size_order\<close> computes for it, and that order is a valid one.
\<close>

theorem page_order_matches_size:
  assumes "1 \<le> unat amount" and "unat amount \<le> 1024"
  shows "unat (page_size_order (page_size_align amount)) \<le> 10 \<and>
    unat (page_size_align amount) = 2 ^ unat (page_size_order (page_size_align amount)) \<and>
    unat amount \<le> unat (page_size_align amount)"
proof -
  have least: "\<exists>k\<le>10. page_size_align amount = 2 ^ k \<and> unat amount \<le> 2 ^ k"
  proof (cases "unat amount = 1")
    case True
    then have "amount = 1" by (simp add: word_unat_eq_iff)
    then show ?thesis by (intro exI [of _ 0]) (simp add: page_size_align_1)
  next
    case False
    then obtain k where k: "page_size_align amount = 2 ^ Suc k" "2 ^ k < unat amount" "unat amount \<le> 2 ^ Suc k"
      using assms page_size_align_pow2 [of amount] by auto
    have "(2 :: nat) ^ k < 2 ^ 10" using k(2) assms(2) by simp
    then have "k < 10" by (rule power_less_imp_less_exp [rotated]) simp
    with k show ?thesis by (intro exI [of _ "Suc k"]) simp
  qed
  then obtain k where k: "k \<le> 10" "page_size_align amount = 2 ^ k" "unat amount \<le> 2 ^ k" by blast
  have u: "unat ((2 :: u64) ^ k) = 2 ^ k" using k(1) by simp
  have "(2 :: nat) ^ k \<le> 2 ^ 10" using k(1) by (intro power_increasing) auto
  then obtain j where j: "j \<le> 10" "page_size_order (2 ^ k) = of_nat j" "2 ^ j \<le> (2 :: nat) ^ k" "(2 :: nat) ^ k < 2 ^ Suc j"
    using page_size_order_log [of "2 ^ k"] u by auto
  have "j \<le> k" using j(3) by (rule power_le_imp_le_exp [rotated]) simp
  moreover have "k < Suc j" using j(4) by (rule power_less_imp_less_exp [rotated]) simp
  ultimately have "j = k" by simp
  moreover have "unat (of_nat j :: u8) = j" using j(1) by (simp add: unat_of_nat)
  ultimately show ?thesis using k j u by simp
qed

theorem page_order_matches_size_witness:
  "unat (page_size_align 16) = 2 ^ unat (page_size_order (page_size_align 16))"
  using page_order_matches_size [of 16] by simp

text \<open>
  Above 1024 pages the order no longer grows with the request: the block that the order
  stands for is smaller than the rounded number of pages.
\<close>

theorem page_order_saturates:
  assumes "1024 < unat amount" and "unat amount \<le> 2 ^ 32"
  shows "page_size_order (page_size_align amount) = PAGE_MAX_ORDER \<and>
    2 ^ unat (page_size_order (page_size_align amount)) < unat amount \<and>
    unat amount \<le> unat (page_size_align amount)"
proof -
  obtain k where k: "k < 32" "page_size_align amount = 2 ^ Suc k" "unat amount \<le> 2 ^ Suc k"
    using assms page_size_align_pow2 [of amount] by auto
  have u: "unat (page_size_align amount) = 2 ^ Suc k" unfolding k(2) using k(1) by (intro unat_pow2) simp
  then have "page_size_order (page_size_align amount) = 10"
    using assms(1) k(3) by (intro page_size_order_large) simp
  then show ?thesis using assms(1) k(3) u by (simp add: layout_simps)
qed

theorem page_order_saturates_witness: "page_size_order (page_size_align 2048) = PAGE_MAX_ORDER"
  using page_order_saturates [of 2048] by simp

end
