(* ===== verification/Page_Frames.thy ===== *)
theory Page_Frames
  imports LinkedList Spinlock Page_Order
begin

text \<open>
  The physical page frame allocator of \<^verbatim>\<open>Kernel/src/mm/page.c\<close>: eleven free lists of
  blocks of \<open>2 ^ order\<close> frames, descriptors of 64 bytes in an array at
  \<^verbatim>\<open>KERNEL_PHYSICAL_PAGES\<close>, splitting and combining of blocks.  A descriptor's list node
  (its first sixteen bytes) lives in the word memory of the theory \<open>LinkedList\<close>; its other
  fields are a record, found under the descriptor's address.  The abstract allocator at the end
  of the definitions works on lists of frame numbers; the theory \<open>Buddy_Refinement\<close> shows
  that \<^verbatim>\<open>PM_AllocatePages\<close> implements it.
\<close>

section \<open>Descriptors and state\<close>

record pageframe =
  pf_order :: "4 word"
  pf_free :: bool
  pf_kmem :: bool
  pf_ign :: "10 word"
  slab_inuse :: "16 word"
  slab_objects :: "15 word"
  slab_frozen :: bool
  slabCache :: u64
  pf_objects :: u64
  pf_lock :: u32
  pf_addr :: u64

text \<open>
  The state: word memory, the descriptors that are mapped, the \<^verbatim>\<open>count\<close> fields of
  \<^verbatim>\<open>pf_freelist\<close> and the address the linker gave that array.
\<close>

record pm_state =
  mem :: wmem
  frames :: "u64 \<rightharpoonup> pageframe"
  freelist_count :: "nat \<Rightarrow> u32"
  pf_freelist_at :: u64

definition KERNEL_PHYSICAL_PAGES :: u64 where
  "KERNEL_PHYSICAL_PAGES = 0xFFFFFF8000000000"

definition sizeof_pageframe :: u64 where "sizeof_pageframe = 64"
definition sizeof_pageframe_list :: u64 where "sizeof_pageframe_list = 24"

definition PAGE_LISTS :: nat where "PAGE_LISTS = 11"

lemmas frame_consts [layout_simps] =
  KERNEL_PHYSICAL_PAGES_def sizeof_pageframe_def sizeof_pageframe_list_def PAGE_LISTS_def

text \<open>The address of \<^verbatim>\<open>pf_freelist[i].handle\<close>.\<close>

definition freelist_handle :: "'a pm_state_scheme \<Rightarrow> nat \<Rightarrow> u64" where
  "freelist_handle s i = pf_freelist_at s + sizeof_pageframe_list * of_nat i"

definition load_frame :: "u64 \<Rightarrow> 'a pm_state_scheme \<Rightarrow> pageframe res" where
  "load_frame p s =
     (if p = 0 then Inl NullDeref
      else case frames s p of None \<Rightarrow> Inl (PageFault p) | Some f \<Rightarrow> Inr f)"

definition store_frame :: "u64 \<Rightarrow> pageframe \<Rightarrow> 'a pm_state_scheme \<Rightarrow> 'a pm_state_scheme" where
  "store_frame p f s = s\<lparr>frames := (frames s)(p \<mapsto> f)\<rparr>"

definition lock_frame :: "u64 \<Rightarrow> 'a pm_state_scheme \<Rightarrow> 'a pm_state_scheme res" where
  "lock_frame p s =
     bind_res (load_frame p s) (\<lambda>f.
     bind_res (AcquireLock (pf_lock f)) (\<lambda>v.
     Inr (store_frame p (f\<lparr>pf_lock := v\<rparr>) s)))"

definition unlock_frame :: "u64 \<Rightarrow> 'a pm_state_scheme \<Rightarrow> 'a pm_state_scheme res" where
  "unlock_frame p s =
     bind_res (load_frame p s) (\<lambda>f. Inr (store_frame p (f\<lparr>pf_lock := ReleaseLock (pf_lock f)\<rparr>) s))"

definition list_remove :: "u64 \<Rightarrow> 'a pm_state_scheme \<Rightarrow> 'a pm_state_scheme res" where
  "list_remove p s = bind_res (LinkedListRemove p (mem s)) (\<lambda>m. Inr (s\<lparr>mem := m\<rparr>))"

definition list_append :: "u64 \<Rightarrow> u64 \<Rightarrow> 'a pm_state_scheme \<Rightarrow> 'a pm_state_scheme" where
  "list_append h p s = s\<lparr>mem := LinkedListAppend h p (mem s)\<rparr>"

definition add_count :: "nat \<Rightarrow> u32 \<Rightarrow> 'a pm_state_scheme \<Rightarrow> 'a pm_state_scheme" where
  "add_count i d s = s\<lparr>freelist_count := (freelist_count s)(i := freelist_count s i + d)\<rparr>"

section \<open>Operations\<close>

text \<open>The test ignores its second parameter and uses the order of the descriptor.\<close>

definition is_order_aligned :: "pageframe \<Rightarrow> int \<Rightarrow> bool" where
  "is_order_aligned page order \<longleftrightarrow> pf_addr page mod (2 ^ unat (pf_order page) * ARCH_PAGE_SIZE) = 0"

fun write_pages_loop :: "nat \<Rightarrow> nat \<Rightarrow> u64 \<Rightarrow> u64 \<Rightarrow> 'a pm_state_scheme \<Rightarrow> 'a pm_state_scheme res" where
  "write_pages_loop 0 idx pages address s = Inr s"
| "write_pages_loop (Suc n) idx pages address s =
     (let p = pages + of_nat idx * sizeof_pageframe
      in bind_res (load_frame p s) (\<lambda>f.
         write_pages_loop n (Suc idx) pages address
           (store_frame p (f\<lparr>pf_free := True, pf_addr := address + of_nat idx * ARCH_PAGE_SIZE\<rparr>) s)))"

definition write_pages :: "u64 \<Rightarrow> u64 \<Rightarrow> 'a pm_state_scheme \<Rightarrow> 'a pm_state_scheme res" where
  "write_pages pages address s =
     bind_res (write_pages_loop 1024 0 pages address s) (\<lambda>s1.
     bind_res (load_frame pages s1) (\<lambda>f.
     let s2 = store_frame pages (f\<lparr>pf_order := ucast PAGE_MAX_ORDER\<rparr>) s1;
         i = unat PAGE_MAX_ORDER - 1
     in Inr (add_count i 1 (list_append (freelist_handle s2 i) pages s2))))"

definition PM_ExpandPage :: "u64 \<Rightarrow> 'a pm_state_scheme \<Rightarrow> (u64 \<times> 'a pm_state_scheme) res" where
  "PM_ExpandPage page s =
     bind_res (load_frame page s) (\<lambda>f0.
     if pf_order f0 = 0 then Inr (0, s)
     else
       bind_res (lock_frame page s) (\<lambda>s1.
       bind_res (list_remove page s1) (\<lambda>s2.
       bind_res (load_frame page s2) (\<lambda>f.
       let ord = pf_order f - 1;
           s3 = store_frame page (f\<lparr>pf_order := ord\<rparr>) s2
       in
       bind_res (check_index PAGE_LISTS (unat ord)) (\<lambda>_.
       let new_page = page + 2 ^ unat ord * sizeof_pageframe
       in
       bind_res (load_frame new_page s3) (\<lambda>g.
       let s4 = store_frame new_page
                  (g\<lparr>pf_order := ord, pf_addr := pf_addr f + 2 ^ unat ord * ARCH_PAGE_SIZE, pf_free := True\<rparr>) s3;
           s5 = list_append (freelist_handle s4 (unat ord)) new_page s4;
           s6 = add_count (unat ord) 1 s5
       in
       bind_res (unlock_frame page s6) (\<lambda>s7. Inr (page, s7))))))))"

function scan_lists :: "nat \<Rightarrow> 'a pm_state_scheme \<Rightarrow> nat option" where
  "scan_lists m_order s =
     (if m_order \<le> unat PAGE_MAX_ORDER
      then if freelist_count s m_order \<noteq> 0 then Some m_order else scan_lists (Suc m_order) s
      else None)"
  by pat_completeness auto
termination
  by (relation "measure (\<lambda>(m, s). 11 - m)") (auto simp: layout_simps)

declare scan_lists.simps [simp del]

text \<open>
  The loop at \<^verbatim>\<open>SELECT_PAGE\<close>: one unit of fuel for each jump back to the label.
\<close>

fun select_page :: "nat \<Rightarrow> u64 \<Rightarrow> 'a pm_state_scheme \<Rightarrow> (u64 \<times> 'a pm_state_scheme) res" where
  "select_page 0 h s = Inl OutOfFuel"
| "select_page (Suc fuel) h s =
     (let page = node_next (mem s) h
      in bind_res (lock_frame page s) (\<lambda>s1.
         bind_res (load_frame page s1) (\<lambda>f.
         if \<not> pf_free f
         then bind_res (unlock_frame page s1) (\<lambda>s2. select_page fuel h s2)
         else Inr (page, s1))))"

fun expand_loop :: "nat \<Rightarrow> u64 \<Rightarrow> 'a pm_state_scheme \<Rightarrow> (u64 \<times> 'a pm_state_scheme) res" where
  "expand_loop 0 page s = Inr (page, s)"
| "expand_loop (Suc d) page s = bind_res (PM_ExpandPage page s) (\<lambda>(p, s'). expand_loop d p s')"

definition PM_AllocatePages :: "nat \<Rightarrow> u8 \<Rightarrow> 'a pm_state_scheme \<Rightarrow> (u64 \<times> 'a pm_state_scheme) res" where
  "PM_AllocatePages fuel order s =
     (if order > PAGE_MAX_ORDER \<or> order < PAGE_MIN_ORDER then Inr (0, s)
      else case scan_lists (unat order) s of
        None \<Rightarrow> Inr (0, s)
      | Some m_order \<Rightarrow>
          bind_res (select_page fuel (freelist_handle s m_order) s) (\<lambda>(page, s1).
          let s2 = add_count m_order (-1) s1 in
          bind_res (list_remove page s2) (\<lambda>s3.
          bind_res (unlock_frame page s3) (\<lambda>s4.
          bind_res (expand_loop (m_order - unat order) page s4) (\<lambda>(p, s5).
          bind_res (load_frame p s5) (\<lambda>f.
          Inr (p, store_frame p (f\<lparr>pf_free := False\<rparr>) s5)))))))"

definition PM_Allocate :: "nat \<Rightarrow> u64 \<Rightarrow> 'a pm_state_scheme \<Rightarrow> (u64 \<times> 'a pm_state_scheme) res" where
  "PM_Allocate fuel sz s =
     (if sz > PAGE_MAX_SIZE \<or> sz \<le> 0 then Inr (0, s)
      else PM_AllocatePages fuel (page_size_order (page_size_align sz div 4096)) s)"

text \<open>
  The buddy's descriptor is looked up at the buddy's physical address, as the source does.
\<close>

definition PM_CombinePage :: "u64 \<Rightarrow> 'a pm_state_scheme \<Rightarrow> (u64 \<times> 'a pm_state_scheme) res" where
  "PM_CombinePage page s =
     bind_res (load_frame page s) (\<lambda>f.
     let order_size = 2 ^ unat (pf_order f) * ARCH_PAGE_SIZE;
         is_aligned = (pf_addr f mod order_size = 0);
         new_page = (if is_aligned then pf_addr f + order_size else pf_addr f - order_size)
     in
     bind_res (load_frame new_page s) (\<lambda>g.
     if pf_free g
     then
       bind_res (list_remove new_page s) (\<lambda>s1.
       let result = (if is_aligned then page else new_page) in
       bind_res (load_frame result s1) (\<lambda>r.
       let ord = pf_order r + 1;
           s2 = store_frame result (r\<lparr>pf_order := ord\<rparr>) s1
       in
       bind_res (check_index PAGE_LISTS (unat ord)) (\<lambda>_.
       Inr (result, list_append (freelist_handle s2 (unat ord)) result s2))))
     else
       bind_res (check_index PAGE_LISTS (unat (pf_order f))) (\<lambda>_.
       Inr (0, list_append (freelist_handle s (unat (pf_order f))) page s))))"

fun combine_loop :: "nat \<Rightarrow> u64 \<Rightarrow> 'a pm_state_scheme \<Rightarrow> 'a pm_state_scheme res" where
  "combine_loop 0 pf s = Inl OutOfFuel"
| "combine_loop (Suc fuel) pf s =
     (if pf \<noteq> 0 then bind_res (PM_CombinePage pf s) (\<lambda>(p, s'). combine_loop fuel p s') else Inr s)"

definition PM_FreePages :: "nat \<Rightarrow> u64 \<Rightarrow> 'a pm_state_scheme \<Rightarrow> 'a pm_state_scheme res" where
  "PM_FreePages fuel pf s =
     (if pf = 0 then Inr s
      else
        bind_res (lock_frame pf s) (\<lambda>s1.
        bind_res (load_frame pf s1) (\<lambda>f.
        bind_res (unlock_frame pf (store_frame pf (f\<lparr>pf_free := True\<rparr>) s1)) (\<lambda>s2.
        combine_loop fuel pf s2))))"

definition PM_CombineExistPages :: "u64 \<Rightarrow> u64 \<Rightarrow> 'a pm_state_scheme \<Rightarrow> 'a pm_state_scheme" where
  "PM_CombineExistPages lpage rpage s = s"

section \<open>The abstract allocator\<close>

text \<open>
  A list of frame numbers for each order; a block of order \<open>i\<close> with first frame \<open>n\<close> is the set
  of frames from \<open>n\<close> to \<open>n + 2 ^ i - 1\<close>.
\<close>

type_synonym buddy = "nat \<Rightarrow> nat list"

definition block :: "nat \<Rightarrow> nat \<Rightarrow> nat set" where
  "block i n = {n..<n + 2 ^ i}"

definition free_frames :: "buddy \<Rightarrow> nat set" where
  "free_frames xs = (\<Union>i\<in>{..10}. \<Union>n\<in>set (xs i). block i n)"

text \<open>Splitting gives the upper halves back, from the largest to the smallest.\<close>

fun split_block :: "nat \<Rightarrow> nat \<Rightarrow> nat \<Rightarrow> buddy \<Rightarrow> buddy" where
  "split_block n order 0 xs = xs"
| "split_block n order (Suc d) xs =
     split_block n order d (xs(order + d := (n + 2 ^ (order + d)) # xs (order + d)))"

function first_list :: "nat \<Rightarrow> buddy \<Rightarrow> nat option" where
  "first_list m xs = (if m \<le> 10 then if xs m \<noteq> [] then Some m else first_list (Suc m) xs else None)"
  by pat_completeness auto
termination
  by (relation "measure (\<lambda>(m, xs). 11 - m)") auto

declare first_list.simps [simp del]

definition buddy_alloc :: "nat \<Rightarrow> buddy \<Rightarrow> (nat \<times> buddy) option" where
  "buddy_alloc order xs = (case first_list order xs of
     None \<Rightarrow> None
   | Some m \<Rightarrow> Some (hd (xs m), split_block (hd (xs m)) order (m - order) (xs(m := tl (xs m)))))"

end
