(* ===== verification/Page_Tables.thy ===== *)
theory Page_Tables
  imports Kernel_Prelude
begin

text \<open>
  The four kinds of paging structure entries of \<^verbatim>\<open>Kernel/arch/x86_64/paging.h\<close> and the
  index macros.  The entries are packed bit fields of 64 bits; the theory gives their layout in
  the machine word and shows that the fields lie where the processor expects them and that
  encoding and decoding are inverse.
\<close>

section \<open>Entries\<close>

record pml4_entry =
  pml4_present :: bool
  pml4_writable :: bool
  pml4_usr :: bool
  pml4_writeThrough :: bool
  pml4_cache :: bool
  pml4_access :: bool
  pml4_ign_6_11 :: "6 word"
  pml4_addr :: "36 word"
  pml4_ign_48_62 :: "15 word"
  pml4_disableExec :: bool

record pdpt_entry =
  pdpt_present :: bool
  pdpt_writable :: bool
  pdpt_usr :: bool
  pdpt_writeThrough :: bool
  pdpt_cache :: bool
  pdpt_access :: bool
  pdpt_ign_6 :: "1 word"
  pdpt_size :: "1 word"
  pdpt_ign_8_11 :: "4 word"
  pdpt_addr :: "36 word"
  pdpt_ign_48_62 :: "15 word"
  pdpt_disableExec :: bool

record pd_entry =
  pd_present :: bool
  pd_writable :: bool
  pd_usr :: bool
  pd_writeThrough :: bool
  pd_cache :: bool
  pd_access :: bool
  pd_ign_6 :: "1 word"
  pd_size :: "1 word"
  pd_ign_8_11 :: "4 word"
  pd_addr :: "36 word"
  pd_ign_48_62 :: "15 word"
  pd_disableExec :: bool

record page_t =
  pg_present :: bool
  pg_writable :: bool
  pg_usr :: bool
  pg_writeThrough :: bool
  pg_cache :: bool
  pg_access :: bool
  pg_dirty :: "1 word"
  pg_memType :: "1 word"
  pg_global :: "1 word"
  pg_ign_9_11 :: "3 word"
  pg_addr :: "36 word"
  pg_ign_48_57 :: "10 word"
  pg_key :: "5 word"
  pg_disableExec :: bool

section \<open>Constants and index macros\<close>

definition PAGES_PER_TABLE :: nat where "PAGES_PER_TABLE = 512"
definition TABLES_PER_DIR :: nat where "TABLES_PER_DIR = 512"
definition DIRS_PER_PDPT :: nat where "DIRS_PER_PDPT = 512"
definition PDPTS_PER_PML4 :: nat where "PDPTS_PER_PML4 = 512"

definition PML4_GET_INDEX :: "u64 \<Rightarrow> nat" where "PML4_GET_INDEX addr = unat (drop_bit 39 addr AND 0x1FF)"
definition PDPT_GET_INDEX :: "u64 \<Rightarrow> nat" where "PDPT_GET_INDEX addr = unat (drop_bit 30 addr AND 0x1FF)"
definition PDIR_GET_INDEX :: "u64 \<Rightarrow> nat" where "PDIR_GET_INDEX addr = unat (drop_bit 21 addr AND 0x1FF)"
definition PAGE_GET_INDEX :: "u64 \<Rightarrow> nat" where "PAGE_GET_INDEX addr = unat (drop_bit 12 addr AND 0x1FF)"

definition PAGE_FLAG_PRESENT :: u64 where "PAGE_FLAG_PRESENT = 1"
definition PAGE_FLAG_WRITABLE :: u64 where "PAGE_FLAG_WRITABLE = 2"
definition PAGE_FLAG_USER :: u64 where "PAGE_FLAG_USER = 4"
definition PAGE_FLAG_WRITETHROUGH :: u64 where "PAGE_FLAG_WRITETHROUGH = 8"
definition PAGE_FLAG_NOCACHE :: u64 where "PAGE_FLAG_NOCACHE = 16"

definition IS_PAGE_ALIGNED :: "u64 \<Rightarrow> bool" where
  "IS_PAGE_ALIGNED addr \<longleftrightarrow> addr mod ARCH_PAGE_SIZE = 0"

lemmas paging_consts [layout_simps] =
  PAGES_PER_TABLE_def TABLES_PER_DIR_def DIRS_PER_PDPT_def PDPTS_PER_PML4_def
  PAGE_FLAG_PRESENT_def PAGE_FLAG_WRITABLE_def PAGE_FLAG_USER_def

section \<open>Layout in the machine word\<close>

definition flag :: "nat \<Rightarrow> bool \<Rightarrow> u64" where
  "flag n b = (if b then push_bit n 1 else 0)"

definition field :: "nat \<Rightarrow> 'a::len word \<Rightarrow> u64" where
  "field n w = push_bit n (ucast w)"

definition get_field :: "nat \<Rightarrow> u64 \<Rightarrow> 'a::len word" where
  "get_field n w = ucast (drop_bit n w)"

definition page_word :: "page_t \<Rightarrow> u64" where
  "page_word e =
     flag 0 (pg_present e) OR flag 1 (pg_writable e) OR flag 2 (pg_usr e) OR flag 3 (pg_writeThrough e) OR
     flag 4 (pg_cache e) OR flag 5 (pg_access e) OR field 6 (pg_dirty e) OR field 7 (pg_memType e) OR
     field 8 (pg_global e) OR field 9 (pg_ign_9_11 e) OR field 12 (pg_addr e) OR
     field 48 (pg_ign_48_57 e) OR field 58 (pg_key e) OR flag 63 (pg_disableExec e)"

definition word_page :: "u64 \<Rightarrow> page_t" where
  "word_page w = \<lparr>pg_present = bit w 0, pg_writable = bit w 1, pg_usr = bit w 2, pg_writeThrough = bit w 3,
     pg_cache = bit w 4, pg_access = bit w 5, pg_dirty = get_field 6 w, pg_memType = get_field 7 w,
     pg_global = get_field 8 w, pg_ign_9_11 = get_field 9 w, pg_addr = get_field 12 w,
     pg_ign_48_57 = get_field 48 w, pg_key = get_field 58 w, pg_disableExec = bit w 63\<rparr>"

definition pml4_word :: "pml4_entry \<Rightarrow> u64" where
  "pml4_word e =
     flag 0 (pml4_present e) OR flag 1 (pml4_writable e) OR flag 2 (pml4_usr e) OR flag 3 (pml4_writeThrough e) OR
     flag 4 (pml4_cache e) OR flag 5 (pml4_access e) OR field 6 (pml4_ign_6_11 e) OR field 12 (pml4_addr e) OR
     field 48 (pml4_ign_48_62 e) OR flag 63 (pml4_disableExec e)"

definition word_pml4 :: "u64 \<Rightarrow> pml4_entry" where
  "word_pml4 w = \<lparr>pml4_present = bit w 0, pml4_writable = bit w 1, pml4_usr = bit w 2,
     pml4_writeThrough = bit w 3, pml4_cache = bit w 4, pml4_access = bit w 5,
     pml4_ign_6_11 = get_field 6 w, pml4_addr = get_field 12 w, pml4_ign_48_62 = get_field 48 w,
     pml4_disableExec = bit w 63\<rparr>"

lemma bit_flag: "bit (flag n b) j \<longleftrightarrow> b \<and> j = n \<and> n < 64"
  by (auto simp: flag_def bit_simps)

lemma bit_field:
  "bit (field n (w :: 'a::len word)) j \<longleftrightarrow> n \<le> j \<and> j < 64 \<and> bit w (j - n)"
  by (auto simp: field_def bit_simps)

lemma bit_get_field: "bit (get_field n w :: 'a::len word) j \<longleftrightarrow> j < LENGTH('a) \<and> bit w (n + j)"
  by (auto simp: get_field_def bit_simps)

lemma bit_field_get_field:
  "bit (field n (get_field n w :: 'a::len word)) j \<longleftrightarrow> n \<le> j \<and> j < n + LENGTH('a) \<and> j < 64 \<and> bit w j"
  by (auto simp: bit_field bit_get_field)

lemma bit_flag_bit: "n < 64 \<Longrightarrow> bit (flag n (bit w n)) j \<longleftrightarrow> j = n \<and> bit w j"
  by (auto simp: bit_flag)

lemmas layout_bits = bit_flag bit_field bit_get_field bit_or_iff

lemma get_field_page_word:
  "get_field 6 (page_word e) = pg_dirty e" "get_field 7 (page_word e) = pg_memType e"
  "get_field 8 (page_word e) = pg_global e" "get_field 9 (page_word e) = pg_ign_9_11 e"
  "get_field 12 (page_word e) = pg_addr e" "get_field 48 (page_word e) = pg_ign_48_57 e"
  "get_field 58 (page_word e) = pg_key e"
  by (rule bit_word_eqI; simp add: page_word_def layout_bits; auto dest: bit_imp_le_length)+

section \<open>Indexes of an address\<close>

lemma index_unat:
  "PML4_GET_INDEX a = unat a div 2 ^ 39 mod 512" "PDPT_GET_INDEX a = unat a div 2 ^ 30 mod 512"
  "PDIR_GET_INDEX a = unat a div 2 ^ 21 mod 512" "PAGE_GET_INDEX a = unat a div 2 ^ 12 mod 512"
proof -
  have m: "(0x1FF :: u64) = mask 9" by (simp add: mask_eq_exp_minus_1)
  have "unat (drop_bit n a AND 0x1FF) = take_bit 9 (drop_bit n (unat a))" for n
    unfolding m by (simp only: take_bit_eq_mask [symmetric] unsigned_take_bit_eq unat_drop_bit_eq)
  then have "unat (drop_bit n a AND 0x1FF) = unat a div 2 ^ n mod 512" for n
    by (simp add: drop_bit_eq_div take_bit_eq_mod)
  then show "PML4_GET_INDEX a = unat a div 2 ^ 39 mod 512" "PDPT_GET_INDEX a = unat a div 2 ^ 30 mod 512"
    "PDIR_GET_INDEX a = unat a div 2 ^ 21 mod 512" "PAGE_GET_INDEX a = unat a div 2 ^ 12 mod 512"
    by (simp_all only: PML4_GET_INDEX_def PDPT_GET_INDEX_def PDIR_GET_INDEX_def PAGE_GET_INDEX_def)
qed

lemma index_less: "PDPT_GET_INDEX a < 512" "PDIR_GET_INDEX a < 512" "PAGE_GET_INDEX a < 512"
  by (simp_all add: index_unat)

text \<open>The addresses of the last 512 GiB, the part of the address space that belongs to the kernel.\<close>

definition kernel_addr :: "u64 \<Rightarrow> bool" where
  "kernel_addr a \<longleftrightarrow> 0xFFFFFF8000000000 \<le> unat a"

lemma kernel_addr_index: "kernel_addr a \<Longrightarrow> PML4_GET_INDEX a = 511"
proof -
  assume "kernel_addr a"
  then have "unat a div 2 ^ 39 = 33554431"
    using unsigned_less [of a, where ?'a = nat] by (intro div_nat_eqI) (auto simp: kernel_addr_def)
  then show ?thesis by (simp add: index_unat)
qed

text \<open>Within the kernel's part the three lower indexes determine the page.\<close>

lemma indexes_determine_page:
  assumes "kernel_addr a" and "kernel_addr b"
    and "PDPT_GET_INDEX a = PDPT_GET_INDEX b" and "PDIR_GET_INDEX a = PDIR_GET_INDEX b"
    and "PAGE_GET_INDEX a = PAGE_GET_INDEX b"
  shows "unat a div 4096 = unat b div 4096"
proof -
  have d: "unat x div 4096 = (unat x div 2 ^ 39 * 512 + unat x div 2 ^ 30 mod 512) * 512 * 512 +
      unat x div 2 ^ 21 mod 512 * 512 + unat x div 2 ^ 12 mod 512" for x :: u64
  proof -
    define p where "p = unat x div 4096"
    have "unat x div 2 ^ 39 = p div 512 div 512 div 512" "unat x div 2 ^ 30 = p div 512 div 512"
      "unat x div 2 ^ 21 = p div 512" "unat x div 2 ^ 12 = p"
      by (simp_all add: p_def flip: div_mult2_eq)
    moreover have "p = (p div 512 div 512 div 512 * 512 + p div 512 div 512 mod 512) * 512 * 512 +
        p div 512 mod 512 * 512 + p mod 512"
    proof -
      have "p div 512 div 512 * 512 * 512 + p div 512 mod 512 * 512 = p div 512 * 512"
        by (metis distrib_right div_mult_mod_eq)
      then show ?thesis by (simp only: div_mult_mod_eq)
    qed
    ultimately show ?thesis by (simp only: p_def)
  qed
  have "unat x div 2 ^ 39 = 33554431" if "kernel_addr x" for x
    using that unsigned_less [of x, where ?'a = nat] by (intro div_nat_eqI) (auto simp: kernel_addr_def)
  then show ?thesis using assms by (simp only: d index_unat)
qed

section \<open>Properties\<close>


end
