(* ===== verification/Process_Types.thy ===== *)
theory Process_Types
  imports Kernel_Prelude
begin

text \<open>
  The data of processes and threads, from \<^verbatim>\<open>Kernel/include/proc/proc.h\<close>,
  \<^verbatim>\<open>Kernel/include/proc/activity.h\<close> and the register frame of \<^verbatim>\<open>Kernel/arch/x86_64/cpu.h\<close>.
  The memory manager keeps its per-process state in these records, so they come before paging.
\<close>

datatype TaskPriority =
    PriorityIdle | PriorityLowest | PriorityLow | PriorityNormal | PriorityHigh | PriorityHighest | PriorityRealTime

primrec priority_value :: "TaskPriority \<Rightarrow> int" where
  "priority_value PriorityIdle = - 1"
| "priority_value PriorityLowest = 0"
| "priority_value PriorityLow = 1"
| "priority_value PriorityNormal = 2"
| "priority_value PriorityHigh = 3"
| "priority_value PriorityHighest = 4"
| "priority_value PriorityRealTime = 5"

datatype TaskState = TaskStateRunning | TaskStateIdle

primrec task_state_value :: "TaskState \<Rightarrow> u8" where
  "task_state_value TaskStateRunning = 0"
| "task_state_value TaskStateIdle = 1"

datatype TaskType =
    TaskTypeSystemProcess | TaskTypeSystemDriver | TaskTypeApplication | TaskTypeService | TaskTypeBackground

primrec task_type_value :: "TaskType \<Rightarrow> u8" where
  "task_type_value TaskTypeSystemProcess = 0"
| "task_type_value TaskTypeSystemDriver = 1"
| "task_type_value TaskTypeApplication = 2"
| "task_type_value TaskTypeService = 3"
| "task_type_value TaskTypeBackground = 4"

datatype ThreadState = ThreadStateAbolished | ThreadStateRunning | ThreadStateBlocked

primrec thread_state_value :: "ThreadState \<Rightarrow> u8" where
  "thread_state_value ThreadStateAbolished = 0"
| "thread_state_value ThreadStateRunning = 1"
| "thread_state_value ThreadStateBlocked = 2"

record process =
  m_Name :: u64
  m_Publisher :: u64
  m_Package :: u64
  m_ProcessId :: u16
  m_Type :: u8
  m_FilePtr :: u64
  m_Activity :: u64
  m_IsFocus :: bool
  m_IsIdle :: bool
  m_Reserved :: "30 word"
  m_Threads :: u16
  m_Handles :: u16
  m_MemoryAllocated :: u64
  m_MemoryCached :: u32
  m_Pages :: u32
  m_PresentPages :: u32
  m_SwappedPages :: u32
  m_Lock :: u32
  m_HandleLock :: u32
  m_NextThreadId :: u32
  m_MainThread :: u64
  m_ChildrenThreadList :: u64
  m_EntryPoint :: u64
  m_Heap :: u64
  m_Pagemap :: u64
  m_VirtuaPagesBitmap :: u64

text \<open>A process whose fields are all zero, the value of a static object at start-up.\<close>

definition zero_process :: process where
  "zero_process = \<lparr>m_Name = 0, m_Publisher = 0, m_Package = 0, m_ProcessId = 0, m_Type = 0,
     m_FilePtr = 0, m_Activity = 0, m_IsFocus = False, m_IsIdle = False, m_Reserved = 0,
     m_Threads = 0, m_Handles = 0, m_MemoryAllocated = 0, m_MemoryCached = 0, m_Pages = 0,
     m_PresentPages = 0, m_SwappedPages = 0, m_Lock = 0, m_HandleLock = 0, m_NextThreadId = 0,
     m_MainThread = 0, m_ChildrenThreadList = 0, m_EntryPoint = 0, m_Heap = 0, m_Pagemap = 0,
     m_VirtuaPagesBitmap = 0\<rparr>"

record RegisterContext =
  reg_r15 :: u64 reg_r14 :: u64 reg_r13 :: u64 reg_r12 :: u64 reg_r11 :: u64 reg_r10 :: u64 reg_r9 :: u64 reg_r8 :: u64
  reg_rbp :: u64 reg_rdi :: u64 reg_rsi :: u64 reg_rdx :: u64 reg_rcx :: u64 reg_rbx :: u64 reg_rax :: u64
  reg_intno :: u64 reg_err :: u64 reg_rip :: u64 reg_cs :: u64 reg_rflags :: u64 reg_rsp :: u64 reg_ss :: u64

definition zero_registers :: RegisterContext where
  "zero_registers = \<lparr>reg_r15 = 0, reg_r14 = 0, reg_r13 = 0, reg_r12 = 0, reg_r11 = 0, reg_r10 = 0, reg_r9 = 0, reg_r8 = 0,
     reg_rbp = 0, reg_rdi = 0, reg_rsi = 0, reg_rdx = 0, reg_rcx = 0, reg_rbx = 0, reg_rax = 0,
     reg_intno = 0, reg_err = 0, reg_rip = 0, reg_cs = 0, reg_rflags = 0, reg_rsp = 0, reg_ss = 0\<rparr>"

record thread =
  t_listnode_prev :: u64
  t_listnode_next :: u64
  m_ThreadId :: u32
  t_Lock :: u32
  m_StateLock :: u32
  esp0 :: u32
  ss0 :: u32
  m_UserStack :: u64
  m_UserStackLimit :: u64
  m_KernelStack :: u64
  m_KernelStackLimit :: u64
  m_Registers :: RegisterContext
  m_LastSyscall :: RegisterContext
  m_ThreadPriority :: u8
  m_ThreadState :: u8

definition zero_thread :: thread where
  "zero_thread = \<lparr>t_listnode_prev = 0, t_listnode_next = 0, m_ThreadId = 0, t_Lock = 0, m_StateLock = 0,
     esp0 = 0, ss0 = 0, m_UserStack = 0, m_UserStackLimit = 0, m_KernelStack = 0, m_KernelStackLimit = 0,
     m_Registers = zero_registers, m_LastSyscall = zero_registers, m_ThreadPriority = 0, m_ThreadState = 0\<rparr>"

record activity =
  a_Name :: u64
  m_ProcessCount :: u16
  a_listnode_prev :: u64
  a_listnode_next :: u64

end
