(* ===== verification/Terminal.thy ===== *)
theory Terminal
  imports Kernel_Prelude
begin

text \<open>
  Text output: the 80 by 25 character terminal of \<^verbatim>\<open>Kernel/src/graphic/terminal.c\<close>, the panic
  screen of \<^verbatim>\<open>Kernel/src/panic.c\<close> and the frame buffer of
  \<^verbatim>\<open>Kernel/src/graphic/framebuffer.c\<close>.  The cursor stays inside the screen, no cell outside the
  screen is ever written, a line appears where the cursor is, and the screen scrolls by one line
  when the last line is full.
\<close>

section \<open>State and operations\<close>

text \<open>Cells of two bytes, each at the address of its first byte.\<close>

record terminal =
  row :: u64
  column :: u64
  t_buffer :: u64
  cells :: "u64 \<Rightarrow> u16"

definition color :: u16 where "color = 15 OR push_bit 4 0"

definition blank :: u16 where "blank = 32 OR push_bit 8 color"

definition cell_at :: "terminal \<Rightarrow> u64 \<Rightarrow> u64" where
  "cell_at t i = t_buffer t + 2 * i"

definition read_cell :: "terminal \<Rightarrow> u64 \<Rightarrow> u16" where
  "read_cell t i = cells t (cell_at t i)"

definition write_cell :: "u64 \<Rightarrow> u16 \<Rightarrow> terminal \<Rightarrow> terminal" where
  "write_cell i v t = t\<lparr>cells := (cells t)(cell_at t i := v)\<rparr>"

definition set_t_buffer :: "u64 \<Rightarrow> terminal \<Rightarrow> terminal" where
  "set_t_buffer addr t = t\<lparr>t_buffer := addr\<rparr>"

definition clear_screen :: "terminal \<Rightarrow> terminal" where
  "clear_screen t = fold (\<lambda>i. write_cell (of_nat i) blank) [0..<2000] t"

definition line_move_up :: "terminal \<Rightarrow> terminal" where
  "line_move_up t =
     (let t1 = fold (\<lambda>i t. write_cell (of_nat i) (read_cell t (of_nat (i + 80))) t) [0..<1920] t
      in fold (\<lambda>i. write_cell (of_nat (1920 + i)) blank) [0..<80] t1)"

definition new_line :: "terminal \<Rightarrow> terminal" where
  "new_line t =
     (let t1 = t\<lparr>row := row t + 1, column := 0\<rparr>
      in if row t1 = 25 then line_move_up (t1\<lparr>row := row t1 - 1\<rparr>) else t1)"

text \<open>The conversion of a signed \<^verbatim>\<open>char\<close> to 16 bits extends its sign.\<close>

definition glyph :: "u8 \<Rightarrow> u16" where
  "glyph c = scast c OR push_bit 8 color"

definition add_char :: "u8 \<Rightarrow> terminal \<Rightarrow> terminal" where
  "add_char c t =
     (let t1 = write_cell (row t * 80 + column t) (glyph c) t;
          t2 = t1\<lparr>column := column t1 + 1\<rparr>
      in if column t2 = 80 then new_line t2 else t2)"

definition WriteLine :: "u8 list \<Rightarrow> terminal \<Rightarrow> terminal" where
  "WriteLine txt t = new_line (fold add_char txt t)"

fun write_digits :: "nat \<Rightarrow> u64 \<Rightarrow> terminal \<Rightarrow> terminal" where
  "write_digits 0 val t = t"
| "write_digits (Suc n) val t = write_digits n (val div 10) (add_char (ucast (48 + val mod 10)) t)"

definition WriteLong :: "u64 \<Rightarrow> terminal \<Rightarrow> terminal" where
  "WriteLong val t = new_line (write_digits 79 val t)"

text \<open>The text of a string literal.\<close>

definition lit :: "string \<Rightarrow> u8 list" where
  "lit s = map (of_nat \<circ> of_char) s"

text \<open>
  \<^verbatim>\<open>CallPanic\<close> writes two lines and then halts for ever; the second component is the screen it
  leaves.
\<close>

definition CallPanic :: "string \<Rightarrow> terminal \<Rightarrow> fault \<times> terminal" where
  "CallPanic txt t = (Panic txt, WriteLine (lit ''KERNEL PANIC!'') (WriteLine (lit txt) t))"

record framebuffer =
  fb_buffer :: u64
  pixels :: "u64 \<Rightarrow> u32"

definition set_framebuffer :: "u64 \<Rightarrow> framebuffer \<Rightarrow> framebuffer" where
  "set_framebuffer address f = f\<lparr>fb_buffer := address\<rparr>"

definition draw_rect :: "framebuffer \<Rightarrow> framebuffer" where
  "draw_rect f =
     fold (\<lambda>i. fold (\<lambda>j f. f\<lparr>pixels := (pixels f)(fb_buffer f + 4 * of_nat (i * 1024 + j) := 0x33333333)\<rparr>) [0..<1024])
       [0..<768] f"

section \<open>Cells\<close>

text \<open>What the screen shows at place \<open>i\<close>, and all of the addresses outside the screen.\<close>

definition shown :: "terminal \<Rightarrow> nat \<Rightarrow> u16" where
  "shown t i = read_cell t (of_nat i)"

definition outside :: "terminal \<Rightarrow> u64 set" where
  "outside t = - (\<lambda>i. cell_at t (of_nat i)) ` {..<2000}"

lemma cell_at_eq: "i < 2000 \<Longrightarrow> j < 2000 \<Longrightarrow> cell_at t (of_nat i) = cell_at t (of_nat j) \<longleftrightarrow> i = j"
proof
  assume ij: "i < 2000" "j < 2000" and "cell_at t (of_nat i) = cell_at t (of_nat j)"
  then have "(of_nat (2 * i) :: u64) = of_nat (2 * j)" by (simp add: cell_at_def)
  then have "unat (of_nat (2 * i) :: u64) = unat (of_nat (2 * j) :: u64)" by (rule arg_cong)
  then show "i = j" using ij by (simp only: unat_of_nat) simp
qed simp

lemma write_cell_fields [simp]:
  "row (write_cell i v t) = row t" "column (write_cell i v t) = column t"
  "t_buffer (write_cell i v t) = t_buffer t"
  by (simp_all add: write_cell_def)

lemma shown_write_cell:
  "i < 2000 \<Longrightarrow> j < 2000 \<Longrightarrow> shown (write_cell (of_nat i) v t) j = (if j = i then v else shown t j)"
  using cell_at_eq [of j i t] by (simp add: shown_def read_cell_def write_cell_def cell_at_def)

lemma outside_write_cell:
  "i < 2000 \<Longrightarrow> a \<in> outside t \<Longrightarrow> cells (write_cell (of_nat i) v t) a = cells t a"
  by (auto simp: outside_def write_cell_def)

text \<open>A loop over consecutive cells, each computed from the state at its turn.\<close>

lemma fill_loop:
  fixes v :: u16 and t :: terminal
  assumes "a + n \<le> 2000"
  defines "t' \<equiv> fold (\<lambda>i. write_cell (of_nat (a + i)) v) [0..<n] t"
  shows "row t' = row t \<and> column t' = column t \<and> t_buffer t' = t_buffer t \<and>
    (\<forall>j<2000. shown t' j = (if a \<le> j \<and> j < a + n then v else shown t j)) \<and>
    (\<forall>p\<in>outside t. cells t' p = cells t p)"
  using assms(1) unfolding t'_def
proof (induction n)
  case 0
  then show ?case by auto
next
  case (Suc n)
  let ?u = "fold (\<lambda>i. write_cell (of_nat (a + i)) v) [0..<n] t"
  have "outside ?u = outside t" using Suc by (simp add: outside_def cell_at_def)
  then show ?case
    using Suc shown_write_cell [of "a + n" _ v ?u] outside_write_cell [of "a + n" _ ?u v]
    by (auto simp del: of_nat_add)
qed

lemma move_loop:
  fixes t :: terminal
  assumes "n \<le> 1920"
  defines "t' \<equiv> fold (\<lambda>i t. write_cell (of_nat i) (read_cell t (of_nat (i + 80))) t) [0..<n] t"
  shows "row t' = row t \<and> column t' = column t \<and> t_buffer t' = t_buffer t \<and>
    (\<forall>j<2000. shown t' j = (if j < n then shown t (j + 80) else shown t j)) \<and>
    (\<forall>p\<in>outside t. cells t' p = cells t p)"
  using assms(1) unfolding t'_def
proof (induction n)
  case 0
  then show ?case by simp
next
  case (Suc n)
  let ?u = "fold (\<lambda>i t. write_cell (of_nat i) (read_cell t (of_nat (i + 80))) t) [0..<n] t"
  have "outside ?u = outside t" using Suc by (simp add: outside_def cell_at_def)
  moreover have "read_cell ?u (of_nat (n + 80)) = shown t (n + 80)"
    using Suc by (auto simp: shown_def simp del: of_nat_add)
  ultimately show ?case
    using Suc shown_write_cell [of n _ _ ?u] outside_write_cell [of n _ ?u]
    by (auto simp del: of_nat_add)
qed

lemma line_move_up_spec:
  "row (line_move_up t) = row t \<and> column (line_move_up t) = column t \<and> t_buffer (line_move_up t) = t_buffer t \<and>
   (\<forall>j<2000. shown (line_move_up t) j = (if j < 1920 then shown t (j + 80) else blank)) \<and>
   (\<forall>p\<in>outside t. cells (line_move_up t) p = cells t p)"
proof -
  define u where "u = fold (\<lambda>i t. write_cell (of_nat i) (read_cell t (of_nat (i + 80))) t) [0..<1920] t"
  note m = move_loop [of 1920 t, folded u_def]
  have l: "line_move_up t = fold (\<lambda>i. write_cell (of_nat (1920 + i)) blank) [0..<80] u"
    by (simp add: line_move_up_def u_def Let_def)
  have "outside u = outside t" using m by (simp add: outside_def cell_at_def)
  then show ?thesis using m fill_loop [of 1920 80 blank u] unfolding l by auto
qed

section \<open>The cursor\<close>

definition cursor_ok :: "terminal \<Rightarrow> bool" where
  "cursor_ok t \<longleftrightarrow> unat (row t) < 25 \<and> unat (column t) < 80"

text \<open>Two screens with the same buffer that agree outside of it.\<close>

definition same_outside :: "terminal \<Rightarrow> terminal \<Rightarrow> bool" where
  "same_outside t t' \<longleftrightarrow> t_buffer t' = t_buffer t \<and> (\<forall>p\<in>outside t. cells t' p = cells t p)"

lemma same_outside_refl [simp]: "same_outside t t"
  by (simp add: same_outside_def)

lemma same_outside_trans: "same_outside t u \<Longrightarrow> same_outside u v \<Longrightarrow> same_outside t v"
  by (auto simp: same_outside_def outside_def cell_at_def)

lemma same_outside_cursor [simp]:
  "same_outside t (u\<lparr>row := r\<rparr>) = same_outside t u" "same_outside t (u\<lparr>column := c\<rparr>) = same_outside t u"
  "same_outside (t\<lparr>row := r\<rparr>) u = same_outside t u" "same_outside (t\<lparr>column := c\<rparr>) u = same_outside t u"
  by (simp_all add: same_outside_def outside_def cell_at_def)

lemma shown_cursor [simp]: "shown (t\<lparr>row := r\<rparr>) = shown t" "shown (t\<lparr>column := c\<rparr>) = shown t"
  by (simp_all add: fun_eq_iff shown_def read_cell_def cell_at_def)

lemma new_line_spec:
  assumes "cursor_ok t"
  shows "cursor_ok (new_line t)" and "column (new_line t) = 0" and "same_outside t (new_line t)"
    and "row (new_line t) = (if row t = 24 then 24 else row t + 1)"
    and "j < 2000 \<Longrightarrow> shown (new_line t) j =
      (if row t \<noteq> 24 then shown t j else if j < 1920 then shown t (j + 80) else blank)"
proof -
  have r: "unat (row t) < 25" using assms by (simp add: cursor_ok_def)
  have "row t + 1 = 25 \<longleftrightarrow> row t = 24" by (metis add_right_imp_eq numeral_plus_one semiring_norm(4) semiring_norm(5) one_plus_numeral_commute add_diff_cancel_right')
  then have n: "new_line t = (if row t = 24 then line_move_up (t\<lparr>column := 0, row := 24\<rparr>) else t\<lparr>row := row t + 1, column := 0\<rparr>)"
    by (simp add: new_line_def Let_def)
  note m = line_move_up_spec [of "t\<lparr>column := 0, row := 24\<rparr>"]
  have "row t \<noteq> 24 \<Longrightarrow> unat (row t + 1) < 25"
    using r by (subst unat_plus_one) (auto simp: word_unat_eq_iff)
  then show "cursor_ok (new_line t)" using m by (simp add: n cursor_ok_def)
  show "column (new_line t) = 0" "row (new_line t) = (if row t = 24 then 24 else row t + 1)"
    using m by (simp_all add: n)
  show "same_outside t (new_line t)"
    using m by (simp add: n same_outside_def outside_def cell_at_def)
  show "shown (new_line t) j = (if row t \<noteq> 24 then shown t j else if j < 1920 then shown t (j + 80) else blank)"
    if "j < 2000" using m that by (simp add: n)
qed

lemma cursor_place:
  assumes "cursor_ok t"
  shows "row t * 80 + column t = of_nat (80 * unat (row t) + unat (column t))"
    and "80 * unat (row t) + unat (column t) < 2000"
  using assms by (simp_all add: cursor_ok_def)

lemma add_char_step:
  fixes ch :: u8 and t :: terminal
  assumes ok: "cursor_ok t" and c: "unat (column t) < 79"
  defines "u \<equiv> add_char ch t"
  shows "row u = row t" and "column u = column t + 1" and "cursor_ok u" and "same_outside t u"
    and "j < 2000 \<Longrightarrow> shown u j = (if j = 80 * unat (row t) + unat (column t) then glyph ch else shown t j)"
proof -
  let ?p = "80 * unat (row t) + unat (column t)"
  have uc: "unat (column t + 1) = unat (column t) + 1" using c by (intro unat_plus_one) simp
  then have "column t + 1 \<noteq> 80" using c by auto
  then have u: "u = (write_cell (of_nat ?p) (glyph ch) t)\<lparr>column := column t + 1\<rparr>"
    by (simp add: u_def add_char_def Let_def cursor_place(1) [OF ok])
  show "row u = row t" "column u = column t + 1" by (simp_all add: u)
  show "cursor_ok u" using ok c uc by (simp add: u cursor_ok_def)
  show "same_outside t u"
    using outside_write_cell [OF cursor_place(2) [OF ok], of _ t "glyph ch"] by (simp add: u same_outside_def)
  show "shown u j = (if j = ?p then glyph ch else shown t j)" if "j < 2000"
    using shown_write_cell [OF cursor_place(2) [OF ok] that, of "glyph ch" t] by (simp add: u)
qed

lemma add_char_safe:
  assumes ok: "cursor_ok t"
  shows "cursor_ok (add_char ch t) \<and> same_outside t (add_char ch t)"
proof (cases "unat (column t) < 79")
  case True
  then show ?thesis using add_char_step [OF ok] by simp
next
  case False
  then have c: "unat (column t) = 79" using ok by (simp add: cursor_ok_def)
  then have c': "column t = 79" by (simp add: word_unat_eq_iff)
  define w where "w = write_cell (row t * 80 + column t) (glyph ch) t"
  have out: "same_outside t w"
    using outside_write_cell [OF cursor_place(2) [OF ok], of _ t "glyph ch"]
    by (simp add: w_def same_outside_def cursor_place(1) [OF ok])
  have a: "add_char ch t = new_line (w\<lparr>column := 80\<rparr>)"
    by (simp add: add_char_def Let_def w_def c')
  have "new_line (w\<lparr>column := 80\<rparr>) = new_line (w\<lparr>column := 0\<rparr>)" by (simp add: new_line_def)
  moreover have "cursor_ok (w\<lparr>column := 0\<rparr>)" using ok by (simp add: cursor_ok_def w_def)
  ultimately show ?thesis
    using new_line_spec(1,3) [of "w\<lparr>column := 0\<rparr>"] a out same_outside_trans by auto
qed

lemma add_chars_safe:
  "cursor_ok t \<Longrightarrow> cursor_ok (fold add_char cs t) \<and> same_outside t (fold add_char cs t)"
proof (induction cs arbitrary: t)
  case (Cons ch cs)
  then show ?case using add_char_safe [of t ch] same_outside_trans by fastforce
qed simp

lemma digit_char: "ucast (48 + val mod 10 :: u64) = (of_nat (48 + unat val mod 10) :: u8)"
proof -
  have "unat (val mod 10) = unat val mod 10" by (simp add: unat_mod)
  moreover have "unat val mod 10 < 10" by simp
  ultimately have "unat (48 + val mod 10) = 48 + unat val mod 10"
    using unat_add_lem [of 48 "val mod 10"] by auto
  then show ?thesis by (metis of_nat_unat)
qed

lemma write_digits_chars:
  "write_digits n val t = fold add_char (map (\<lambda>i. of_nat (48 + unat val div 10 ^ i mod 10)) [0..<n]) t"
proof (induction n arbitrary: val t)
  case (Suc n)
  have "[0..<Suc n] = 0 # map Suc [0..<n]" by (simp add: upt_conv_Cons map_Suc_upt del: upt_Suc)
  then show ?case
    using Suc by (simp add: digit_char unat_div div_mult2_eq o_def del: upt_Suc)
qed simp

lemma add_chars_line:
  assumes "cursor_ok t" and "unat (column t) + length cs < 80"
  shows "row (fold add_char cs t) = row t" and "cursor_ok (fold add_char cs t)"
    and "j < 2000 \<Longrightarrow> shown (fold add_char cs t) j =
      (let p = 80 * unat (row t) + unat (column t)
       in if p \<le> j \<and> j < p + length cs then glyph (cs ! (j - p)) else shown t j)"
proof -
  have "row (fold add_char cs t) = row t \<and> cursor_ok (fold add_char cs t) \<and>
    (\<forall>j<2000. shown (fold add_char cs t) j =
      (let p = 80 * unat (row t) + unat (column t)
       in if p \<le> j \<and> j < p + length cs then glyph (cs ! (j - p)) else shown t j))"
    using assms
  proof (induction cs arbitrary: t)
    case Nil
    then show ?case by (auto simp: Let_def)
  next
    case (Cons ch cs)
    let ?u = "add_char ch t"
    have c: "unat (column t) < 79" using Cons.prems(2) by simp
    note st = add_char_step [where ch = ch, OF Cons.prems(1) c]
    have uc: "unat (column ?u) = Suc (unat (column t))"
      unfolding st(2) using c by (subst unat_plus_one) auto
    have IH: "row (fold add_char cs ?u) = row ?u" "cursor_ok (fold add_char cs ?u)"
      "\<forall>j<2000. shown (fold add_char cs ?u) j =
      (let p = 80 * unat (row ?u) + unat (column ?u)
       in if p \<le> j \<and> j < p + length cs then glyph (cs ! (j - p)) else shown ?u j)"
      using Cons.IH [OF st(3)] Cons.prems(2) uc by auto
    then show ?case using st uc by (auto simp: Let_def nth_Cons')
  qed
  then show "row (fold add_char cs t) = row t" "cursor_ok (fold add_char cs t)"
    "j < 2000 \<Longrightarrow> shown (fold add_char cs t) j =
      (let p = 80 * unat (row t) + unat (column t)
       in if p \<le> j \<and> j < p + length cs then glyph (cs ! (j - p)) else shown t j)" by blast+
qed

section \<open>Properties\<close>

text \<open>
  C32. Whatever is printed with \<^verbatim>\<open>WriteLine\<close> or \<^verbatim>\<open>WriteLong\<close>, the cursor stays within 25
  rows and 80 columns and only the 2000 cells of the screen are written.
\<close>

theorem terminal_stays_in_screen:
  assumes "cursor_ok t"
  shows "cursor_ok (WriteLine cs t) \<and> same_outside t (WriteLine cs t) \<and>
    cursor_ok (WriteLong val t) \<and> same_outside t (WriteLong val t)"
  using add_chars_safe [OF assms] new_line_spec(1,3) same_outside_trans
  unfolding WriteLine_def WriteLong_def write_digits_chars by blast

definition start_screen :: terminal where
  "start_screen = \<lparr>row = 0, column = 0, t_buffer = 0xb8000, cells = (\<lambda>_. 0)\<rparr>"

theorem terminal_stays_in_screen_witness:
  "cursor_ok (WriteLine (lit ''[MEMORY] OK!'') start_screen)"
  using terminal_stays_in_screen [of start_screen] by (simp add: cursor_ok_def start_screen_def)

text \<open>
  A text of less than 80 characters printed at the start of a row appears on that row, and
  the cursor goes to the next row; on the last row everything moves up by one row instead and
  the last row is blank.
\<close>

lemma WriteLine_row:
  assumes "cursor_ok t" and "column t = 0" and "length cs < 80"
  defines "r \<equiv> unat (row t)"
    and "lined \<equiv> \<lambda>k. if 80 * unat (row t) \<le> k \<and> k < 80 * unat (row t) + length cs
      then glyph (cs ! (k - 80 * unat (row t))) else shown t k"
  shows "j < 2000 \<Longrightarrow> shown (WriteLine cs t) j = (if r < 24 then lined j else if j < 1920 then lined (j + 80) else blank)"
    and "row (WriteLine cs t) = (if r < 24 then row t + 1 else 24)" and "column (WriteLine cs t) = 0"
proof -
  have "unat (column t) + length cs < 80" using assms(2,3) by simp
  note line = add_chars_line [OF assms(1) this]
  have r: "row t = 24 \<longleftrightarrow> \<not> r < 24"
    using assms(1) by (auto simp: r_def cursor_ok_def word_unat_eq_iff)
  have "shown (fold add_char cs t) k = lined k" if "k < 2000" for k
    using line(3) [OF that] assms(2) by (simp add: lined_def Let_def)
  then show "j < 2000 \<Longrightarrow> shown (WriteLine cs t) j = (if r < 24 then lined j else if j < 1920 then lined (j + 80) else blank)"
    using new_line_spec(5) [OF line(2), of j] line(1) r by (auto simp: WriteLine_def)
  show "row (WriteLine cs t) = (if r < 24 then row t + 1 else 24)" "column (WriteLine cs t) = 0"
    using new_line_spec(2,4) [OF line(2)] line(1) r by (auto simp: WriteLine_def)
qed

lemma WriteLine_safe: "cursor_ok t \<Longrightarrow> cursor_ok (WriteLine cs t)"
  using add_chars_safe new_line_spec(1) unfolding WriteLine_def by blast

text \<open>
  \<^verbatim>\<open>WriteLong\<close> prints 79 digits with the least significant digit first: column \<open>i\<close> has the
  digit of weight \<open>10 ^ i\<close>.
\<close>

theorem writelong_reverses_digits:
  assumes "cursor_ok t" and "column t = 0" and "unat (row t) < 24" and "i < 79"
  shows "shown (WriteLong val t) (80 * unat (row t) + i) = glyph (of_nat (48 + unat val div 10 ^ i mod 10))"
proof -
  let ?cs = "map (\<lambda>i. of_nat (48 + unat val div 10 ^ i mod 10)) [0..<79] :: u8 list"
  have "WriteLong val t = WriteLine ?cs t" by (simp only: WriteLong_def WriteLine_def write_digits_chars)
  moreover have "80 * unat (row t) + i < 2000" using assms(3,4) by simp
  moreover have "unat (column t) + length ?cs < 80" using assms(2) by simp
  note line = add_chars_line [OF assms(1) this]
  have "row t \<noteq> 24" using assms(3) by auto
  ultimately show ?thesis
    using line(3) [of "80 * unat (row t) + i"] new_line_spec(5) [OF line(2)] line(1) assms(2,4)
    by (simp add: WriteLine_def Let_def del: upt_Suc)
qed

theorem writelong_reverses_digits_witness: "shown (WriteLong 12 start_screen) 0 = glyph 50"
  using writelong_reverses_digits [of start_screen 0 12] by (simp add: start_screen_def cursor_ok_def)

end
