(* ===== verification/Paging.thy ===== *)
theory Paging
  imports Page_Frames Page_Tables Process_Types Terminal
begin

text \<open>
  Virtual memory: \<^verbatim>\<open>Kernel/arch/x86_64/paging.c\<close> and the page allocator of
  \<^verbatim>\<open>Kernel/src/mm/malloc.c\<close>.  \<^verbatim>\<open>AllocatePages\<close>, \<^verbatim>\<open>MapVirtualAddress\<close> and
  \<^verbatim>\<open>VM_AllocatePages\<close> call each other, so the last two take the allocator as an argument and
  \<^verbatim>\<open>AllocatePages\<close> closes the recursion with fuel that counts the nesting.  The marks of used
  virtual pages live in the same word memory as the list nodes of the page frames; page tables
  are reached through their virtual addresses.
\<close>

section \<open>State\<close>

text \<open>Addresses the linker chooses for the static objects.\<close>

record link_map =
  kernelPages_at :: u64
  kernelPdpts_at :: u64
  kernelPageDirs_at :: u64
  kernelPageTables_at :: u64
  kernelPageMarks_at :: u64
  g_kernelProcess_at :: u64
  KERNEL_START_ADDR :: u64
  KERNEL_END_ADDR :: u64
  PageFaultHandler_at :: u64

record vm_state = pm_state +
  kernelPages :: "nat \<Rightarrow> pml4_entry"
  kernelPdpts :: "nat \<Rightarrow> pdpt_entry"
  kernelPageDirs :: "nat \<Rightarrow> nat \<Rightarrow> pd_entry"
  kernelPageTablePointers :: "nat \<Rightarrow> nat \<Rightarrow> u64"
  page_tables :: "u64 \<Rightarrow> nat \<Rightarrow> page_t"
  procs :: "u64 \<rightharpoonup> process"
  g_currentProcess :: "nat \<Rightarrow> u64"
  core_id :: nat
  irq_on :: bool
  cr3 :: u64
  intr_handler :: "nat \<Rightarrow> u64"
  tty :: terminal
  links :: link_map

definition KERNEL_ADDR_SPACE :: u64 where "KERNEL_ADDR_SPACE = 0xFFFFFF8000000000"
definition KERNEL_VIRTUAL_PAGES :: u64 where "KERNEL_VIRTUAL_PAGES = 0xFFFFFF9000000000"
definition KERNEL_FRAMEBUFFER_BASE :: u64 where "KERNEL_FRAMEBUFFER_BASE = 0xFFFFFF9200000000"
definition KERNEL_LOW_4GB :: u64 where "KERNEL_LOW_4GB = 0xFFFFFF9300000000"
definition KERNEL_IO_VIRTUAL_BASE :: u64 where "KERNEL_IO_VIRTUAL_BASE = 0xFFFFFF9300000000"
definition KERNEL_VIRTUAL_BASE :: u64 where "KERNEL_VIRTUAL_BASE = 0xFFFFFFFF80000000"

lemmas address_consts [layout_simps] =
  KERNEL_ADDR_SPACE_def KERNEL_LOW_4GB_def KERNEL_IO_VIRTUAL_BASE_def KERNEL_VIRTUAL_BASE_def

definition PR_GetKernelProcess :: "'a vm_state_scheme \<Rightarrow> u64" where
  "PR_GetKernelProcess s = g_kernelProcess_at (links s)"

definition PR_GetCurrentProcess :: "'a vm_state_scheme \<Rightarrow> u64" where
  "PR_GetCurrentProcess s = g_currentProcess s (core_id s)"

definition load_proc :: "u64 \<Rightarrow> 'a vm_state_scheme \<Rightarrow> process res" where
  "load_proc p s =
     (if p = 0 then Inl NullDeref
      else case procs s p of None \<Rightarrow> Inl (PageFault p) | Some q \<Rightarrow> Inr q)"

definition store_proc :: "u64 \<Rightarrow> process \<Rightarrow> 'a vm_state_scheme \<Rightarrow> 'a vm_state_scheme" where
  "store_proc p q s = s\<lparr>procs := (procs s)(p \<mapsto> q)\<rparr>"

text \<open>An element of an array of 64-bit words behind a pointer.\<close>

definition elem_at :: "u64 \<Rightarrow> u64 \<Rightarrow> u64 res" where
  "elem_at base i =
     (if base = 0 then Inl NullDeref
      else let a = base + 8 * i in if a AND 7 \<noteq> 0 then Inl (Misaligned a) else Inr a)"

text \<open>
  The value of \<^verbatim>\<open>1 << b\<close> as an operand of 64 bits: the shift is one of type \<^verbatim>\<open>int\<close>, so bit 31 is
  the sign bit and is extended, and larger counts are not defined.
\<close>

definition int_bit :: "nat \<Rightarrow> u64 res" where
  "int_bit b = (if b < 32 then Inr (scast (push_bit b (1 :: u32))) else Inl UndefinedShift)"

definition say :: "string \<Rightarrow> 'a vm_state_scheme \<Rightarrow> 'a vm_state_scheme" where
  "say msg s = s\<lparr>tty := WriteLine (lit msg) (tty s)\<rparr>"

text \<open>The instruction \<^verbatim>\<open>hlt\<close>: the program goes on when an interrupt can arrive.\<close>

definition hlt :: "'a vm_state_scheme \<Rightarrow> 'a vm_state_scheme res" where
  "hlt s = (if irq_on s then Inr s else Inl CpuHalt)"

section \<open>Page tables\<close>

text \<open>A pointer to a page table entry: the table and the index, or NULL.\<close>

definition VM_GetPage :: "u64 \<Rightarrow> u64 \<Rightarrow> 'a vm_state_scheme \<Rightarrow> (u64 \<times> nat) option" where
  "VM_GetPage pmap addr s =
     (if PML4_GET_INDEX addr = PDPTS_PER_PML4 - 1
      then let pageTableEntry = kernelPageTablePointers s (PDPT_GET_INDEX addr) (PDIR_GET_INDEX addr)
           in if pageTableEntry \<noteq> 0 then Some (pageTableEntry, PAGE_GET_INDEX addr) else None
      else None)"

text \<open>
  The member \<^verbatim>\<open>addr\<close> is a bit field of 36 bits; the compiler multiplies in that width.
\<close>

definition ConvertVirtToPhys :: "u64 \<Rightarrow> u64 \<Rightarrow> 'a vm_state_scheme \<Rightarrow> u64" where
  "ConvertVirtToPhys pmap addr s =
     (if PML4_GET_INDEX addr = PDPTS_PER_PML4 - 1
      then let pageTable = kernelPageTablePointers s (PDPT_GET_INDEX addr) (PDIR_GET_INDEX addr)
           in if pageTable \<noteq> 0
              then ucast (pg_addr (page_tables s pageTable (PAGE_GET_INDEX addr)) * 4096) + (addr AND 0xFFF)
              else addr
      else addr)"

text \<open>Outside of the kernel's address space the function ends without a value.\<close>

definition IsPagePresent :: "u64 \<Rightarrow> u64 \<Rightarrow> 'a vm_state_scheme \<Rightarrow> bool res" where
  "IsPagePresent pmap addr s =
     (if PML4_GET_INDEX addr = PDPTS_PER_PML4 - 1
      then Inr (case VM_GetPage pmap addr s of
                  None \<Rightarrow> False
                | Some (t, i) \<Rightarrow> pg_present (page_tables s t i))
      else Inl MissingReturn)"

definition VM_GetIOMapping :: "u64 \<Rightarrow> 'a vm_state_scheme \<Rightarrow> u64 \<times> 'a vm_state_scheme" where
  "VM_GetIOMapping address s =
     (if address > 0xFFFFFFFF
      then let s1 = say ''[WARN] Access IO address greater than 0xFFFFFFFF.'' s
           in (0xFFFFFFFF, s1\<lparr>tty := WriteLong address (tty s1)\<rparr>)
      else (address + KERNEL_IO_VIRTUAL_BASE, s))"

definition VM_GetKernelPages :: "'a vm_state_scheme \<Rightarrow> u64" where
  "VM_GetKernelPages s = kernelPages_at (links s)"

definition VM_SwitchPageTable :: "u64 \<Rightarrow> 'a vm_state_scheme \<Rightarrow> 'a vm_state_scheme" where
  "VM_SwitchPageTable pmap s = s\<lparr>cr3 := ConvertVirtToPhys (VM_GetKernelPages s) pmap s\<rparr>"

definition VM_CurrentPages :: "'a vm_state_scheme \<Rightarrow> u64" where
  "VM_CurrentPages s = cr3 s"

definition set_page :: "u64 \<Rightarrow> nat \<Rightarrow> page_t \<Rightarrow> 'a vm_state_scheme \<Rightarrow> 'a vm_state_scheme" where
  "set_page t i e s = s\<lparr>page_tables := (page_tables s)(t := (page_tables s t)(i := e))\<rparr>"

definition set_dir :: "nat \<Rightarrow> nat \<Rightarrow> pd_entry \<Rightarrow> 'a vm_state_scheme \<Rightarrow> 'a vm_state_scheme" where
  "set_dir p d e s = s\<lparr>kernelPageDirs := (kernelPageDirs s)(p := (kernelPageDirs s p)(d := e))\<rparr>"

definition set_table_pointer :: "nat \<Rightarrow> nat \<Rightarrow> u64 \<Rightarrow> 'a vm_state_scheme \<Rightarrow> 'a vm_state_scheme" where
  "set_table_pointer p d t s =
     s\<lparr>kernelPageTablePointers := (kernelPageTablePointers s)(p := (kernelPageTablePointers s p)(d := t))\<rparr>"

text \<open>The entry that \<^verbatim>\<open>MapVirtualAddress\<close> writes over an old one.\<close>

definition mapped_entry :: "u64 \<Rightarrow> u64 \<Rightarrow> page_t \<Rightarrow> page_t" where
  "mapped_entry phys flags e =
     e\<lparr>pg_present := True, pg_writable := (flags AND PAGE_FLAG_WRITABLE \<noteq> 0),
       pg_usr := (flags AND PAGE_FLAG_USER \<noteq> 0), pg_addr := ucast (phys div ARCH_PAGE_SIZE)\<rparr>"

text \<open>
  The page table for an address without one: a directory entry that is not present gets a new
  table; the old pointer is used for an entry that is present.
\<close>

definition table_for ::
  "(u64 \<Rightarrow> u64 \<Rightarrow> 'a vm_state_scheme \<Rightarrow> (u64 \<times> 'a vm_state_scheme) res) \<Rightarrow>
   u64 \<Rightarrow> u64 \<Rightarrow> u64 \<Rightarrow> 'a vm_state_scheme \<Rightarrow> (u64 \<times> 'a vm_state_scheme) res" where
  "table_for alloc pmap virt flags s =
     (let p = PDPT_GET_INDEX virt; d = PDIR_GET_INDEX virt; e = kernelPageDirs s p d
      in if \<not> pd_present e
         then
           let s1 = set_dir p d (e\<lparr>pd_present := True, pd_writable := (flags AND PAGE_FLAG_WRITABLE \<noteq> 0),
                                   pd_usr := (flags AND PAGE_FLAG_USER \<noteq> 0)\<rparr>) s
           in bind_res (alloc (PR_GetKernelProcess s1) 1 s1) (\<lambda>(pageTable, s2).
              let pageTablePhys = ConvertVirtToPhys pmap pageTable s2;
                  s3 = set_dir p d ((kernelPageDirs s2 p d)\<lparr>pd_addr := ucast (pageTablePhys div ARCH_PAGE_SIZE)\<rparr>) s2
              in Inr (pageTable, set_table_pointer p d pageTable s3))
         else Inr (kernelPageTablePointers s p d, s))"

definition map_one ::
  "(u64 \<Rightarrow> u64 \<Rightarrow> 'a vm_state_scheme \<Rightarrow> (u64 \<times> 'a vm_state_scheme) res) \<Rightarrow>
   u64 \<Rightarrow> u64 \<Rightarrow> u64 \<Rightarrow> u64 \<Rightarrow> 'a vm_state_scheme \<Rightarrow> 'a vm_state_scheme res" where
  "map_one alloc pmap phys virt flags s =
     (if PML4_GET_INDEX virt = PDPTS_PER_PML4 - 1
      then bind_res
             (case VM_GetPage pmap virt s of
                Some page \<Rightarrow> Inr (page, s)
              | None \<Rightarrow> bind_res (table_for alloc pmap virt flags s) (\<lambda>(t, s1). Inr ((t, PAGE_GET_INDEX virt), s1)))
             (\<lambda>((t, i), s1).
               if t = 0 then Inl NullDeref
               else Inr (set_page t i (mapped_entry phys flags (page_tables s1 t i)) s1))
      else hlt s)"

fun map_loop ::
  "(u64 \<Rightarrow> u64 \<Rightarrow> 'a vm_state_scheme \<Rightarrow> (u64 \<times> 'a vm_state_scheme) res) \<Rightarrow>
   u64 \<Rightarrow> u64 \<Rightarrow> u64 \<Rightarrow> nat \<Rightarrow> u64 \<Rightarrow> 'a vm_state_scheme \<Rightarrow> 'a vm_state_scheme res" where
  "map_loop alloc pmap phys virt 0 flags s = Inr s"
| "map_loop alloc pmap phys virt (Suc n) flags s =
     bind_res (map_one alloc pmap phys virt flags s)
       (map_loop alloc pmap (phys + ARCH_PAGE_SIZE) (virt + ARCH_PAGE_SIZE) n flags)"

definition MapVirtualAddress ::
  "(u64 \<Rightarrow> u64 \<Rightarrow> 'a vm_state_scheme \<Rightarrow> (u64 \<times> 'a vm_state_scheme) res) \<Rightarrow>
   u64 \<Rightarrow> u64 \<Rightarrow> u64 \<Rightarrow> u64 \<Rightarrow> u64 \<Rightarrow> 'a vm_state_scheme \<Rightarrow> 'a vm_state_scheme res" where
  "MapVirtualAddress alloc pmap phys virt amount flags s = map_loop alloc pmap phys virt (unat amount) flags s"

section \<open>Marks of used virtual pages\<close>

text \<open>
  Setting the mark of one page: both indexes are 16 bits wide, and the index into the array of
  marks is not reduced to the 512 marks one pointer stands for.
\<close>

definition set_mark :: "u64 \<Rightarrow> u64 \<Rightarrow> 'a vm_state_scheme \<Rightarrow> 'a vm_state_scheme res" where
  "set_mark process virt s =
     (let ptr_index = ucast (virt div 32768) :: u16;
          pageIndex = ucast (virt div 64) :: u16;
          bit_index = unat (virt mod 64)
      in bind_res (load_proc process s) (\<lambda>p.
         bind_res (elem_at (m_VirtuaPagesBitmap p) (ucast ptr_index)) (\<lambda>a.
         bind_res (elem_at (mem s a) (ucast pageIndex)) (\<lambda>b.
         bind_res (int_bit bit_index) (\<lambda>v.
         Inr (s\<lparr>mem := (mem s)(b := mem s b OR v)\<rparr>))))))"

fun mark_loop :: "nat \<Rightarrow> u64 \<Rightarrow> u64 \<Rightarrow> 'a vm_state_scheme \<Rightarrow> 'a vm_state_scheme res" where
  "mark_loop 0 process virt s = Inr s"
| "mark_loop (Suc n) process virt s =
     bind_res (set_mark process virt s) (mark_loop n process (virt + 1))"

definition VM_MarkPagesUsed :: "u64 \<Rightarrow> u64 \<Rightarrow> u64 \<Rightarrow> 'a vm_state_scheme \<Rightarrow> 'a vm_state_scheme res" where
  "VM_MarkPagesUsed process virt amount s =
     (let virt = (if process = PR_GetKernelProcess s then virt - KERNEL_VIRTUAL_BASE else virt)
      in bind_res (load_proc process s) (\<lambda>_. mark_loop (unat amount) process (virt div ARCH_PAGE_SIZE) s))"

text \<open>The source sets marks here too.\<close>

definition VM_MarkPagesFree :: "u64 \<Rightarrow> u64 \<Rightarrow> u64 \<Rightarrow> 'a vm_state_scheme \<Rightarrow> 'a vm_state_scheme res" where
  "VM_MarkPagesFree process virt amount s =
     (let virt = (if process = PR_GetKernelProcess s then virt - KERNEL_ADDR_SPACE else virt)
      in mark_loop (unat amount) process (virt div ARCH_PAGE_SIZE) s)"

definition VM_FreePages :: "u64 \<Rightarrow> u64 \<Rightarrow> u64 \<Rightarrow> 'a vm_state_scheme \<Rightarrow> 'a vm_state_scheme res" where
  "VM_FreePages process virt amount s = VM_MarkPagesFree process virt amount s"

text \<open>
  The search of \<^verbatim>\<open>VM_AllocatePages\<close>, one loop for the bits of a mark, one for the marks of a
  pointer and one for the pointers.  The variables \<^verbatim>\<open>virt\<close> and \<^verbatim>\<open>amount_left\<close> go through all
  three; the latter is set whenever the former is zero.
\<close>

datatype search = Found u64 | Searching u64 u64

fun scan_bits :: "nat \<Rightarrow> nat \<Rightarrow> u64 \<Rightarrow> u64 \<Rightarrow> u64 \<Rightarrow> u64 \<Rightarrow> u64 \<Rightarrow> u64 \<Rightarrow> search res" where
  "scan_bits 0 bit_index idx sub_index amount mark virt left = Inr (Searching virt left)"
| "scan_bits (Suc n) bit_index idx sub_index amount mark virt left =
     bind_res (int_bit bit_index) (\<lambda>b.
     if mark AND b = 0
     then
       let (virt, left) =
             (if virt = 0
              then ((idx * 32768 + sub_index * 64 + of_nat bit_index) * ARCH_PAGE_SIZE, amount)
              else (virt, left));
           left = left - 1
       in if left = 0 then Inr (Found virt)
          else scan_bits n (Suc bit_index) idx sub_index amount mark virt left
     else scan_bits n (Suc bit_index) idx sub_index amount mark 0 left)"

fun scan_marks :: "nat \<Rightarrow> u64 \<Rightarrow> u64 \<Rightarrow> u64 \<Rightarrow> u64 \<Rightarrow> u64 \<Rightarrow> u64 \<Rightarrow> 'a vm_state_scheme \<Rightarrow> search res" where
  "scan_marks 0 sub_index base idx amount virt left s = Inr (Searching virt left)"
| "scan_marks (Suc n) sub_index base idx amount virt left s =
     bind_res (elem_at base sub_index) (\<lambda>a.
     if mem s a = 0xffffffffffffffff
     then scan_marks n (sub_index + 1) base idx amount virt left s
     else
       bind_res (scan_bits 64 0 idx sub_index amount (mem s a) virt left) (\<lambda>r.
       case r of
         Found v \<Rightarrow> Inr (Found v)
       | Searching virt left \<Rightarrow> scan_marks n (sub_index + 1) base idx amount virt left s))"

fun scan_pointers ::
  "(u64 \<Rightarrow> u64 \<Rightarrow> 'a vm_state_scheme \<Rightarrow> (u64 \<times> 'a vm_state_scheme) res) \<Rightarrow>
   nat \<Rightarrow> u64 \<Rightarrow> u64 \<Rightarrow> u64 \<Rightarrow> u64 \<Rightarrow> u64 \<Rightarrow> 'a vm_state_scheme \<Rightarrow> (search \<times> 'a vm_state_scheme) res" where
  "scan_pointers alloc 0 idx marks amount virt left s = Inr (Searching virt left, s)"
| "scan_pointers alloc (Suc n) idx marks amount virt left s =
     bind_res (elem_at marks idx) (\<lambda>a.
     bind_res
       (if mem s a = 0
        then bind_res (alloc (PR_GetKernelProcess s) 1 s) (\<lambda>(virt_mark, s1).
             Inr (if virt_mark \<noteq> 0 then s1\<lparr>mem := (mem s1)(a := virt_mark)\<rparr> else s1))
        else Inr s) (\<lambda>s1.
     bind_res (scan_marks 512 0 (mem s1 a) idx amount virt left s1) (\<lambda>r.
     case r of
       Found v \<Rightarrow> Inr (Found v, s1)
     | Searching virt left \<Rightarrow> scan_pointers alloc n (idx + 1) marks amount virt left s1)))"

definition VM_AllocatePages ::
  "(u64 \<Rightarrow> u64 \<Rightarrow> 'a vm_state_scheme \<Rightarrow> (u64 \<times> 'a vm_state_scheme) res) \<Rightarrow>
   u64 \<Rightarrow> u64 \<Rightarrow> 'a vm_state_scheme \<Rightarrow> (u64 \<times> 'a vm_state_scheme) res" where
  "VM_AllocatePages alloc process amount s =
     (let process = (if process = 0 then PR_GetCurrentProcess s else process);
          is_kernel_space = (process = PR_GetKernelProcess s);
          space_limit = (if is_kernel_space then 16 else 16 * 256)
      in bind_res (load_proc process s) (\<lambda>p.
         bind_res (scan_pointers alloc space_limit 0 (m_VirtuaPagesBitmap p) amount 0 0 s) (\<lambda>(r, s1).
         case r of
           Found v \<Rightarrow>
             let virt = (if is_kernel_space then v + KERNEL_VIRTUAL_BASE else v)
             in bind_res (VM_MarkPagesUsed process virt amount s1) (\<lambda>s2. Inr (virt, s2))
         | Searching _ _ \<Rightarrow> Inr (0, s1))))"

section \<open>Allocation of mapped pages\<close>

text \<open>The counter \<^verbatim>\<open>m_PresentPages\<close> is not changed: the source adds to it without storing the sum.\<close>

fun AllocatePages :: "nat \<Rightarrow> u64 \<Rightarrow> u64 \<Rightarrow> 'a vm_state_scheme \<Rightarrow> (u64 \<times> 'a vm_state_scheme) res" where
  "AllocatePages 0 process amount s = Inl OutOfFuel"
| "AllocatePages (Suc fuel) process amount s =
     (let amount = page_size_align amount in
      bind_res (PM_AllocatePages (Suc fuel) (page_size_order amount) s) (\<lambda>(phys_page, s1).
      if phys_page = 0 then Inl (Panic ''Out Of Memory.'')
      else
        bind_res (load_frame phys_page s1) (\<lambda>f.
        let phys = pf_addr f in
        bind_res (VM_AllocatePages (AllocatePages fuel) process amount s1) (\<lambda>(virt, s2).
        let flags = PAGE_FLAG_PRESENT OR PAGE_FLAG_WRITABLE;
            flags = (if process = PR_GetKernelProcess s2 then flags OR PAGE_FLAG_USER else flags)
        in
        bind_res (load_proc process s2) (\<lambda>p.
        bind_res (MapVirtualAddress (AllocatePages fuel) (m_Pagemap p) phys virt amount flags s2) (\<lambda>s3.
        bind_res (load_proc process s3) (\<lambda>q.
        Inr (virt, store_proc process
               (q\<lparr>m_MemoryAllocated := m_MemoryAllocated q + amount * ARCH_PAGE_SIZE,
                 m_Pages := m_Pages q + ucast amount\<rparr>) s3))))))))"

section \<open>Initialisation\<close>

definition table_number :: "u64 \<Rightarrow> 36 word" where
  "table_number a = ucast ((a - KERNEL_VIRTUAL_BASE) div ARCH_PAGE_SIZE)"

text \<open>The static tables of the kernel's address space.\<close>

definition link_tables :: "'a vm_state_scheme \<Rightarrow> 'a vm_state_scheme" where
  "link_tables s =
     (let L = links s;
          k = PDPT_GET_INDEX KERNEL_VIRTUAL_BASE;
          e = kernelPages s (PDPTS_PER_PML4 - 1);
          s1 = s\<lparr>kernelPages := (kernelPages s)(PDPTS_PER_PML4 - 1 :=
                 e\<lparr>pml4_present := True, pml4_writable := True, pml4_usr := False,
                   pml4_addr := table_number (kernelPdpts_at L)\<rparr>)\<rparr>;
          s2 = fold (\<lambda>i s. s\<lparr>kernelPdpts := (kernelPdpts s)(i :=
                 (kernelPdpts s i)\<lparr>pdpt_present := True, pdpt_writable := True, pdpt_usr := False,
                   pdpt_addr := table_number (kernelPageDirs_at L + 4096 * of_nat i)\<rparr>)\<rparr>)
               [0..<DIRS_PER_PDPT] s1
      in fold (\<lambda>i s.
           let pageTable = kernelPageTables_at L + 4096 * of_nat i
           in set_table_pointer k i pageTable
                (set_dir k i ((kernelPageDirs s k i)\<lparr>pd_present := True, pd_writable := True, pd_usr := False,
                   pd_addr := table_number pageTable\<rparr>) s))
           [0..<TABLES_PER_DIR] s2)"

text \<open>The array of pointers to the marks is put where the marks are.\<close>

definition link_marks :: "'a vm_state_scheme \<Rightarrow> 'a vm_state_scheme res" where
  "link_marks s =
     bind_res (load_proc (PR_GetKernelProcess s) s) (\<lambda>p.
     let base = kernelPageMarks_at (links s);
         s1 = store_proc (PR_GetKernelProcess s)
                (p\<lparr>m_Pagemap := kernelPages_at (links s), m_VirtuaPagesBitmap := base\<rparr>) s
     in Inr (fold (\<lambda>i s. s\<lparr>mem := (mem s)(base + 8 * of_nat i := base + 8 * (of_nat i * 512))\<rparr>) [0..<16] s1))"

definition RegisterInterruptHandler :: "nat \<Rightarrow> u64 \<Rightarrow> 'a vm_state_scheme \<Rightarrow> 'a vm_state_scheme res" where
  "RegisterInterruptHandler num func s =
     bind_res (check_index 256 num) (\<lambda>_. Inr (s\<lparr>intr_handler := (intr_handler s)(num := func)\<rparr>))"

definition LoadVirtualMemory :: "nat \<Rightarrow> 'a vm_state_scheme \<Rightarrow> 'a vm_state_scheme res" where
  "LoadVirtualMemory fuel s =
     bind_res (link_marks (link_tables s)) (\<lambda>s1.
     let L = links s1;
         kproc = PR_GetKernelProcess s1;
         kernel_address = ALIGN_DOWN (KERNEL_START_ADDR L) ARCH_PAGE_SIZE;
         kernel_page_amount = (ALIGN_UP (KERNEL_END_ADDR L) ARCH_PAGE_SIZE - kernel_address) div ARCH_PAGE_SIZE
     in
     bind_res (MapVirtualAddress (AllocatePages fuel) (kernelPages_at L) (kernel_address - KERNEL_VIRTUAL_BASE)
                 kernel_address kernel_page_amount (PAGE_FLAG_PRESENT OR PAGE_FLAG_WRITABLE) s1) (\<lambda>s2.
     bind_res (VM_MarkPagesUsed kproc KERNEL_VIRTUAL_BASE
                 ((kernel_address - KERNEL_VIRTUAL_BASE) div ARCH_PAGE_SIZE) s2) (\<lambda>s3.
     bind_res (VM_MarkPagesUsed kproc kernel_address kernel_page_amount s3) (\<lambda>s4.
     RegisterInterruptHandler 14 (PageFaultHandler_at L) s4))))"

definition Interrupts_PageFaultHandler :: "'a vm_state_scheme \<Rightarrow> 'a vm_state_scheme res" where
  "Interrupts_PageFaultHandler s = hlt (say ''[ERR] Page Fault'' s)"

text \<open>The two functions for the page maps of other processes have empty bodies.\<close>

definition VM_CreatePagemap :: "u64 res" where
  "VM_CreatePagemap = Inl MissingReturn"

definition VM_DestroyPagemap :: "'a vm_state_scheme \<Rightarrow> 'a vm_state_scheme" where
  "VM_DestroyPagemap s = s"

end
