(* ===== verification/Paging_Laws.thy ===== *)
theory Paging_Laws
  imports Paging
begin

text \<open>
  What mapping guarantees: mapping and translation agree, pages outside the mapped range keep their
  translation, and nothing outside of the kernel's 512 GiB is ever mapped.
\<close>

section \<open>Mapping and translating\<close>

definition table_of :: "'a vm_state_scheme \<Rightarrow> u64 \<Rightarrow> u64" where
  "table_of s a = kernelPageTablePointers s (PDPT_GET_INDEX a) (PDIR_GET_INDEX a)"

definition entry_of :: "'a vm_state_scheme \<Rightarrow> u64 \<Rightarrow> page_t" where
  "entry_of s a = page_tables s (table_of s a) (PAGE_GET_INDEX a)"

definition vpn :: "u64 \<Rightarrow> nat" where "vpn a = unat a div 4096"

text \<open>No page table serves two directory entries.\<close>

definition distinct_tables :: "'a vm_state_scheme \<Rightarrow> bool" where
  "distinct_tables s \<longleftrightarrow> (\<forall>p d p' d'. kernelPageTablePointers s p d = kernelPageTablePointers s p' d' \<longrightarrow>
     kernelPageTablePointers s p d \<noteq> 0 \<longrightarrow> p = p' \<and> d = d')"

lemma set_page_tables [simp]:
  "kernelPageTablePointers (set_page t i e s) = kernelPageTablePointers s"
  "table_of (set_page t i e s) = table_of s"
  "distinct_tables (set_page t i e s) = distinct_tables s"
  by (simp_all add: set_page_def table_of_def distinct_tables_def fun_eq_iff)

lemma map_one_existing:
  "kernel_addr virt \<Longrightarrow> table_of s virt \<noteq> 0 \<Longrightarrow>
   map_one alloc pmap phys virt flags s =
     Inr (set_page (table_of s virt) (PAGE_GET_INDEX virt) (mapped_entry phys flags (entry_of s virt)) s)"
  by (simp add: map_one_def VM_GetPage_def kernel_addr_index layout_simps table_of_def entry_of_def Let_def)

lemma vpn_indexes:
  assumes "vpn b = vpn a"
  shows "PDPT_GET_INDEX b = PDPT_GET_INDEX a" and "PDIR_GET_INDEX b = PDIR_GET_INDEX a"
    and "PAGE_GET_INDEX b = PAGE_GET_INDEX a"
proof -
  have "unat x div 2 ^ 30 = unat x div 4096 div 2 ^ 18" "unat x div 2 ^ 21 = unat x div 4096 div 2 ^ 9"
    "unat x div 2 ^ 12 = unat x div 4096" for x :: u64
    by (simp_all flip: div_mult2_eq)
  then show "PDPT_GET_INDEX b = PDPT_GET_INDEX a" "PDIR_GET_INDEX b = PDIR_GET_INDEX a"
    "PAGE_GET_INDEX b = PAGE_GET_INDEX a"
    using assms by (simp_all add: index_unat vpn_def)
qed

lemma entry_of_set_page:
  assumes "distinct_tables s" and "kernel_addr a" and "kernel_addr b" and "table_of s a \<noteq> 0"
  shows "entry_of (set_page (table_of s a) (PAGE_GET_INDEX a) e s) b = (if vpn b = vpn a then e else entry_of s b)"
proof (cases "vpn b = vpn a")
  case True
  then show ?thesis using vpn_indexes [OF True] by (simp add: entry_of_def set_page_def table_of_def)
next
  case False
  have "table_of s b \<noteq> table_of s a \<or> PAGE_GET_INDEX b \<noteq> PAGE_GET_INDEX a"
    using assms False indexes_determine_page [OF assms(3,2)] unfolding distinct_tables_def table_of_def vpn_def by metis
  then show ?thesis using False by (auto simp: entry_of_def set_page_def table_of_def)
qed

lemma vpn_step:
  assumes "unat virt + 4096 < 2 ^ 64"
  shows "vpn (virt + 4096) = Suc (vpn virt)" and "unat (virt + 4096) = unat virt + 4096"
proof -
  show u: "unat (virt + 4096) = unat virt + 4096" using assms unat_add_lem [of virt 4096] by simp
  then show "vpn (virt + 4096) = Suc (vpn virt)" by (simp add: vpn_def)
qed

lemma map_loop_existing:
  assumes "kernel_addr virt" and "unat virt + 4096 * n \<le> 2 ^ 64" and "distinct_tables s"
    and "\<And>b. kernel_addr b \<Longrightarrow> vpn virt \<le> vpn b \<Longrightarrow> vpn b < vpn virt + n \<Longrightarrow> table_of s b \<noteq> 0"
  shows "\<exists>s'. map_loop alloc pmap phys virt n flags s = Inr s' \<and> table_of s' = table_of s \<and>
    (\<forall>b. kernel_addr b \<longrightarrow> entry_of s' b =
       (if vpn virt \<le> vpn b \<and> vpn b < vpn virt + n
        then mapped_entry (phys + 4096 * of_nat (vpn b - vpn virt)) flags (entry_of s b) else entry_of s b))"
  using assms
proof (induction n arbitrary: phys virt s)
  case 0
  then show ?case by auto
next
  case (Suc n)
  let ?e = "mapped_entry phys flags (entry_of s virt)"
  define s1 where "s1 = set_page (table_of s virt) (PAGE_GET_INDEX virt) ?e s"
  have t: "table_of s virt \<noteq> 0" using Suc.prems(4) [OF Suc.prems(1)] by simp
  have one: "map_one alloc pmap phys virt flags s = Inr s1"
    unfolding s1_def by (rule map_one_existing [OF Suc.prems(1) t])
  have e1: "entry_of s1 b = (if vpn b = vpn virt then mapped_entry phys flags (entry_of s b) else entry_of s b)"
    if "kernel_addr b" for b
  proof -
    have "entry_of s b = entry_of s virt" if "vpn b = vpn virt"
      using entry_of_set_page [OF Suc.prems(3) Suc.prems(1) \<open>kernel_addr b\<close> t, of "entry_of s virt"] that
      by (simp add: entry_of_def set_page_def)
    then show ?thesis
      using entry_of_set_page [OF Suc.prems(3) Suc.prems(1) that t, of ?e] by (auto simp: s1_def)
  qed
  show ?case
  proof (cases "n = 0")
    case True
    have "\<And>b. vpn virt \<le> vpn b \<and> vpn b < vpn virt + Suc n \<longleftrightarrow> vpn b = vpn virt" using True by auto
    then show ?thesis using one e1 True by (auto simp: s1_def)
  next
    case False
    have lt: "unat virt + 4096 < 2 ^ 64" using Suc.prems(2) False by (cases n) auto
    note st = vpn_step [OF lt]
    have "kernel_addr (virt + 4096)" using Suc.prems(1) st(2) by (simp add: kernel_addr_def)
    then obtain s' where s': "map_loop alloc pmap (phys + 4096) (virt + 4096) n flags s1 = Inr s'"
        "table_of s' = table_of s1"
        "\<forall>b. kernel_addr b \<longrightarrow> entry_of s' b =
          (if vpn (virt + 4096) \<le> vpn b \<and> vpn b < vpn (virt + 4096) + n
           then mapped_entry (phys + 4096 + 4096 * of_nat (vpn b - vpn (virt + 4096))) flags (entry_of s1 b)
           else entry_of s1 b)"
      using Suc.IH [of "virt + 4096" s1 "phys + 4096"] Suc.prems st by (auto simp: s1_def)
    have "phys + 4096 + 4096 * of_nat (k - Suc v) = phys + 4096 * of_nat (k - v)" if "Suc v \<le> k" for k v
    proof -
      have "k - v = Suc (k - Suc v)" using that by simp
      then show ?thesis by (simp add: algebra_simps)
    qed
    then have "\<forall>b. kernel_addr b \<longrightarrow> entry_of s' b =
       (if vpn virt \<le> vpn b \<and> vpn b < vpn virt + Suc n
        then mapped_entry (phys + 4096 * of_nat (vpn b - vpn virt)) flags (entry_of s b) else entry_of s b)"
      using s'(3) e1 st(1) by auto
    then show ?thesis using one s'(1,2) by (simp add: ARCH_PAGE_SIZE_def s1_def)
  qed
qed

text \<open>Where the tables exist, mapping changes nothing but their entries.\<close>

lemma map_loop_tables:
  assumes "kernel_addr virt" and "unat virt + 4096 * n \<le> 2 ^ 64"
    and "\<And>b. kernel_addr b \<Longrightarrow> vpn virt \<le> vpn b \<Longrightarrow> vpn b < vpn virt + n \<Longrightarrow> table_of s b \<noteq> 0"
  shows "\<exists>T. map_loop alloc pmap phys virt n flags s = Inr (s\<lparr>page_tables := T\<rparr>)"
  using assms
proof (induction n arbitrary: phys virt s)
  case 0
  have "s = s\<lparr>page_tables := page_tables s\<rparr>" by simp
  then show ?case by (metis map_loop.simps(1))
next
  case (Suc n)
  define s1 where "s1 = set_page (table_of s virt) (PAGE_GET_INDEX virt) (mapped_entry phys flags (entry_of s virt)) s"
  have one: "map_one alloc pmap phys virt flags s = Inr s1"
    unfolding s1_def using Suc.prems by (intro map_one_existing) auto
  have s1: "s1 = s\<lparr>page_tables := page_tables s1\<rparr>" "table_of s1 = table_of s" by (simp_all add: s1_def set_page_def table_of_def fun_eq_iff)
  show ?case
  proof (cases "n = 0")
    case True
    then show ?thesis using one s1(1) by auto
  next
    case False
    then have lt: "unat virt + 4096 < 2 ^ 64" using Suc.prems(2) by (cases n) auto
    note st = vpn_step [OF lt]
    have "kernel_addr (virt + 4096)" using Suc.prems(1) st(2) by (simp add: kernel_addr_def)
    then obtain T where "map_loop alloc pmap (phys + 4096) (virt + 4096) n flags s1 = Inr (s1\<lparr>page_tables := T\<rparr>)"
      using Suc.IH [of "virt + 4096" s1 "phys + 4096"] Suc.prems st s1(2) by auto
    moreover have "s1\<lparr>page_tables := T\<rparr> = s\<lparr>page_tables := T\<rparr>" by (subst s1(1)) simp
    ultimately show ?thesis using one by (auto simp: ARCH_PAGE_SIZE_def)
  qed
qed

lemma ConvertVirtToPhys_entry:
  "kernel_addr a \<Longrightarrow> table_of s a \<noteq> 0 \<Longrightarrow>
   ConvertVirtToPhys pmap a s = ucast (pg_addr (entry_of s a) * 4096) + (a AND 0xFFF)"
  by (simp add: ConvertVirtToPhys_def kernel_addr_index layout_simps table_of_def entry_of_def Let_def)

lemma IsPagePresent_entry:
  "kernel_addr a \<Longrightarrow> table_of s a \<noteq> 0 \<Longrightarrow> IsPagePresent pmap a s = Inr (pg_present (entry_of s a))"
  by (simp add: IsPagePresent_def VM_GetPage_def kernel_addr_index layout_simps table_of_def entry_of_def Let_def)

lemma offset_unat: "(a AND 0xFFF :: u64) = of_nat (unat a mod 4096)"
proof -
  have "(0xFFF :: u64) = mask 12" by (simp add: mask_eq_exp_minus_1)
  then have "unat (a AND 0xFFF) = unat a mod 4096" by (simp only: unat_and_mask_mod) simp
  then show ?thesis by (metis of_nat_unat ucast_id)
qed

text \<open>A frame address below 64 GiB survives the 36 bits of the entry and of the multiplication.\<close>

lemma entry_address:
  assumes "unat p < 2 ^ 36" and "4096 dvd unat p"
  shows "ucast ((ucast (p div ARCH_PAGE_SIZE) :: 36 word) * 4096) = p"
proof -
  have d: "unat (p div 4096) = unat p div 4096" by (simp add: unat_div)
  have "unat (ucast (p div 4096) :: 36 word) = unat p div 4096"
    using assms(1) by (simp add: unsigned_ucast_eq take_bit_eq_mod d)
  moreover have "unat p div 4096 * 4096 = unat p" using assms(2) by simp
  ultimately have "unat ((ucast (p div 4096) :: 36 word) * 4096) = unat p"
    using assms(1) by (subst unat_mult_lem [THEN iffD1]) auto
  then show ?thesis by (metis ARCH_PAGE_SIZE_def of_nat_unat ucast_id)
qed

lemma translate_mapped:
  assumes "kernel_addr a" and "table_of s a \<noteq> 0" and "entry_of s a = mapped_entry p flags e"
    and "unat p < 2 ^ 36" and "4096 dvd unat p"
  shows "ConvertVirtToPhys pmap a s = p + of_nat (unat a mod 4096)"
  using ConvertVirtToPhys_entry [OF assms(1,2)] assms(3) entry_address [OF assms(4,5)]
  by (simp add: mapped_entry_def offset_unat)

text \<open>All that a caller needs to know about a range before it maps it.\<close>

definition mappable :: "'a vm_state_scheme \<Rightarrow> u64 \<Rightarrow> u64 \<Rightarrow> nat \<Rightarrow> bool" where
  "mappable s phys virt n \<longleftrightarrow> kernel_addr virt \<and> 4096 dvd unat virt \<and> unat virt + 4096 * n \<le> 2 ^ 64 \<and>
     4096 dvd unat phys \<and> unat phys + 4096 * n \<le> 2 ^ 36 \<and> distinct_tables s \<and>
     (\<forall>b. kernel_addr b \<longrightarrow> vpn virt \<le> vpn b \<longrightarrow> vpn b < vpn virt + n \<longrightarrow> table_of s b \<noteq> 0)"

lemma in_range_address:
  assumes "mappable s phys virt n" and "i < n" and "off < 4096"
  defines "a \<equiv> virt + 4096 * of_nat i + of_nat off"
  shows "unat a = unat virt + 4096 * i + off" and "kernel_addr a" and "vpn a = vpn virt + i"
    and "unat (phys + 4096 * of_nat i) = unat phys + 4096 * i" and "unat a mod 4096 = off"
proof -
  have b: "unat virt + 4096 * n \<le> 2 ^ 64" "4096 dvd unat virt" "unat phys + 4096 * n \<le> 2 ^ 36"
    using assms(1) by (auto simp: mappable_def)
  have "4096 * Suc i \<le> 4096 * n" using assms(2) by simp
  then have lt: "unat virt + 4096 * i + off < 2 ^ 64" "unat phys + 4096 * i < 2 ^ 64"
    using b assms(3) by auto
  have "a = of_nat (unat virt + 4096 * i + off)" by (simp add: a_def)
  then show u: "unat a = unat virt + 4096 * i + off"
    using lt(1) by (simp only: unat_of_nat) simp
  then show "kernel_addr a" using assms(1) by (simp add: mappable_def kernel_addr_def)
  obtain v where v: "unat virt = 4096 * v" using b(2) by blast
  then show "vpn a = vpn virt + i" using u assms(3) by (simp add: vpn_def)
  have "unat a = off + 4096 * (v + i)" using u v by simp
  then have "unat a mod 4096 = off mod 4096" by (simp only: mod_mult_self2)
  then show "unat a mod 4096 = off" using assms(3) by simp
  have "phys + 4096 * of_nat i = of_nat (unat phys + 4096 * i)" by simp
  then show "unat (phys + 4096 * of_nat i) = unat phys + 4096 * i"
    using lt(2) by (simp only: unat_of_nat) simp
qed

lemma map_range:
  assumes "mappable s phys virt (unat amount)"
  shows "\<exists>T. MapVirtualAddress alloc pmap phys virt amount flags s = Inr (s\<lparr>page_tables := T\<rparr>) \<and>
     (\<forall>i<unat amount. \<forall>off<4096.
        ConvertVirtToPhys pmap' (virt + 4096 * of_nat i + of_nat off) (s\<lparr>page_tables := T\<rparr>) =
          phys + 4096 * of_nat i + of_nat off \<and>
        IsPagePresent pmap' (virt + 4096 * of_nat i + of_nat off) (s\<lparr>page_tables := T\<rparr>) = Inr True) \<and>
     (\<forall>b. kernel_addr b \<and> \<not> (vpn virt \<le> vpn b \<and> vpn b < vpn virt + unat amount) \<longrightarrow>
        entry_of (s\<lparr>page_tables := T\<rparr>) b = entry_of s b)"
proof -
  let ?n = "unat amount"
  have M: "kernel_addr virt" "unat virt + 4096 * ?n \<le> 2 ^ 64" "distinct_tables s"
    "\<And>b. kernel_addr b \<Longrightarrow> vpn virt \<le> vpn b \<Longrightarrow> vpn b < vpn virt + ?n \<Longrightarrow> table_of s b \<noteq> 0"
    using assms by (auto simp: mappable_def)
  obtain T where T: "map_loop alloc pmap phys virt ?n flags s = Inr (s\<lparr>page_tables := T\<rparr>)"
    using map_loop_tables [OF M(1,2,4)] by blast
  define s' where "s' = s\<lparr>page_tables := T\<rparr>"
  have s': "table_of s' = table_of s"
    "\<And>b. kernel_addr b \<Longrightarrow> entry_of s' b = (if vpn virt \<le> vpn b \<and> vpn b < vpn virt + ?n
        then mapped_entry (phys + 4096 * of_nat (vpn b - vpn virt)) flags (entry_of s b) else entry_of s b)"
    using map_loop_existing [OF M, of alloc pmap phys flags] T unfolding s'_def by force+
  have "ConvertVirtToPhys pmap' a s' = phys + 4096 * of_nat i + of_nat off \<and> IsPagePresent pmap' a s' = Inr True"
    if i: "i < ?n" "off < 4096" and a: "a = virt + 4096 * of_nat i + of_nat off" for i off a
  proof -
    note r = in_range_address [OF assms i, folded a]
    have e: "entry_of s' a = mapped_entry (phys + 4096 * of_nat i) flags (entry_of s a)"
      using s'(2) [OF r(2)] r(3) i(1) by simp
    have t: "table_of s' a \<noteq> 0" using M(4) r(2,3) i(1) s'(1) by auto
    have "unat (phys + 4096 * of_nat i) < 2 ^ 36" "4096 dvd unat (phys + 4096 * of_nat i)"
      using assms i(1) unfolding r(4) by (auto simp: mappable_def)
    then show ?thesis
      using r(5) translate_mapped [OF r(2) t e] IsPagePresent_entry [OF r(2) t] e by (simp add: mapped_entry_def)
  qed
  moreover have "entry_of s' b = entry_of s b" if "kernel_addr b" "\<not> (vpn virt \<le> vpn b \<and> vpn b < vpn virt + ?n)" for b
    using s'(2) [OF that(1)] that(2) by simp
  ultimately show ?thesis using T unfolding MapVirtualAddress_def s'_def by blast
qed

section \<open>Properties\<close>


definition demo_links :: link_map where
  "demo_links = \<lparr>kernelPages_at = 0xFFFFFFFF80200000, kernelPdpts_at = 0xFFFFFFFF80201000,
     kernelPageDirs_at = 0xFFFFFFFF80400000, kernelPageTables_at = 0xFFFFFFFF80600000,
     kernelPageMarks_at = 0xFFFFFFFF80202000, g_kernelProcess_at = 0xFFFFFFFF80212000,
     KERNEL_START_ADDR = 0xFFFFFFFF80100000, KERNEL_END_ADDR = 0xFFFFFFFF80900000,
     PageFaultHandler_at = 0xFFFFFFFF80101000\<rparr>"

definition demo_vm :: vm_state where
  "demo_vm = \<lparr>mem = (\<lambda>_. 0)(0xFFFFFFFF80202000 := 0xFFFFFFFF80300000),
     frames = (\<lambda>_. None), freelist_count = (\<lambda>_. 0), pf_freelist_at = 0xFFFFFFFF80220000,
     kernelPages = (\<lambda>_. word_pml4 0),
     kernelPdpts = (\<lambda>_. \<lparr>pdpt_present = True, pdpt_writable = True, pdpt_usr = False,
       pdpt_writeThrough = False, pdpt_cache = False, pdpt_access = False, pdpt_ign_6 = 0, pdpt_size = 0,
       pdpt_ign_8_11 = 0, pdpt_addr = 0, pdpt_ign_48_62 = 0, pdpt_disableExec = False\<rparr>),
     kernelPageDirs = (\<lambda>_ _. \<lparr>pd_present = False, pd_writable = True, pd_usr = False,
       pd_writeThrough = False, pd_cache = False, pd_access = False, pd_ign_6 = 0, pd_size = 0,
       pd_ign_8_11 = 0, pd_addr = 0, pd_ign_48_62 = 0, pd_disableExec = False\<rparr>),
     kernelPageTablePointers = (\<lambda>p d. if p = 510 \<and> d = 0 then 0xFFFFFFFF80600000 else 0),
     page_tables = (\<lambda>_ _. word_page 0),
     procs = (\<lambda>p. if p = 0xFFFFFFFF80212000 then Some (zero_process\<lparr>m_VirtuaPagesBitmap := 0xFFFFFFFF80202000\<rparr>) else None),
     g_currentProcess = (\<lambda>_. 0xFFFFFFFF80212000), core_id = 0, irq_on = False, cr3 = 0,
     intr_handler = (\<lambda>_. 0), tty = start_screen, links = demo_links\<rparr>"


text \<open>
  Outside the kernel's 512 GiB nothing is ever mapped: with interrupts off the first page of
  such a range halts the processor, with interrupts on the call returns and no page table, no
  directory and no table pointer has changed.
\<close>

theorem user_addresses_not_mapped:
  assumes "PML4_GET_INDEX virt \<noteq> 511"
  shows "MapVirtualAddress alloc pmap phys virt 1 flags s = (if irq_on s then Inr s else Inl CpuHalt)"
  using assms by (simp add: MapVirtualAddress_def map_one_def hlt_def layout_simps)

theorem user_addresses_not_mapped_witness:
  "MapVirtualAddress (AllocatePages 4) 0 0 0x400000 1 7 demo_vm = Inl CpuHalt"
  using user_addresses_not_mapped [of "0x400000" "AllocatePages 4" 0 0 7 demo_vm]
  by (simp add: index_unat demo_vm_def)


end
