(* ===== verification/Page_Marks.thy ===== *)
theory Page_Marks
  imports Paging_Laws
begin

text \<open>
  The marks of used virtual pages.  \<^verbatim>\<open>VM_AllocatePages\<close> of \<^verbatim>\<open>Kernel/arch/x86_64/paging.c\<close> is a first fit search:
  it returns the first run of clear marks that is long enough and sets exactly these marks, as long
  as it stays within what C defines.  For more than one page the first page of the kernel's space
  is never part of the run, because the search takes the address 0 for no address.
\<close>

section \<open>Searching and marking\<close>

lemma int_bit_small: "b < 31 \<Longrightarrow> int_bit b = Inr (2 ^ b)"
proof -
  assume b: "b < 31"
  have "scast (push_bit b (1 :: u32)) = (push_bit b 1 :: u64)"
    by (rule bit_word_eqI) (use b in \<open>auto simp: bit_simps\<close>)
  then show ?thesis using b by (simp add: int_bit_def push_bit_eq_mult)
qed

lemma int_bit_31: "int_bit 31 = Inr 0xFFFFFFFF80000000"
  by (simp add: int_bit_def push_bit_eq_mult)

lemma and_exp_zero: "(w AND 2 ^ b = (0 :: u64)) \<longleftrightarrow> b \<ge> 64 \<or> \<not> bit w b"
proof -
  have "w AND 2 ^ b = of_bool (bit w b) * 2 ^ b"
    by (rule bit_word_eqI) (auto simp: bit_simps)
  then show ?thesis by (auto simp: dest: bit_imp_le_length)
qed

lemma elem_at_aligned: "base \<noteq> 0 \<Longrightarrow> base AND 7 = 0 \<Longrightarrow> elem_at base i = Inr (base + 8 * i)"
proof -
  assume nz: "base \<noteq> 0" and al: "base AND 7 = 0"
  have m: "(7 :: u64) = mask 3" by (simp add: mask_eq_exp_minus_1)
  have eq: "x AND 7 = 0 \<longleftrightarrow> unat x mod 8 = 0" for x :: u64
    unfolding m by (simp add: word_unat_eq_iff unat_and_mask_mod)
  have "unat (base + 8 * i) mod 8 = (unat base + 8 * unat i) mod 8"
    by (simp add: unat_word_ariths mod_mod_cancel mod_add_right_eq)
  then have "(base + 8 * i) AND 7 = 0" using al eq by simp
  then show ?thesis using nz by (simp add: elem_at_def Let_def)
qed
lemma scan_bits_undefined:
  assumes "\<And>j. j < 32 \<Longrightarrow> bit w j" and "k \<le> 32" and "32 < k + n"
  shows "scan_bits n k idx sub amount w 0 left = Inl UndefinedShift"
  using assms(2,3)
proof (induction n arbitrary: k left)
  case 0
  then show ?case by simp
next
  case (Suc n)
  consider "k = 32" | "k = 31" | "k < 31" using Suc.prems by linarith
  then show ?case
  proof cases
    case 1
    then show ?thesis by (simp add: int_bit_def)
  next
    case 2
    have "bit (w AND 0xFFFFFFFF80000000) 31" using assms(1) [of 31] by (simp add: bit_and_iff)
    then have "w AND 0xFFFFFFFF80000000 \<noteq> 0" by (metis bit_0_eq bot_apply bot_bool_def)
    then show ?thesis using 2 Suc.IH [of 32] Suc.prems by (simp add: int_bit_31)
  next
    case 3
    then show ?thesis
      using Suc.IH [of "Suc k"] Suc.prems assms(1) [of k] by (simp add: int_bit_small and_exp_zero)
  qed
qed

text \<open>Full marks are skipped.\<close>

lemma scan_marks_skip:
  assumes "base \<noteq> 0" and "base AND 7 = 0" and "\<And>j. i \<le> j \<Longrightarrow> j < i + k \<Longrightarrow> mem s (base + 8 * of_nat j) = 0xffffffffffffffff"
  shows "scan_marks (k + n) (of_nat i) base idx amount virt left s =
    scan_marks n (of_nat (i + k)) base idx amount virt left s"
  using assms(3)
proof (induction k arbitrary: i)
  case 0
  then show ?case by simp
next
  case (Suc k)
  have "mem s (base + 8 * of_nat i) = 0xffffffffffffffff" by (rule Suc.prems) auto
  then have "scan_marks (Suc k + n) (of_nat i) base idx amount virt left s =
      scan_marks (k + n) (of_nat (Suc i)) base idx amount virt left s"
    by (simp add: elem_at_aligned [OF assms(1,2)] add.commute)
  then show ?case using Suc.IH [of "Suc i"] Suc.prems by auto
qed

text \<open>
  The situation of an allocation in the kernel's space: the marks behind the first pointer are
  full up to number \<open>sub\<close>, which holds \<open>w\<close>.
\<close>

definition first_mark :: "'a vm_state_scheme \<Rightarrow> process \<Rightarrow> u64 \<Rightarrow> nat \<Rightarrow> u64 \<Rightarrow> bool" where
  "first_mark s p B sub w \<longleftrightarrow>
     procs s (PR_GetKernelProcess s) = Some p \<and> PR_GetKernelProcess s \<noteq> 0 \<and>
     m_VirtuaPagesBitmap p \<noteq> 0 \<and> m_VirtuaPagesBitmap p AND 7 = 0 \<and>
     mem s (m_VirtuaPagesBitmap p) = B \<and> B \<noteq> 0 \<and> B AND 7 = 0 \<and> sub < 512 \<and>
     (\<forall>j < sub. mem s (B + 8 * of_nat j) = 0xffffffffffffffff) \<and>
     mem s (B + 8 * of_nat sub) = w \<and> w \<noteq> 0xffffffffffffffff"

lemma first_mark_scan:
  assumes "first_mark s p B sub w"
  shows "scan_marks 512 0 B idx amount 0 0 s =
    bind_res (scan_bits 64 0 idx (of_nat sub) amount w 0 0) (\<lambda>r.
      case r of Found v \<Rightarrow> Inr (Found v)
      | Searching virt left \<Rightarrow> scan_marks (511 - sub) (of_nat sub + 1) B idx amount virt left s)"
proof -
  have "512 = sub + Suc (511 - sub)" using assms by (simp add: first_mark_def)
  then have "scan_marks 512 0 B idx amount 0 0 s = scan_marks (Suc (511 - sub)) (of_nat sub) B idx amount 0 0 s"
    using scan_marks_skip [of B 0 sub s "Suc (511 - sub)" idx amount 0 0] assms by (simp add: first_mark_def)
  then show ?thesis
    using assms elem_at_aligned [of B "of_nat sub"] by (simp add: first_mark_def)
qed

lemma first_mark_pointers:
  assumes "first_mark s p B sub w"
  shows "scan_pointers alloc (Suc n) 0 (m_VirtuaPagesBitmap p) amount 0 0 s =
    bind_res (scan_marks 512 0 B 0 amount 0 0 s) (\<lambda>r.
      case r of Found v \<Rightarrow> Inr (Found v, s)
      | Searching virt left \<Rightarrow> scan_pointers alloc n 1 (m_VirtuaPagesBitmap p) amount virt left s)"
  using assms elem_at_aligned [of "m_VirtuaPagesBitmap p" 0]
  by (simp add: first_mark_def del: scan_marks.simps)

lemma page_of_mark:
  assumes "sub < 512" and "b < 64"
  defines "v \<equiv> (of_nat (64 * sub + b) :: u64)"
  shows "v * ARCH_PAGE_SIZE div ARCH_PAGE_SIZE = v" and "(ucast (v div 32768) :: u16) = 0"
    and "(ucast (v div 64) :: u16) = of_nat sub" and "unat (v mod 64) = b"
proof -
  have u: "unat v = 64 * sub + b" unfolding v_def using assms(1,2) by (simp only: unat_of_nat) simp
  have lt: "unat v < 32768" using u assms by simp
  have "unat (v * ARCH_PAGE_SIZE) = unat v * 4096"
    using lt by (subst unat_mult_lem [THEN iffD1]) (auto simp: ARCH_PAGE_SIZE_def)
  then show "v * ARCH_PAGE_SIZE div ARCH_PAGE_SIZE = v"
    by (simp add: word_unat_eq_iff unat_div ARCH_PAGE_SIZE_def)
  have "v div 32768 = 0" using lt by (simp add: word_unat_eq_iff unat_div)
  then show "(ucast (v div 32768) :: u16) = 0" by simp
  have "unat (v div 64) = sub" using u assms(2) by (simp add: unat_div)
  then show "(ucast (v div 64) :: u16) = of_nat sub" by (metis of_nat_unat)
  show "unat (v mod 64) = b" using u assms(2) by (simp add: unat_mod)
qed

section \<open>First fit\<close>

text \<open>The first run of \<open>a\<close> clear marks in a word starts at mark \<open>b\<close>.\<close>

definition first_fit :: "u64 \<Rightarrow> nat \<Rightarrow> nat \<Rightarrow> bool" where
  "first_fit w a b \<longleftrightarrow> (\<forall>j<a. \<not> bit w (b + j)) \<and> (\<forall>b'<b. \<exists>j<a. bit w (b' + j))"

text \<open>The marks as the search sees them: mark 0 counts as used when more than one page is wanted.\<close>

definition seen_marks :: "nat \<Rightarrow> nat \<Rightarrow> u64 \<Rightarrow> u64" where
  "seen_marks sub a w = (if sub = 0 \<and> 1 < a then w OR 1 else w)"

lemma bit_seen: "bit (seen_marks sub a w) i \<longleftrightarrow> bit w i \<or> sub = 0 \<and> 1 < a \<and> i = 0"
  by (auto simp: seen_marks_def bit_or_iff bit_1_iff)

definition page_addr :: "nat \<Rightarrow> nat \<Rightarrow> u64" where
  "page_addr sub b = (of_nat sub * 64 + of_nat b) * ARCH_PAGE_SIZE"

lemma page_addr_unat: "sub < 512 \<Longrightarrow> b < 64 \<Longrightarrow> unat (page_addr sub b) = (64 * sub + b) * 4096"
proof -
  assume "sub < 512" "b < 64"
  moreover have "page_addr sub b = of_nat ((64 * sub + b) * 4096)"
    by (simp add: page_addr_def ARCH_PAGE_SIZE_def)
  ultimately show ?thesis by (simp only: unat_of_nat) simp
qed

lemma page_addr_zero: "sub < 512 \<Longrightarrow> b < 64 \<Longrightarrow> page_addr sub b = 0 \<longleftrightarrow> sub = 0 \<and> b = 0"
  using page_addr_unat [of sub b] by (auto simp: word_unat_eq_iff)

lemma countdown: "Suc 0 < n \<Longrightarrow> n < 64 \<Longrightarrow> (of_nat n :: u64) - 1 \<noteq> 0" "(of_nat (Suc n) :: u64) - 1 = of_nat n"
proof -
  assume "Suc 0 < n" "n < 64"
  then have "unat (of_nat n :: u64) = n" by (simp add: unat_of_nat)
  then show "(of_nat n :: u64) - 1 \<noteq> 0" using \<open>Suc 0 < n\<close> by auto
qed simp

text \<open>
  What the variables say in front of mark \<open>i\<close>: no run is open, or the run that is open started at a
  mark \<open>c\<close> in front of which no run was long enough.
\<close>

definition scanning :: "nat \<Rightarrow> nat \<Rightarrow> u64 \<Rightarrow> nat \<Rightarrow> nat \<Rightarrow> u64 \<Rightarrow> u64 \<Rightarrow> bool" where
  "scanning sub a w b i virt left \<longleftrightarrow>
     virt = 0 \<and> i \<le> b \<or>
     (\<exists>c. virt = page_addr sub c \<and> virt \<noteq> 0 \<and> c < i \<and> c \<le> b \<and> i - c < a \<and> left = of_nat (a - (i - c)) \<and>
        (\<forall>j. c \<le> j \<and> j < i \<longrightarrow> \<not> bit (seen_marks sub a w) j))"

lemma fit_here: "first_fit w a b \<Longrightarrow> c \<le> b \<Longrightarrow> (\<forall>j<a. \<not> bit w (c + j)) \<Longrightarrow> c = b"
  unfolding first_fit_def by (metis le_neq_implies_less)

lemma scanning_used:
  assumes "first_fit (seen_marks sub a w) a b" and "i < b + a" and "bit w i"
  shows "i < b" and "scanning sub a w b (Suc i) 0 left"
proof -
  have "bit (seen_marks sub a w) (b + (i - b)) \<and> i - b < a" if "b \<le> i"
    using assms(2,3) that by (auto simp: bit_seen)
  then show "i < b" using assms(1) unfolding first_fit_def by (meson not_le)
  then show "scanning sub a w b (Suc i) 0 left" by (simp add: scanning_def)
qed

lemma scanning_open:
  assumes "first_fit (seen_marks sub a w) a b" and "1 < a" and "sub < 512" and "i < 31" and "i \<le> b" and "\<not> bit w i"
  shows "scanning sub a w b (Suc i) (page_addr sub i) (of_nat a - 1)"
proof (cases "page_addr sub i = 0")
  case True
  then have "bit (seen_marks sub a w) 0" "i = 0"
    using page_addr_zero [OF assms(3), of i] assms(2,4) by (simp_all add: bit_seen)
  moreover have "\<not> bit (seen_marks sub a w) (b + 0)"
    using assms(1,2) unfolding first_fit_def by (meson less_trans zero_less_one)
  ultimately have "b \<noteq> 0" by (metis add_0)
  then show ?thesis using True \<open>i = 0\<close> by (simp add: scanning_def)
next
  case False
  then have "sub \<noteq> 0 \<or> i \<noteq> 0" using page_addr_zero [OF assms(3), of i] assms(4) by simp
  then have "\<not> bit (seen_marks sub a w) i" using assms(6) by (auto simp: bit_seen)
  moreover have "of_nat a - 1 = (of_nat (a - 1) :: u64)" using assms(2) by simp
  ultimately show ?thesis
    using False assms(2,5) by (auto simp: scanning_def less_Suc_eq_le intro!: exI [of _ i] dest: le_antisym)
qed

text \<open>A run that is open either ends at this mark, and then it is the first fit, or goes on.\<close>

lemma scanning_grow:
  assumes fit: "first_fit (seen_marks sub a w) a b" and "b + a \<le> 31" and S: "scanning sub a w b i virt left"
    and "virt \<noteq> 0" and "\<not> bit w i"
  shows "left - 1 = 0 \<Longrightarrow> virt = page_addr sub b"
    and "left - 1 \<noteq> 0 \<Longrightarrow> Suc i < b + a \<and> scanning sub a w b (Suc i) virt (left - 1)"
proof -
  obtain c where c: "virt = page_addr sub c" "c < i" "c \<le> b" "i - c < a" "left = of_nat (a - (i - c))"
      "\<And>j. c \<le> j \<Longrightarrow> j < i \<Longrightarrow> \<not> bit (seen_marks sub a w) j"
    using S assms(4) by (auto simp: scanning_def)
  have clear: "\<not> bit (seen_marks sub a w) j" if "c \<le> j" "j < Suc i" for j
    using c(2,6) assms(5) that by (cases "j = i") (auto simp: bit_seen)
  show "virt = page_addr sub b" if "left - 1 = 0"
  proof -
    have "\<not> Suc 0 < a - (i - c)" using countdown(1) [of "a - (i - c)"] that c(5) assms(2) by auto
    then have "c + j < Suc i" if "j < a" for j using that c(2) by linarith
    then have "c = b" using clear by (intro fit_here [OF fit c(3)]) auto
    then show ?thesis by (simp add: c(1))
  qed
  show "Suc i < b + a \<and> scanning sub a w b (Suc i) virt (left - 1)" if "left - 1 \<noteq> 0"
  proof -
    have "a - (i - c) \<noteq> 1" using that c(5) by auto
    then obtain k where k: "a - (i - c) = Suc (Suc k)" using c(4)
      by (cases "a - (i - c)"; cases "a - (i - c) - 1") auto
    have k': "a - (Suc i - c) = Suc k" using k c(2) by linarith
    have "left - 1 = of_nat (a - (Suc i - c))" unfolding k' c(5) k by simp
    then have "scanning sub a w b (Suc i) virt (left - 1)"
      using c(1-3) assms(4) clear k by (auto simp: scanning_def Suc_diff_le intro!: exI [of _ c])
    moreover have "Suc i < b + a" using k c(2,3) by linarith
    ultimately show ?thesis by simp
  qed
qed

lemma scan_bits_fit:
  assumes fit: "first_fit (seen_marks sub a w) a b" and a: "0 < a" and ba: "b + a \<le> 31" and sub: "sub < 512"
  shows "scanning sub a w b i virt left \<Longrightarrow> i < b + a \<Longrightarrow> b + a \<le> i + n \<Longrightarrow>
     scan_bits n i 0 (of_nat sub) (of_nat a) w virt left = Inr (Found (page_addr sub b))"
proof (induction n arbitrary: i virt left)
  case 0
  then show ?case by simp
next
  case (Suc n)
  have i: "i < 31" using Suc.prems(2) ba by simp
  have ib: "int_bit i = Inr (2 ^ i)" by (rule int_bit_small [OF i])
  have ad: "(0 * 32768 + of_nat sub * 64 + of_nat i) * ARCH_PAGE_SIZE = page_addr sub i" by (simp add: page_addr_def)
  consider "bit w i" | "\<not> bit w i" "virt \<noteq> 0" | "\<not> bit w i" "virt = 0" "a = 1" | "\<not> bit w i" "virt = 0" "1 < a"
    using a by linarith
  then show ?case
  proof cases
    case 1
    then show ?thesis
      using Suc scanning_used [OF fit Suc.prems(2)] ib i a by (simp add: and_exp_zero)
  next
    case 2
    note g = scanning_grow [OF fit ba Suc.prems(1) 2(2,1)]
    show ?thesis
    proof (cases "left - 1 = 0")
      case True
      then show ?thesis using 2 ib g(1) by (simp add: and_exp_zero)
    next
      case False
      then show ?thesis using 2 ib g(2) Suc.IH [of "Suc i" virt "left - 1"] Suc.prems(3) by (simp add: and_exp_zero)
    qed
  next
    case 3
    then have "i \<le> b" using Suc.prems(1) by (auto simp: scanning_def)
    then have "i = b" using 3 by (intro fit_here [OF fit]) (simp_all add: bit_seen)
    then show ?thesis using 3 ib ad by (simp add: and_exp_zero)
  next
    case 4
    then have "i \<le> b" using Suc.prems(1) by (auto simp: scanning_def)
    then show ?thesis
      using Suc 4 ib ad countdown(1) [of a] ba scanning_open [OF fit 4(3) sub i] by (simp add: and_exp_zero)
  qed
qed

section \<open>Marking\<close>

text \<open>Setting one of the marks behind the first pointer.\<close>

lemma set_mark_kernel:
  assumes p: "load_proc k s = Inr p" and A: "m_VirtuaPagesBitmap p \<noteq> 0" "m_VirtuaPagesBitmap p AND 7 = 0"
    and B: "mem s (m_VirtuaPagesBitmap p) = B" "B \<noteq> 0" "B AND 7 = 0" and sub: "sub < 512" and b: "b < 31"
  shows "set_mark k (of_nat (64 * sub + b)) s =
    Inr (s\<lparr>mem := (mem s)(B + 8 * of_nat sub := mem s (B + 8 * of_nat sub) OR 2 ^ b)\<rparr>)"
proof -
  note pg = page_of_mark [OF sub, of b]
  have "unat (of_nat sub :: u16) = sub" using sub by (simp add: unat_of_nat)
  then have uc: "(ucast (of_nat sub :: u16) :: u64) = of_nat sub" by (metis of_nat_unat)
  show ?thesis
    using p A B b pg(2-4) uc elem_at_aligned [OF A, of 0] elem_at_aligned [OF B(2,3), of "of_nat sub"] int_bit_small [OF b]
    by (simp only: set_mark_def Let_def bind_res_Inr) simp
qed

text \<open>The marks of a run in their word.\<close>

definition run_marks :: "nat \<Rightarrow> nat \<Rightarrow> u64" where
  "run_marks b a = push_bit b (mask a)"

lemma bit_run_marks: "bit (run_marks b a) n \<longleftrightarrow> n < 64 \<and> b \<le> n \<and> n < b + a"
  by (auto simp: run_marks_def bit_push_bit_iff bit_mask_iff)

lemma run_marks_Suc: "b + a < 64 \<Longrightarrow> w OR run_marks b (Suc a) = (w OR 2 ^ b) OR run_marks (Suc b) a"
  by (rule bit_word_eqI) (auto simp: bit_run_marks bit_or_iff bit_exp_iff)

lemma mark_loop_run:
  assumes "load_proc k s = Inr p" and A: "m_VirtuaPagesBitmap p \<noteq> 0" "m_VirtuaPagesBitmap p AND 7 = 0"
    and B: "mem s (m_VirtuaPagesBitmap p) = B" "B \<noteq> 0" "B AND 7 = 0" and sub: "sub < 512" and b: "b + a \<le> 31"
    and "a \<le> 1 \<or> B + 8 * of_nat sub \<noteq> m_VirtuaPagesBitmap p"
  shows "mark_loop a k (of_nat (64 * sub + b)) s =
    Inr (s\<lparr>mem := (mem s)(B + 8 * of_nat sub := mem s (B + 8 * of_nat sub) OR run_marks b a)\<rparr>)"
  using assms(1,4,8,9)
proof (induction a arbitrary: b s)
  case 0
  then show ?case by (simp add: run_marks_def)
next
  case (Suc a)
  let ?c = "B + 8 * of_nat sub"
  define t where "t = s\<lparr>mem := (mem s)(?c := mem s ?c OR 2 ^ b)\<rparr>"
  have one: "set_mark k (of_nat (64 * sub + b)) s = Inr t"
    unfolding t_def using Suc.prems by (intro set_mark_kernel [OF _ A _ B(2,3) sub]) auto
  have nx: "of_nat (64 * sub + b) + 1 = (of_nat (64 * sub + Suc b) :: u64)" by simp
  show ?case
  proof (cases "a = 0")
    case True
    then show ?thesis using one by (simp add: t_def run_marks_def push_bit_eq_mult fun_upd_def)
  next
    case False
    then have "load_proc k t = Inr p" "mem t (m_VirtuaPagesBitmap p) = B"
      using Suc.prems by (auto simp: t_def load_proc_def)
    then have "mark_loop a k (of_nat (64 * sub + Suc b)) t =
        Inr (t\<lparr>mem := (mem t)(?c := mem t ?c OR run_marks (Suc b) a)\<rparr>)"
      using Suc.prems False by (intro Suc.IH) auto
    moreover have "t\<lparr>mem := (mem t)(?c := mem t ?c OR run_marks (Suc b) a)\<rparr> =
        s\<lparr>mem := (mem s)(?c := mem s ?c OR run_marks b (Suc a))\<rparr>"
      using run_marks_Suc [of b a "mem s ?c"] Suc.prems by (simp add: t_def)
    ultimately show ?thesis by (simp only: mark_loop.simps one bind_res_Inr nx)
  qed
qed

lemma page_addr_eq: "page_addr sub b = of_nat (64 * sub + b) * ARCH_PAGE_SIZE"
  by (simp add: page_addr_def mult.commute)

lemma VM_AllocatePages_fit:
  assumes F: "first_mark s p B sub w" and a: "0 < a" and ba: "b + a \<le> 31" and fit: "first_fit (seen_marks sub a w) a b"
    and "a \<le> 1 \<or> B + 8 * of_nat sub \<noteq> m_VirtuaPagesBitmap p"
  shows "VM_AllocatePages alloc (PR_GetKernelProcess s) (of_nat a) s =
    Inr (page_addr sub b + KERNEL_VIRTUAL_BASE, s\<lparr>mem := (mem s)(B + 8 * of_nat sub := w OR run_marks b a)\<rparr>)"
proof -
  let ?k = "PR_GetKernelProcess s"
  have p: "load_proc ?k s = Inr p" "?k \<noteq> 0" and sub: "sub < 512" using F by (auto simp: load_proc_def first_mark_def)
  have "scan_bits 64 0 0 (of_nat sub) (of_nat a) w 0 0 = Inr (Found (page_addr sub b))"
    using a ba by (intro scan_bits_fit [OF fit a ba sub]) (auto simp: scanning_def)
  then have scan: "scan_pointers alloc 16 0 (m_VirtuaPagesBitmap p) (of_nat a) 0 0 s = Inr (Found (page_addr sub b), s)"
    using first_mark_pointers [OF F, of alloc 15 "of_nat a"] first_mark_scan [OF F, of 0 "of_nat a"]
    by (simp del: scan_pointers.simps scan_bits.simps)
  have "mark_loop a ?k (of_nat (64 * sub + b)) s =
      Inr (s\<lparr>mem := (mem s)(B + 8 * of_nat sub := w OR run_marks b a)\<rparr>)"
    using F p(1) ba assms(5) mark_loop_run [of ?k s p B sub b a] by (simp add: first_mark_def del: of_nat_add)
  moreover have "unat (of_nat a :: u64) = a" using ba by (simp add: unat_of_nat)
  moreover have "page_addr sub b div ARCH_PAGE_SIZE = of_nat (64 * sub + b)"
    using page_of_mark(1) [OF sub, of b] ba a by (simp add: page_addr_eq)
  ultimately have "VM_MarkPagesUsed ?k (page_addr sub b + KERNEL_VIRTUAL_BASE) (of_nat a) s =
      Inr (s\<lparr>mem := (mem s)(B + 8 * of_nat sub := w OR run_marks b a)\<rparr>)"
    using p(1) by (simp add: VM_MarkPagesUsed_def del: of_nat_add)
  then show ?thesis
    using p scan by (simp add: VM_AllocatePages_def Let_def del: scan_pointers.simps of_nat_add)
qed

lemma VM_AllocatePages_first:
  assumes "first_mark s p B sub w" and "b < 31" and "\<not> bit w b" and "\<And>j. j < b \<Longrightarrow> bit w j"
  shows "VM_AllocatePages alloc (PR_GetKernelProcess s) 1 s =
    Inr (of_nat (64 * sub + b) * ARCH_PAGE_SIZE + KERNEL_VIRTUAL_BASE,
         s\<lparr>mem := (mem s)(B + 8 * of_nat sub := w OR 2 ^ b)\<rparr>)"
proof -
  have "first_fit (seen_marks sub 1 w) 1 b" using assms(3,4) by (simp add: first_fit_def seen_marks_def)
  then show ?thesis
    using VM_AllocatePages_fit [OF assms(1), of 1 b alloc] assms(2)
    by (simp add: page_addr_eq run_marks_def push_bit_eq_mult)
qed

section \<open>Properties\<close>


lemma first_mark_demo:
  "first_mark demo_vm (zero_process\<lparr>m_VirtuaPagesBitmap := 0xFFFFFFFF80202000\<rparr>) 0xFFFFFFFF80300000 0 0"
  by (simp add: first_mark_def PR_GetKernelProcess_def demo_vm_def demo_links_def)


text \<open>
  When the low 32 marks of the first word that is not full are set, the search shifts an
  \<^verbatim>\<open>int\<close> by 32 places, for every number of pages requested: the second half of the word is
  never reached in a way that C defines.
\<close>

theorem vm_allocate_undefined_shift:
  assumes "first_mark s p B sub w" and "\<And>j. j < 32 \<Longrightarrow> bit w j"
  shows "VM_AllocatePages alloc (PR_GetKernelProcess s) amount s = Inl UndefinedShift"
proof -
  have p: "load_proc (PR_GetKernelProcess s) s = Inr p" "PR_GetKernelProcess s \<noteq> 0"
    using assms(1) by (auto simp: load_proc_def first_mark_def)
  have "scan_bits 64 0 0 (of_nat sub) amount w 0 0 = Inl UndefinedShift"
    by (rule scan_bits_undefined [OF assms(2)]) auto
  then have "scan_pointers alloc 16 0 (m_VirtuaPagesBitmap p) amount 0 0 s = Inl UndefinedShift"
    using first_mark_pointers [OF assms(1), of alloc 15 amount] first_mark_scan [OF assms(1), of 0 amount]
    by (simp del: scan_pointers.simps scan_bits.simps)
  then show ?thesis using p by (simp add: VM_AllocatePages_def Let_def del: scan_pointers.simps)
qed

definition demo_half :: vm_state where
  "demo_half = demo_vm\<lparr>mem := (mem demo_vm)(0xFFFFFFFF80300000 := mask 32)\<rparr>"

theorem vm_allocate_undefined_shift_witness:
  "VM_AllocatePages (AllocatePages 0) 0xFFFFFFFF80212000 1 demo_half = Inl UndefinedShift"
proof -
  have k: "PR_GetKernelProcess demo_half = 0xFFFFFFFF80212000"
    by (simp add: PR_GetKernelProcess_def demo_half_def demo_vm_def demo_links_def)
  have "first_mark demo_half (zero_process\<lparr>m_VirtuaPagesBitmap := 0xFFFFFFFF80202000\<rparr>) 0xFFFFFFFF80300000 0 (mask 32)"
    unfolding first_mark_def k by (simp add: demo_half_def demo_vm_def mask_eq_exp_minus_1)
  from vm_allocate_undefined_shift [OF this, of "AllocatePages 0" 1] show ?thesis
    unfolding k by (simp add: bit_mask_iff)
qed


end
