(* ===== verification/Paging_Start.thy ===== *)
theory Paging_Start
  imports Page_Marks
begin

text \<open>
  The start-up of virtual memory, \<^verbatim>\<open>LoadVirtualMemory\<close> of \<^verbatim>\<open>Kernel/arch/x86_64/paging.c\<close>: where it leaves what C
  defines.
\<close>

section \<open>Start-up\<close>

lemma link_tables_keeps:
  "mem (link_tables s) = mem s \<and> procs (link_tables s) = procs s \<and> links (link_tables s) = links s"
proof -
  have fold_keeps: "mem (fold f ks s) = mem s \<and> procs (fold f ks s) = procs s \<and> links (fold f ks s) = links s"
    if "\<And>i s. mem (f i s) = mem s \<and> procs (f i s) = procs s \<and> links (f i s) = links s"
    for f :: "nat \<Rightarrow> 'a vm_state_scheme \<Rightarrow> 'a vm_state_scheme" and ks s
    using that by (induction ks arbitrary: s) auto
  show ?thesis
    unfolding link_tables_def Let_def
    by (subst fold_keeps, simp add: set_table_pointer_def set_dir_def)+ simp
qed

lemma fold_table_pointers:
  "kernelPageTablePointers (fold (\<lambda>i s. set_table_pointer k i (g i) (set_dir k i (h i s) s)) [0..<n] s) k j =
   (if j < n then g j else kernelPageTablePointers s k j)"
  by (induction n) (auto simp: set_table_pointer_def set_dir_def less_Suc_eq)

lemma link_tables_pointers:
  "j < 512 \<Longrightarrow> kernelPageTablePointers (link_tables s) 510 j = kernelPageTables_at (links s) + 4096 * of_nat j"
proof -
  have k: "PDPT_GET_INDEX KERNEL_VIRTUAL_BASE = 510" by (simp add: index_unat layout_simps)
  show "j < 512 \<Longrightarrow> ?thesis"
    unfolding link_tables_def Let_def k by (simp add: fold_table_pointers layout_simps)
qed

lemma link_marks_eq:
  fixes s :: "'a vm_state_scheme"
  assumes "procs s (PR_GetKernelProcess s) = Some p" and "PR_GetKernelProcess s \<noteq> 0"
  defines "base \<equiv> kernelPageMarks_at (links s)"
  shows "\<exists>s'. link_marks s = Inr s' \<and> mem s' base = base \<and> links s' = links s \<and>
    kernelPageTablePointers s' = kernelPageTablePointers s \<and>
    procs s' (PR_GetKernelProcess s) = Some (p\<lparr>m_Pagemap := kernelPages_at (links s), m_VirtuaPagesBitmap := base\<rparr>)"
proof -
  let ?f = "\<lambda>i (s :: 'a vm_state_scheme). s\<lparr>mem := (mem s)(base + 8 * of_nat i := base + 8 * (of_nat i * 512))\<rparr>"
  have nz: "(8 * of_nat i :: u64) \<noteq> 0" if "0 < i" "i < 16" for i
  proof -
    have "unat (of_nat (8 * i) :: u64) = 8 * i" using that by (simp only: unat_of_nat) simp
    then show ?thesis using that by auto
  qed
  have F: "mem (fold ?f [0..<n] t) base = (if n = 0 then mem t base else base) \<and> links (fold ?f [0..<n] t) = links t \<and>
      kernelPageTablePointers (fold ?f [0..<n] t) = kernelPageTablePointers t \<and> procs (fold ?f [0..<n] t) = procs t"
    if "n \<le> 16" for n t
    using that nz by (induction n) auto
  show ?thesis
    using assms(1,2) F [of 16 "store_proc (PR_GetKernelProcess s)
        (p\<lparr>m_Pagemap := kernelPages_at (links s), m_VirtuaPagesBitmap := base\<rparr>) s"]
    by (simp add: link_marks_def load_proc_def store_proc_def base_def Let_def del: upt_rec_numeral)
qed

text \<open>
  The first mark is the first pointer: setting mark 0 makes the pointer odd, and the next mark is
  looked for behind it.
\<close>

lemma marks_clobbered:
  assumes p: "procs s (PR_GetKernelProcess s) = Some p" "PR_GetKernelProcess s \<noteq> 0"
    and b: "m_VirtuaPagesBitmap p = base" "mem s base = base" "base \<noteq> 0" "base AND 7 = 0" and n: "2 \<le> unat amount"
  shows "VM_MarkPagesUsed (PR_GetKernelProcess s) KERNEL_VIRTUAL_BASE amount s = Inl (Misaligned (base OR 1))"
proof -
  obtain k where k: "unat amount = Suc (Suc k)" using n by (metis add_2_eq_Suc le_Suc_ex)
  let ?s = "s\<lparr>mem := (mem s)(base := base OR 1)\<rparr>"
  have l: "load_proc (PR_GetKernelProcess s) s = Inr p" "load_proc (PR_GetKernelProcess s) ?s = Inr p"
    using p by (simp_all add: load_proc_def)
  note el = elem_at_aligned [OF b(3,4)]
  have ib: "int_bit 0 = Inr 1" using int_bit_small [of 0] by simp
  have one: "set_mark (PR_GetKernelProcess s) 0 s = Inr ?s"
    using l(1) b el [of 0] ib by (simp add: set_mark_def Let_def)
  have odd: "bit ((base OR 1) AND 7) 0" by (simp add: bit_or_iff bit_and_iff)
  then have "(base OR 1) AND 7 \<noteq> 0" by (metis bit_0_eq bot_apply bot_bool_def)
  moreover have "base OR 1 \<noteq> 0" using calculation by auto
  ultimately have "elem_at (base OR 1) 0 = Inl (Misaligned (base OR 1))" by (simp add: elem_at_def Let_def)
  then have "set_mark (PR_GetKernelProcess s) 1 ?s = Inl (Misaligned (base OR 1))"
    using l(2) b el [of 0] by (simp add: set_mark_def Let_def)
  then show ?thesis using l(1) one k by (simp add: VM_MarkPagesUsed_def)
qed

text \<open>Where a linker script for the top two gigabytes puts the kernel image and its tables.\<close>

definition links_ok :: "link_map \<Rightarrow> bool" where
  "links_ok L \<longleftrightarrow>
     g_kernelProcess_at L \<noteq> 0 \<and> kernelPageMarks_at L \<noteq> 0 \<and> kernelPageMarks_at L AND 7 = 0 \<and>
     0 < unat (kernelPageTables_at L) \<and> unat (kernelPageTables_at L) + 2 ^ 21 \<le> 2 ^ 64 \<and>
     0xFFFFFFFF80002000 \<le> unat (KERNEL_START_ADDR L) \<and> unat (KERNEL_START_ADDR L) \<le> unat (KERNEL_END_ADDR L) \<and>
     unat (KERNEL_END_ADDR L) \<le> 0xFFFFFFFFB0000000"

lemma kernel_image_index:
  "0xFFFFFFFF80000000 \<le> unat b \<Longrightarrow> unat b < 0xFFFFFFFFC0000000 \<Longrightarrow> PDPT_GET_INDEX b = 510"
proof -
  assume "0xFFFFFFFF80000000 \<le> unat b" and "unat b < 0xFFFFFFFFC0000000"
  then have "unat b div 2 ^ 30 = 17179869182" by (intro div_nat_eqI) auto
  then show ?thesis by (simp add: index_unat)
qed

lemma image_tables:
  assumes "links_ok (links s)" and "kernelPageTablePointers t = kernelPageTablePointers (link_tables s)"
    and "0xFFFFFFFF80000000 \<le> unat b" and "unat b < 0xFFFFFFFFC0000000"
  shows "table_of t b \<noteq> 0"
proof -
  let ?T = "kernelPageTables_at (links s)" and ?d = "PDIR_GET_INDEX b"
  have d: "?d < 512" by (rule index_less)
  have "table_of t b = ?T + 4096 * of_nat ?d"
    using kernel_image_index [OF assms(3,4)] link_tables_pointers [OF d, of s] assms(2) by (simp add: table_of_def)
  also have "\<dots> = of_nat (unat ?T + 4096 * ?d)" by simp
  finally have "unat (table_of t b) = unat ?T + 4096 * ?d"
    using assms(1) d by (simp only: unat_of_nat) (simp add: links_ok_def)
  then show ?thesis using assms(1) by (auto simp: links_ok_def)
qed

text \<open>The page range of the kernel image.\<close>

definition image_start :: "link_map \<Rightarrow> u64" where
  "image_start L = ALIGN_DOWN (KERNEL_START_ADDR L) ARCH_PAGE_SIZE"

definition image_pages :: "link_map \<Rightarrow> u64" where
  "image_pages L = (ALIGN_UP (KERNEL_END_ADDR L) ARCH_PAGE_SIZE - image_start L) div ARCH_PAGE_SIZE"

lemma image_range:
  assumes "links_ok L"
  shows "0xFFFFFFFF80002000 \<le> unat (image_start L)" and "unat (image_start L) div 4096 * 4096 = unat (image_start L)"
    and "unat (image_start L) + 4096 * unat (image_pages L) < 0xFFFFFFFFC0000000"
    and "2 \<le> unat ((image_start L - KERNEL_VIRTUAL_BASE) div ARCH_PAGE_SIZE)"
proof -
  let ?a = "image_start L" and ?e = "ALIGN_UP (KERNEL_END_ADDR L) ARCH_PAGE_SIZE"
  have page: "ARCH_PAGE_SIZE = 2 ^ 12" by (simp add: ARCH_PAGE_SIZE_def)
  have ua: "unat ?a = unat (KERNEL_START_ADDR L) div 4096 * 4096"
    by (simp only: image_start_def page unat_ALIGN_DOWN) simp
  have ue: "unat ?e = (unat (KERNEL_END_ADDR L) + 4095) div 4096 * 4096"
    using assms unat_ALIGN_UP [of 12 "KERNEL_END_ADDR L"] by (simp add: page links_ok_def)
  have b: "0xFFFFFFFF80002000 \<le> unat (KERNEL_START_ADDR L)" "unat (KERNEL_START_ADDR L) \<le> unat (KERNEL_END_ADDR L)"
    "unat (KERNEL_END_ADDR L) \<le> 0xFFFFFFFFB0000000" using assms by (auto simp: links_ok_def)
  have "unat ?a \<le> unat (KERNEL_START_ADDR L)" "unat (KERNEL_END_ADDR L) \<le> unat ?e" "unat ?e \<le> unat (KERNEL_END_ADDR L) + 4095"
    unfolding ua ue
    using div_mult_mod_eq [of "unat (KERNEL_START_ADDR L)" 4096] div_mult_mod_eq [of "unat (KERNEL_END_ADDR L) + 4095" 4096]
      mod_less_divisor [of 4096 "unat (KERNEL_END_ADDR L) + 4095"] by linarith+
  moreover have "0xFFFFFFFF80002000 \<le> unat ?a"
    unfolding ua using div_le_mono [OF b(1), of 4096] by simp
  ultimately have lo: "0xFFFFFFFF80002000 \<le> unat ?a" "unat ?a \<le> unat ?e" "unat ?e < 0xFFFFFFFFC0000000"
    using b by linarith+
  show "0xFFFFFFFF80002000 \<le> unat ?a" by (rule lo)
  show "unat ?a div 4096 * 4096 = unat ?a" by (simp add: ua)
  have "unat (image_pages L) = (unat ?e - unat ?a) div 4096"
    using lo by (simp add: image_pages_def unat_div unat_sub word_le_nat_alt ARCH_PAGE_SIZE_def)
  then show "unat ?a + 4096 * unat (image_pages L) < 0xFFFFFFFFC0000000" using lo by linarith
  have "unat (?a - KERNEL_VIRTUAL_BASE) = unat ?a - 0xFFFFFFFF80000000"
    using lo(1) by (simp add: unat_sub word_le_nat_alt layout_simps)
  then show "2 \<le> unat ((?a - KERNEL_VIRTUAL_BASE) div ARCH_PAGE_SIZE)"
    using lo(1) by (simp add: unat_div ARCH_PAGE_SIZE_def)
qed

lemma image_mapping:
  assumes "links_ok (links s)" and "kernelPageTablePointers t = kernelPageTablePointers (link_tables s)"
  shows "\<exists>t'. MapVirtualAddress alloc pmap phys (image_start (links s)) (image_pages (links s)) flags t = Inr t' \<and>
    mem t' = mem t \<and> procs t' = procs t \<and> links t' = links t"
proof -
  let ?a = "image_start (links s)" and ?n = "image_pages (links s)"
  note r = image_range [OF assms(1)]
  have "table_of t b \<noteq> 0" if "vpn ?a \<le> vpn b" "vpn b < vpn ?a + unat ?n" for b
  proof -
    have "0xFFFFFFFF80000000 \<le> unat b" "unat b < 0xFFFFFFFFC0000000"
      using that r(1-3) unfolding vpn_def by linarith+
    then show ?thesis by (rule image_tables [OF assms])
  qed
  moreover have "kernel_addr ?a" "unat ?a + 4096 * unat ?n \<le> 2 ^ 64"
    using r(1,3) by (auto simp: kernel_addr_def)
  ultimately have "\<exists>T. MapVirtualAddress alloc pmap phys ?a ?n flags t = Inr (t\<lparr>page_tables := T\<rparr>)"
    unfolding MapVirtualAddress_def by (intro map_loop_tables) auto
  then show ?thesis by force
qed

text \<open>
  The start-up of virtual memory cannot finish within what C defines: the array of pointers
  to the marks overlaps the marks, so marking the first page below the kernel image makes the
  first pointer odd, and the next mark is accessed through it.
\<close>

lemma load_virtual_memory_misaligned:
  assumes "links_ok (links s)" and "procs s (PR_GetKernelProcess s) = Some p"
  shows "LoadVirtualMemory fuel s = Inl (Misaligned (kernelPageMarks_at (links s) OR 1))"
proof -
  let ?L = "links s" and ?k = "g_kernelProcess_at (links s)"
  have k: "PR_GetKernelProcess (link_tables s) = ?k" "PR_GetKernelProcess s = ?k" "links (link_tables s) = ?L"
    "procs (link_tables s) = procs s" using link_tables_keeps [of s] by (simp_all add: PR_GetKernelProcess_def)
  have nz: "?k \<noteq> 0" using assms(1) by (simp add: links_ok_def)
  obtain s1 where s1: "link_marks (link_tables s) = Inr s1" "mem s1 (kernelPageMarks_at ?L) = kernelPageMarks_at ?L"
      "links s1 = ?L" "kernelPageTablePointers s1 = kernelPageTablePointers (link_tables s)"
      "procs s1 ?k = Some (p\<lparr>m_Pagemap := kernelPages_at ?L, m_VirtuaPagesBitmap := kernelPageMarks_at ?L\<rparr>)"
    using link_marks_eq [of "link_tables s" p] assms(2) k nz by auto
  obtain s2 where s2: "MapVirtualAddress (AllocatePages fuel) (kernelPages_at ?L) (image_start ?L - KERNEL_VIRTUAL_BASE)
      (image_start ?L) (image_pages ?L) (PAGE_FLAG_PRESENT OR PAGE_FLAG_WRITABLE) s1 = Inr s2"
      "mem s2 = mem s1" "procs s2 = procs s1" "links s2 = ?L"
    using image_mapping [OF assms(1) s1(4)] s1(3) by metis
  have "VM_MarkPagesUsed ?k KERNEL_VIRTUAL_BASE ((image_start ?L - KERNEL_VIRTUAL_BASE) div ARCH_PAGE_SIZE) s2 =
      Inl (Misaligned (kernelPageMarks_at ?L OR 1))"
    using marks_clobbered [of s2 _ "kernelPageMarks_at ?L", OF _ _ _ _ _ _ image_range(4) [OF assms(1)]]
      s1(2,5) s2(2-4) nz assms(1)
    by (simp add: PR_GetKernelProcess_def links_ok_def)
  then show ?thesis
    using s1(1,3) s2(1) by (simp add: LoadVirtualMemory_def Let_def PR_GetKernelProcess_def image_start_def image_pages_def)
qed

end
