(* ===== verification/Page_Zone.thy ===== *)
theory Page_Zone
  imports Paging_Start
begin

text \<open>
  The part of \<^verbatim>\<open>Kernel/src/mm/page.c\<close> that connects the frame allocator to the page tables:
  \<^verbatim>\<open>PM_GetPage\<close>, \<^verbatim>\<open>PM_Free\<close>, \<^verbatim>\<open>PM_MarkPagesUsed\<close> and \<^verbatim>\<open>PM_LoadZoneRange\<close>, which gives the
  memory of a zone to the allocator in chunks of 4 MiB.  The results say how many chunks of a zone
  are given, in which order, and for which zones the loop never ends.
\<close>

section \<open>Descriptors of frames\<close>

definition PM_GetPage :: "u64 \<Rightarrow> 'a vm_state_scheme \<Rightarrow> u64 res" where
  "PM_GetPage phys s =
     (let page = KERNEL_PHYSICAL_PAGES + phys div ARCH_PAGE_SIZE * sizeof_pageframe
      in bind_res (IsPagePresent (VM_GetKernelPages s) page s) (\<lambda>b. Inr (if b then page else 0)))"

definition PM_Free :: "nat \<Rightarrow> u64 \<Rightarrow> 'a vm_state_scheme \<Rightarrow> 'a vm_state_scheme res" where
  "PM_Free fuel phys s = bind_res (PM_GetPage phys s) (\<lambda>pf. PM_FreePages fuel pf s)"

section \<open>Marking frames as used\<close>

text \<open>One pass of the loop for a descriptor that exists.\<close>

definition take_frame :: "u64 \<Rightarrow> 'a vm_state_scheme \<Rightarrow> 'a vm_state_scheme res" where
  "take_frame page s =
     bind_res (lock_frame page s) (\<lambda>s1.
     bind_res (load_frame page s1) (\<lambda>f.
     bind_res (list_remove page (store_frame page (f\<lparr>pf_free := False\<rparr>) s1)) (unlock_frame page)))"

fun mark_frames_loop :: "nat \<Rightarrow> u64 \<Rightarrow> u64 \<Rightarrow> 'a vm_state_scheme \<Rightarrow> 'a vm_state_scheme res" where
  "mark_frames_loop 0 current end_address s = Inl OutOfFuel"
| "mark_frames_loop (Suc fuel) current end_address s =
     (if current \<le> end_address
      then bind_res (PM_GetPage current s) (\<lambda>page.
           if page = 0 then mark_frames_loop fuel current end_address s
           else bind_res (take_frame page s) (mark_frames_loop fuel (current + ARCH_PAGE_SIZE) end_address))
      else Inr s)"

text \<open>
  The variable \<^verbatim>\<open>current\<close> has no initial value in the source; what is in its place is the
  parameter \<open>garbage\<close>.
\<close>

definition PM_MarkPagesUsed :: "nat \<Rightarrow> u64 \<Rightarrow> range_t \<Rightarrow> 'a vm_state_scheme \<Rightarrow> 'a vm_state_scheme res" where
  "PM_MarkPagesUsed fuel garbage zone s =
     (let start_address = ALIGN_DOWN (range_start zone) ARCH_PAGE_SIZE;
          end_address = ALIGN_UP (range_end zone) ARCH_PAGE_SIZE
      in mark_frames_loop fuel garbage end_address s)"

section \<open>Loading a zone\<close>

text \<open>
  A window of sixteen pages that has just been mapped shows the descriptors that are in the
  physical memory behind it: \<open>ram\<close> is that memory, read as descriptors.  A second window on the
  same memory shows what the first one shows.
\<close>

definition in_window :: "u64 \<Rightarrow> u64 \<Rightarrow> bool" where
  "in_window window a \<longleftrightarrow> a - window < 65536"

definition expose :: "(u64 \<Rightarrow> pageframe) \<Rightarrow> u64 \<Rightarrow> u64 \<Rightarrow> 'a vm_state_scheme \<Rightarrow> 'a vm_state_scheme" where
  "expose ram phys window s =
     s\<lparr>frames := (\<lambda>p. if in_window window p \<and> (p - window) AND 63 = 0
                      then Some (ram (phys + (p - window))) else frames s p)\<rparr>"

definition mirror :: "u64 \<Rightarrow> u64 \<Rightarrow> 'a vm_state_scheme \<Rightarrow> 'a vm_state_scheme" where
  "mirror window copy s =
     s\<lparr>frames := (\<lambda>p. if in_window copy p then frames s (window + (p - copy)) else frames s p),
       mem := (\<lambda>a. if in_window copy a then mem s (window + (a - copy)) else mem s a)\<rparr>"

definition descriptor_window :: "u64 \<Rightarrow> u64" where
  "descriptor_window current = KERNEL_PHYSICAL_PAGES + current div ARCH_PAGE_SIZE * sizeof_pageframe"

text \<open>
  One chunk: without a free block of sixteen frames the descriptors are put into the first
  frames of the chunk itself, otherwise into a second block of sixteen frames.
\<close>

definition load_chunk :: "nat \<Rightarrow> (u64 \<Rightarrow> pageframe) \<Rightarrow> u64 \<Rightarrow> 'a vm_state_scheme \<Rightarrow> 'a vm_state_scheme res" where
  "load_chunk fuel ram current s =
     bind_res (PM_AllocatePages fuel 4 s) (\<lambda>(alloc_space, s1).
     if alloc_space = 0
     then
       bind_res (VM_AllocatePages (AllocatePages fuel) (PR_GetKernelProcess s1) 16 s1) (\<lambda>(virt, s2).
       bind_res (MapVirtualAddress (AllocatePages fuel) (VM_GetKernelPages s2) current virt 16
                   PAGE_FLAG_WRITABLE s2) (\<lambda>s3.
       bind_res (write_pages virt current (expose ram current virt s3)) (\<lambda>s4.
       bind_res (PM_AllocatePages fuel 4 s4) (\<lambda>(page, s5).
       bind_res (load_frame page s5) (\<lambda>_.
       bind_res (MapVirtualAddress (AllocatePages fuel) (VM_GetKernelPages s5) current
                   (descriptor_window current) 16 PAGE_FLAG_WRITABLE s5) (\<lambda>s6.
       Inr (mirror virt (descriptor_window current) s6)))))))
     else
       bind_res (PM_AllocatePages fuel 4 s1) (\<lambda>(page, s2).
       bind_res (load_frame page s2) (\<lambda>f.
       bind_res (MapVirtualAddress (AllocatePages fuel) (VM_GetKernelPages s2) (pf_addr f)
                   (descriptor_window current) 16 (PAGE_FLAG_PRESENT OR PAGE_FLAG_WRITABLE) s2) (\<lambda>s3.
       write_pages (descriptor_window current) current
         (expose ram (pf_addr f) (descriptor_window current) s3)))))"

fun zone_loop :: "nat \<Rightarrow> nat \<Rightarrow> (u64 \<Rightarrow> pageframe) \<Rightarrow> u64 \<Rightarrow> u64 \<Rightarrow> 'a vm_state_scheme \<Rightarrow> 'a vm_state_scheme res" where
  "zone_loop 0 fuel ram current end_address s = Inl OutOfFuel"
| "zone_loop (Suc n) fuel ram current end_address s =
     (if current < end_address - PAGE_MAX_SIZE
      then if current < 0x100000 then zone_loop n fuel ram current end_address s
           else bind_res (load_chunk fuel ram current s) (zone_loop n fuel ram (current + PAGE_MAX_SIZE) end_address)
      else Inr s)"

definition PM_LoadZoneRange ::
  "nat \<Rightarrow> nat \<Rightarrow> (u64 \<Rightarrow> pageframe) \<Rightarrow> range_t \<Rightarrow> 'a vm_state_scheme \<Rightarrow> 'a vm_state_scheme res" where
  "PM_LoadZoneRange n fuel ram zone s =
     (let start_address = ALIGN_UP (range_start zone) PAGE_MAX_SIZE;
          end_address = ALIGN_DOWN (range_end zone) PAGE_MAX_SIZE
      in if start_address \<ge> end_address then Inr (say ''[MEMORY] Entry ignored.'' s)
         else bind_res (zone_loop n fuel ram start_address end_address (say ''[MEMORY] Entry loading...'' s))
                (\<lambda>s1. Inr (say ''[MEMORY] Entry loaded'' s1)))"

text \<open>What the loop should amount to: the chunks of a list, one after the other.\<close>

fun load_chunks :: "nat \<Rightarrow> (u64 \<Rightarrow> pageframe) \<Rightarrow> u64 list \<Rightarrow> 'a vm_state_scheme \<Rightarrow> 'a vm_state_scheme res" where
  "load_chunks fuel ram [] s = Inr s"
| "load_chunks fuel ram (c # cs) s = bind_res (load_chunk fuel ram c s) (load_chunks fuel ram cs)"

section \<open>Results\<close>

lemma PAGE_MAX_SIZE_pow: "PAGE_MAX_SIZE = 2 ^ 22"
  by (simp add: PAGE_MAX_SIZE_def)

lemma unat_PAGE_MAX_SIZE: "unat PAGE_MAX_SIZE = 4194304"
  by (simp add: PAGE_MAX_SIZE_def)

lemma zone_start_zero: "ALIGN_UP 0 PAGE_MAX_SIZE = 0"
  by (simp add: ALIGN_UP_def PAGE_MAX_SIZE_def)

lemma zone_loop_stuck:
  "current < end_address - PAGE_MAX_SIZE \<Longrightarrow> current < 0x100000 \<Longrightarrow>
   zone_loop n fuel ram current end_address s = Inl OutOfFuel"
  by (induction n) simp_all

lemma zone_loop_chunks:
  fixes s :: "'a vm_state_scheme"
  assumes "m < n" and "0x100000 \<le> unat current"
    and "unat current + m * 4194304 + 4194304 = unat end_address"
  shows "zone_loop n fuel ram current end_address s =
         load_chunks fuel ram (map (\<lambda>i. current + of_nat i * PAGE_MAX_SIZE) [0..<m]) s"
  using assms
proof (induction m arbitrary: n current s)
  case 0
  have "unat (end_address - PAGE_MAX_SIZE) = unat current"
    using "0.prems" by (subst unat_sub) (simp_all add: word_le_nat_alt unat_PAGE_MAX_SIZE)
  with "0.prems"(1) show ?case by (cases n) (simp_all add: word_less_nat_alt)
next
  case (Suc m)
  obtain k where k: "n = Suc k" using Suc.prems(1) by (cases n) simp_all
  have e: "unat (end_address - PAGE_MAX_SIZE) = unat end_address - 4194304"
    using Suc.prems by (subst unat_sub) (simp_all add: word_le_nat_alt unat_PAGE_MAX_SIZE)
  have lt: "current < end_address - PAGE_MAX_SIZE" "\<not> current < 0x100000"
    using Suc.prems e by (simp_all add: word_less_nat_alt)
  have nx: "unat (current + PAGE_MAX_SIZE) = unat current + 4194304"
    using Suc.prems(3) unsigned_less [of end_address, where ?'a = nat]
    by (subst unat_add_lem [THEN iffD1]) (simp_all add: unat_PAGE_MAX_SIZE)
  have shift: "map (\<lambda>i. current + of_nat i * PAGE_MAX_SIZE) [0..<Suc m] =
    current # map (\<lambda>i. current + PAGE_MAX_SIZE + of_nat i * PAGE_MAX_SIZE) [0..<m]"
    by (simp only: upt_conv_Cons map_Suc_upt [symmetric] zero_less_Suc list.map map_map)
      (simp add: algebra_simps)
  have rest: "zone_loop k fuel ram (current + PAGE_MAX_SIZE) end_address =
    (load_chunks fuel ram (map (\<lambda>i. current + PAGE_MAX_SIZE + of_nat i * PAGE_MAX_SIZE) [0..<m]) :: 'a vm_state_scheme \<Rightarrow> _)"
    using Suc.prems k nx by (intro ext Suc.IH) simp_all
  show ?case using lt by (simp only: k shift zone_loop.simps load_chunks.simps rest if_True if_False)
qed

lemma unat_end_zone: "unat (ALIGN_DOWN a PAGE_MAX_SIZE) = unat a div 4194304 * 4194304"
  by (simp only: PAGE_MAX_SIZE_pow unat_ALIGN_DOWN) simp


definition zero_ram :: "u64 \<Rightarrow> pageframe" where
  "zero_ram = (\<lambda>_. \<lparr>pf_order = 0, pf_free = False, pf_kmem = False, pf_ign = 0, slab_inuse = 0,
     slab_objects = 0, slab_frozen = False, slabCache = 0, pf_objects = 0, pf_lock = 0, pf_addr = 0\<rparr>)"


text \<open>
  A zone that begins at address 0 and ends at or above 8 MiB is never loaded: the loop that
  skips the first mebibyte does not move on, so no number of passes is enough.
\<close>

theorem load_zone_from_zero_hangs:
  assumes "range_start r = 0" and "0x800000 \<le> range_end r"
  shows "PM_LoadZoneRange n fuel ram r s = Inl OutOfFuel"
proof -
  let ?e = "ALIGN_DOWN (range_end r) PAGE_MAX_SIZE"
  have "8388608 \<le> unat (range_end r)" using assms(2) by (simp add: word_le_nat_alt)
  then have e: "8388608 \<le> unat ?e" by (simp add: unat_end_zone)
  then have "0 < ?e - PAGE_MAX_SIZE" "0 < ?e"
    by (auto simp: word_less_nat_alt unat_sub word_le_nat_alt unat_PAGE_MAX_SIZE)
  then show ?thesis
    by (simp add: PM_LoadZoneRange_def Let_def zone_start_zero assms(1) zone_loop_stuck)
qed

theorem load_zone_from_zero_hangs_witness:
  "PM_LoadZoneRange 1000 5 zero_ram \<lparr>range_start = 0, range_end = 0x40000000\<rparr> demo_vm = Inl OutOfFuel"
  using load_zone_from_zero_hangs [of "\<lparr>range_start = 0, range_end = 0x40000000\<rparr>"] by simp

lemma mark_frames_stuck:
  "current \<le> end_address \<Longrightarrow> PM_GetPage current s = Inr 0 \<Longrightarrow> mark_frames_loop n current end_address s = Inl OutOfFuel"
  by (induction n) simp_all

end
