(* ===== verification/Slub.thy ===== *)
theory Slub
  imports Page_Zone "HOL-Library.Signed_Division"
begin

text \<open>
  The object allocator of \<^verbatim>\<open>Kernel/src/mm/slub.c\<close> on top of the page allocator.  A cache
  descriptor lives in the word memory at the offsets the compiler gives to the members of
  \<^verbatim>\<open>struct KMemoryCache\<close>, because the source places the node descriptors on top of it and the
  overlap decides what the code does.  Variables that the source reads before it has set them are
  parameters of the definitions.
\<close>

section \<open>Layout\<close>

text \<open>
  Offsets in \<^verbatim>\<open>struct KMemoryCache\<close> (with 256 entries of 32 bytes in \<^verbatim>\<open>cpu_slab\<close>), in
  \<^verbatim>\<open>struct KCpuCache\<close> and in \<^verbatim>\<open>struct KMemoryNode\<close>.
\<close>

definition MAX_CPU_AMOUNT :: nat where "MAX_CPU_AMOUNT = 256"
definition MAX_NUMA_COUNT :: nat where "MAX_NUMA_COUNT = 4"
definition SLAB_MAX_BLOCK_ORDER :: nat where "SLAB_MAX_BLOCK_ORDER = 16"
definition SLAB_MAX_STRUCT_ORDER :: nat where "SLAB_MAX_STRUCT_ORDER = 1"
definition SLAB_MAX_SIZE :: u64 where "SLAB_MAX_SIZE = 8192"

definition cache_cpu_slab :: "u64 \<Rightarrow> nat \<Rightarrow> u64" where
  "cache_cpu_slab cache i = cache + 24 + 32 * of_nat i"

definition cpu_freelist_of :: "u64 \<Rightarrow> u64" where "cpu_freelist_of slabCpu = slabCpu"
definition cpu_page_of :: "u64 \<Rightarrow> u64" where "cpu_page_of slabCpu = slabCpu + 8"
definition cpu_partial_of :: "u64 \<Rightarrow> u64" where "cpu_partial_of slabCpu = slabCpu + 16"

definition cache_flags_of :: "u64 \<Rightarrow> u64" where "cache_flags_of cache = cache + 8216"
definition cache_size_of :: "u64 \<Rightarrow> u64" where "cache_size_of cache = cache + 8224"
definition cache_node_of :: "u64 \<Rightarrow> nat \<Rightarrow> u64" where "cache_node_of cache i = cache + 8240 + 8 * of_nat i"
definition cache_reserved_of :: "u64 \<Rightarrow> u64" where "cache_reserved_of cache = cache + 8280"

definition sizeof_KMemoryNode :: u64 where "sizeof_KMemoryNode = 32"
definition node_lock_of :: "u64 \<Rightarrow> u64" where "node_lock_of node = node"
definition nr_partial_of :: "u64 \<Rightarrow> u64" where "nr_partial_of node = node + 8"
definition node_partial_of :: "u64 \<Rightarrow> u64" where "node_partial_of node = node + 16"

lemmas slab_layout =
  cache_cpu_slab_def cpu_freelist_of_def cpu_page_of_def cpu_partial_of_def cache_flags_of_def
  cache_size_of_def cache_node_of_def cache_reserved_of_def sizeof_KMemoryNode_def
  node_lock_of_def nr_partial_of_def node_partial_of_def
  MAX_CPU_AMOUNT_def MAX_NUMA_COUNT_def SLAB_MAX_BLOCK_ORDER_def SLAB_MAX_SIZE_def

definition sizeof_Thread :: nat where "sizeof_Thread = 432"

definition blockSize :: "nat list" where
  "blockSize = [8, 16, 32, 48, 64, 96, 128, 192, 256, 512, 768, 1024, 1536, 2048, 4096, 8192, sizeof_Thread]"

record slab_state = vm_state +
  g_cachePointers :: "nat \<Rightarrow> u64"
  g_cacheList_at :: u64

text \<open>Members of 32 bits are the low or the high half of a cell.\<close>

definition load32 :: "u64 \<Rightarrow> wmem \<Rightarrow> u32" where
  "load32 a m = (if a AND 4 = 0 then ucast (m a) else ucast (drop_bit 32 (m (a - 4))))"

definition store32 :: "u64 \<Rightarrow> u32 \<Rightarrow> wmem \<Rightarrow> wmem" where
  "store32 a v m =
     (if a AND 4 = 0 then m(a := push_bit 32 (drop_bit 32 (m a)) OR ucast v)
      else m(a - 4 := push_bit 32 (ucast v) OR (m (a - 4) AND mask 32)))"

definition write_mem :: "u64 \<Rightarrow> u64 \<Rightarrow> 'a slab_state_scheme \<Rightarrow> 'a slab_state_scheme" where
  "write_mem a v s = s\<lparr>mem := (mem s)(a := v)\<rparr>"

definition write_mem32 :: "u64 \<Rightarrow> u32 \<Rightarrow> 'a slab_state_scheme \<Rightarrow> 'a slab_state_scheme" where
  "write_mem32 a v s = s\<lparr>mem := store32 a v (mem s)\<rparr>"

definition deref :: "u64 \<Rightarrow> 'a slab_state_scheme \<Rightarrow> u64 res" where
  "deref p s = (if p = 0 then Inl NullDeref else Inr (mem s p))"

section \<open>Caches and pages\<close>

text \<open>
  The index into \<^verbatim>\<open>blockSize\<close> is the variable that is being initialised, \<open>junk\<close>.  The source
  counts the bytes that are left over only when there are some.
\<close>

definition slab_SetCache ::
  "int \<Rightarrow> u64 \<Rightarrow> nat \<Rightarrow> u64 \<Rightarrow> 'a slab_state_scheme \<Rightarrow> 'a slab_state_scheme res" where
  "slab_SetCache junk cache order flags s =
     (if cache = 0 then Inl (Panic ''INVALID ADDRESS'')
      else if junk < 0 \<or> junk \<ge> int (length blockSize) then Inl OutOfBounds
      else
        let sz = blockSize ! nat junk;
            s1 = write_mem (cache_flags_of cache) flags (write_mem32 (cache_size_of cache) (of_nat sz) s);
            s2 = (if 4096 mod sz \<noteq> 0
                  then write_mem32 (cache_reserved_of cache) (of_nat (4096 - 4096 div sz * sz)) s1 else s1);
            s3 = fold (\<lambda>idx. write_mem (cpu_freelist_of (cache_cpu_slab cache idx)) 0) [0..<MAX_CPU_AMOUNT] s2;
            s4 = fold (\<lambda>idx. write_mem (cache_node_of cache idx) (cache + of_nat idx * sizeof_KMemoryNode))
                   [0..<MAX_NUMA_COUNT] s3;
            s5 = list_append (g_cacheList_at s4) cache s4
        in bind_res (check_index SLAB_MAX_BLOCK_ORDER order) (\<lambda>_.
           Inr (s5\<lparr>g_cachePointers := (g_cachePointers s5)(order := cache)\<rparr>)))"

text \<open>The links between the objects of a page, \<open>n\<close> of them from number \<open>idx\<close> on.\<close>

fun link_objects :: "nat \<Rightarrow> nat \<Rightarrow> u64 \<Rightarrow> u64 \<Rightarrow> 'a slab_state_scheme \<Rightarrow> 'a slab_state_scheme" where
  "link_objects 0 idx virt sz s = s"
| "link_objects (Suc n) idx virt sz s =
     link_objects n (Suc idx) virt sz (write_mem (virt + of_nat idx * sz) (virt + of_nat (Suc idx) * sz) s)"

text \<open>
  The number of objects is a bit field of 15 bits; one less is an \<^verbatim>\<open>int\<close>, which the comparison
  converts to 64 bits.
  The source reads \<^verbatim>\<open>cache->size\<close> again for every link; the model reads it once, so it speaks of pages that do not
  overlap the descriptor of their cache.
\<close>

definition slab_SetPage :: "u64 \<Rightarrow> u64 \<Rightarrow> u64 \<Rightarrow> 'a slab_state_scheme \<Rightarrow> 'a slab_state_scheme res" where
  "slab_SetPage cache page virt s =
     bind_res (load_frame page s) (\<lambda>f.
     let sz = load32 (cache_size_of cache) (mem s);
         reserved = load32 (cache_reserved_of cache) (mem s)
     in
     if sz = 0 then Inl DivideError
     else
       let objects = word_of_int (sint (4096 - reserved) sdiv sint sz) :: 15 word;
           s1 = store_frame page (f\<lparr>pf_kmem := True, slabCache := cache, pf_objects := virt,
                  slab_objects := objects, slab_inuse := 0\<rparr>) s
       in Inr (link_objects (unat (word_of_int (uint objects - 1) :: u64)) 0 virt (scast sz) s1))"

definition slab_RequestPage :: "nat \<Rightarrow> u64 \<Rightarrow> 'a slab_state_scheme \<Rightarrow> (u64 \<times> 'a slab_state_scheme) res" where
  "slab_RequestPage fuel cache s =
     bind_res (AllocatePages fuel (PR_GetKernelProcess s) 1 s) (\<lambda>(virt, s1).
     if virt = 0 then Inl (Panic '''')
     else
       bind_res (PM_GetPage (ConvertVirtToPhys (VM_GetKernelPages s1) virt s1) s1) (\<lambda>page.
       bind_res (slab_SetPage cache page virt s1) (\<lambda>s2. Inr (page, s2))))"

definition KM_GetSlabCpu :: "u64 \<Rightarrow> 'a slab_state_scheme \<Rightarrow> u64 res" where
  "KM_GetSlabCpu cache s =
     bind_res (check_index MAX_CPU_AMOUNT (core_id s)) (\<lambda>_. Inr (cache_cpu_slab cache (core_id s)))"

fun find_order :: "nat \<Rightarrow> nat \<Rightarrow> u64 \<Rightarrow> nat option" where
  "find_order 0 order sz = None"
| "find_order (Suc n) order sz =
     (if of_nat (blockSize ! order) > sz then Some order else find_order n (Suc order) sz)"

text \<open>When no class is found the variable \<^verbatim>\<open>cache\<close> has not been set.\<close>

definition KM_FindCache :: "u64 \<Rightarrow> u64 \<Rightarrow> 'a slab_state_scheme \<Rightarrow> u64" where
  "KM_FindCache junk sz s =
     (if sz > SLAB_MAX_SIZE then 0
      else case find_order 16 0 sz of None \<Rightarrow> junk | Some order \<Rightarrow> g_cachePointers s order)"

text \<open>
  In the second branch the source declares another variable \<^verbatim>\<open>page\<close>, so the value returned is
  that of the outer one, which has not been set.
\<close>

definition slab_GetPartialPage ::
  "nat \<Rightarrow> u64 \<Rightarrow> u64 \<Rightarrow> 'a slab_state_scheme \<Rightarrow> (u64 \<times> 'a slab_state_scheme) res" where
  "slab_GetPartialPage fuel junk cache s =
     (let node = mem s (cache_node_of cache 0) in
      if node = 0 then Inl NullDeref
      else
        bind_res (AcquireLock (load32 (node_lock_of node) (mem s))) (\<lambda>v.
        let s1 = write_mem32 (node_lock_of node) v s in
        bind_res
          (if mem s1 (nr_partial_of node) = 0 then slab_RequestPage fuel cache s1
           else
             let page = node_next (mem s1) (node_partial_of node);
                 s2 = write_mem (nr_partial_of node) (mem s1 (nr_partial_of node) - 1) s1
             in bind_res (list_remove page s2) (\<lambda>s3. Inr (junk, s3))) (\<lambda>(page, s4).
        Inr (page, write_mem32 (node_lock_of node) (ReleaseLock (load32 (node_lock_of node) (mem s4))) s4))))"

text \<open>The loop variable starts with the value \<open>idx\<close> that was in its place.\<close>

fun init_caches :: "nat \<Rightarrow> nat \<Rightarrow> (nat \<Rightarrow> int) \<Rightarrow> nat \<Rightarrow> 'a slab_state_scheme \<Rightarrow> 'a slab_state_scheme res" where
  "init_caches 0 fuel junk idx s = Inr s"
| "init_caches (Suc n) fuel junk idx s =
     bind_res (AllocatePages fuel (PR_GetKernelProcess s) 4 s) (\<lambda>(cache, s1).
     bind_res (slab_SetCache (junk idx) cache idx 0 s1) (init_caches n fuel junk (Suc idx)))"

definition KM_Initialize :: "nat \<Rightarrow> (nat \<Rightarrow> int) \<Rightarrow> u64 \<Rightarrow> 'a slab_state_scheme \<Rightarrow> 'a slab_state_scheme res" where
  "KM_Initialize fuel junk idx s = init_caches (length blockSize - unat idx) fuel junk (unat idx) s"

section \<open>Objects\<close>

definition slab_AssignCpuSlab :: "u64 \<Rightarrow> u64 \<Rightarrow> 'a slab_state_scheme \<Rightarrow> 'a slab_state_scheme res" where
  "slab_AssignCpuSlab slabCpu page s =
     bind_res (list_remove page s) (\<lambda>s1.
     bind_res (load_frame page s1) (\<lambda>f.
     Inr (store_frame page (f\<lparr>slab_frozen := True\<rparr>)
            (write_mem (cpu_page_of slabCpu) page (write_mem (cpu_freelist_of slabCpu) (pf_objects f) s1)))))"

text \<open>Path 1: the list of the processor has an object.\<close>

definition fastest_path ::
  "nat \<Rightarrow> u64 \<Rightarrow> u64 \<Rightarrow> u64 \<Rightarrow> u64 \<Rightarrow> u64 \<Rightarrow> 'a slab_state_scheme \<Rightarrow> (u64 \<times> 'a slab_state_scheme) res" where
  "fastest_path fuel junk cache slabCpu page ptr s =
     bind_res (deref ptr s) (\<lambda>nxt.
     let s1 = write_mem (cpu_freelist_of slabCpu) nxt s in
     bind_res (load_frame page s1) (\<lambda>f.
     let g = f\<lparr>pf_objects := nxt, slab_inuse := slab_inuse f + 1\<rparr>;
         s2 = store_frame page g s1
     in
     if unat (slab_inuse g) = unat (slab_objects g)
     then bind_res (slab_GetPartialPage fuel junk cache s2) (\<lambda>(page', s3).
          bind_res (slab_AssignCpuSlab slabCpu page' s3) (\<lambda>s4. Inr (ptr, s4)))
     else Inr (ptr, s2)))"

text \<open>Taking the first object of a page, and the number in use after it.\<close>

definition pop_object :: "u64 \<Rightarrow> 'a slab_state_scheme \<Rightarrow> (u64 \<times> pageframe \<times> 'a slab_state_scheme) res" where
  "pop_object page s =
     bind_res (load_frame page s) (\<lambda>f.
     bind_res (deref (pf_objects f) s) (\<lambda>nxt.
     let g = f\<lparr>pf_objects := nxt, slab_inuse := slab_inuse f + 1\<rparr>
     in Inr (pf_objects f, g, store_frame page g s)))"

text \<open>Paths 3 and 4: a new page.  The test of the node in between has an empty body.\<close>

definition slow_path :: "nat \<Rightarrow> u64 \<Rightarrow> u64 \<Rightarrow> 'a slab_state_scheme \<Rightarrow> (u64 \<times> 'a slab_state_scheme) res" where
  "slow_path fuel cache slabCpu s =
     bind_res (deref (mem s (cache_node_of cache 0)) s) (\<lambda>_.
     bind_res (slab_RequestPage fuel cache s) (\<lambda>(page, s1).
     bind_res (slab_AssignCpuSlab slabCpu page s1) (\<lambda>s2.
     bind_res (pop_object page s2) (\<lambda>(ptr, g, s3). Inr (ptr, s3)))))"

text \<open>
  The labels of the source: one unit of \<open>jumps\<close> for each arrival at \<^verbatim>\<open>FASTEST_PATH\<close>.  Path 2
  ends in the slow path when it has taken an object from a page, and forgets that object.
\<close>

fun allocate_paths ::
  "nat \<Rightarrow> nat \<Rightarrow> u64 \<Rightarrow> u64 \<Rightarrow> u64 \<Rightarrow> u64 \<Rightarrow> 'a slab_state_scheme \<Rightarrow> (u64 \<times> 'a slab_state_scheme) res" where
  "allocate_paths 0 fuel junk cache slabCpu page s = Inl OutOfFuel"
| "allocate_paths (Suc jumps) fuel junk cache slabCpu page s =
     (let ptr = mem s (cpu_freelist_of slabCpu) in
      if ptr \<noteq> 0 then fastest_path fuel junk cache slabCpu page ptr s
      else
        let first_page = node_next (mem s) (cpu_partial_of slabCpu) in
        if first_page \<noteq> 0
        then
          bind_res (slab_AssignCpuSlab slabCpu first_page s) (\<lambda>s1.
          let second_page = node_next (mem s1) (cpu_partial_of slabCpu) in
          if second_page \<noteq> 0
          then
            bind_res (pop_object second_page s1) (\<lambda>(_, g, s2).
            bind_res (if unat (slab_inuse g) = unat (slab_objects g) then list_remove second_page s2 else Inr s2)
              (slow_path fuel cache slabCpu))
          else allocate_paths jumps fuel junk cache slabCpu page s1)
        else slow_path fuel cache slabCpu s)"

definition slab_AllocateObject ::
  "nat \<Rightarrow> nat \<Rightarrow> u64 \<Rightarrow> u64 \<Rightarrow> 'a slab_state_scheme \<Rightarrow> (u64 \<times> 'a slab_state_scheme) res" where
  "slab_AllocateObject jumps fuel junk cache s =
     (if cache = 0 then Inl (Panic ''Null Pointer for cache while allocating kernel memory.'')
      else
        bind_res (KM_GetSlabCpu cache s) (\<lambda>slabCpu.
        allocate_paths jumps fuel junk cache slabCpu (mem s (cpu_page_of slabCpu)) s))"

definition KernelStructThread :: nat where "KernelStructThread = 16"

definition KM_AllocateStruct ::
  "nat \<Rightarrow> nat \<Rightarrow> u64 \<Rightarrow> nat \<Rightarrow> 'a slab_state_scheme \<Rightarrow> (u64 \<times> 'a slab_state_scheme) res" where
  "KM_AllocateStruct jumps fuel junk sid s =
     (if sid < SLAB_MAX_BLOCK_ORDER \<or> sid > 16 then Inl (Panic ''Kernel Struct Index out of bound.'')
      else bind_res (check_index SLAB_MAX_BLOCK_ORDER sid) (\<lambda>_.
           slab_AllocateObject jumps fuel junk (g_cachePointers s sid) s))"

definition KM_Allocate ::
  "nat \<Rightarrow> nat \<Rightarrow> u64 \<Rightarrow> u64 \<Rightarrow> u32 \<Rightarrow> 'a slab_state_scheme \<Rightarrow> (u64 \<times> 'a slab_state_scheme) res" where
  "KM_Allocate jumps fuel junk junk_cache sz s =
     slab_AllocateObject jumps fuel junk (KM_FindCache junk_cache (ucast sz) s) s"

definition KM_Free :: "u64 \<Rightarrow> 'a slab_state_scheme \<Rightarrow> 'a slab_state_scheme" where
  "KM_Free addr s = s"

text \<open>The interface of \<^verbatim>\<open>Kernel/src/mm/malloc.c\<close>.\<close>

definition KernelAllocateObject ::
  "nat \<Rightarrow> nat \<Rightarrow> u64 \<Rightarrow> u64 \<Rightarrow> u64 \<Rightarrow> 'a slab_state_scheme \<Rightarrow> (u64 \<times> 'a slab_state_scheme) res" where
  "KernelAllocateObject jumps fuel junk junk_cache sz s = KM_Allocate jumps fuel junk junk_cache (ucast sz) s"

definition KernelAllocateStruct ::
  "nat \<Rightarrow> nat \<Rightarrow> u64 \<Rightarrow> nat \<Rightarrow> 'a slab_state_scheme \<Rightarrow> (u64 \<times> 'a slab_state_scheme) res" where
  "KernelAllocateStruct jumps fuel junk sid s = KM_AllocateStruct jumps fuel junk sid s"

definition KernelFreeObject :: "u64 \<Rightarrow> 'a slab_state_scheme \<Rightarrow> 'a slab_state_scheme" where
  "KernelFreeObject address s = s"

end
