(* ===== verification/CString.thy ===== *)
theory CString
  imports Kernel_Prelude
begin

text \<open>
  The string functions of \<^verbatim>\<open>Kernel/src/string.c\<close> and the block functions of
  \<^verbatim>\<open>Kernel/src/mm/memory.c\<close> on byte memory.  A loop over a string ends only at a zero byte,
  so the loops are partial functions with \<open>None\<close> for a call that does not return; the lemmas
  show that they return on zero-terminated strings, what they return and which bytes they write.
  The type \<^verbatim>\<open>char\<close> is signed.
\<close>

type_synonym bmem = "u64 \<Rightarrow> u8"

section \<open>Blocks of bytes\<close>

fun memset_loop :: "u64 \<Rightarrow> u8 \<Rightarrow> nat \<Rightarrow> bmem \<Rightarrow> bmem" where
  "memset_loop xs val 0 m = m"
| "memset_loop xs val (Suc count) m = memset_loop (xs + 1) val count (m(xs := val))"

definition memset :: "u64 \<Rightarrow> 32 word \<Rightarrow> u64 \<Rightarrow> bmem \<Rightarrow> u64 \<times> bmem" where
  "memset addr val count m = (addr, memset_loop addr (ucast val) (unat count) m)"

text \<open>A copy of \<open>w\<close> bytes as one unit: all bytes are read before the first is written.\<close>

definition copy_unit :: "nat \<Rightarrow> u64 \<Rightarrow> u64 \<Rightarrow> bmem \<Rightarrow> bmem" where
  "copy_unit w dp sp m =
     fold (\<lambda>(k, b) m'. m'(dp + of_nat k := b)) (map (\<lambda>k. (k, m (sp + of_nat k))) [0..<w]) m"

fun copy_loop :: "nat \<Rightarrow> nat \<Rightarrow> u64 \<Rightarrow> u64 \<Rightarrow> bmem \<Rightarrow> u64 \<times> u64 \<times> bmem" where
  "copy_loop w 0 dp sp m = (dp, sp, m)"
| "copy_loop w (Suc n) dp sp m = copy_loop w n (dp + of_nat w) (sp + of_nat w) (copy_unit w dp sp m)"

text \<open>Both pointers start at \<open>addr\<close>, as in the source.\<close>

definition memcpy :: "u64 \<Rightarrow> u64 \<Rightarrow> u64 \<Rightarrow> bmem \<Rightarrow> u64 \<times> bmem" where
  "memcpy dest addr count m =
     (let sp = addr; dp = addr; n = unat count;
          (dp, sp, m) = copy_loop 8 (n div 8) dp sp m; n = n mod 8;
          (dp, sp, m) = copy_loop 4 (n div 4) dp sp m; n = n mod 4;
          (dp, sp, m) = copy_loop 1 n dp sp m
      in (dest, m))"

fun memcmp_loop :: "nat \<Rightarrow> u64 \<Rightarrow> u64 \<Rightarrow> bmem \<Rightarrow> int" where
  "memcmp_loop 0 a b m = 0"
| "memcmp_loop (Suc n) a b m =
     (if m a \<noteq> m b then uint (m a) - uint (m b) else memcmp_loop n (a + 1) (b + 1) m)"

definition memcmp :: "u64 \<Rightarrow> u64 \<Rightarrow> u64 \<Rightarrow> bmem \<Rightarrow> int" where
  "memcmp s1 s2 n m = memcmp_loop (unat n) s1 s2 m"

section \<open>Strings\<close>

partial_function (option) strcpy :: "u64 \<Rightarrow> u64 \<Rightarrow> bmem \<Rightarrow> bmem option" where
  [code]: "strcpy dest src m =
     (if m src \<noteq> 0 then strcpy (dest + 1) (src + 1) (m(dest := m src)) else Some (m(dest := 0)))"

text \<open>The counter is tested before the byte is read, and the final zero is always written.\<close>

fun strncpy_loop :: "nat \<Rightarrow> u64 \<Rightarrow> u64 \<Rightarrow> bmem \<Rightarrow> bmem" where
  "strncpy_loop 0 dest src m = m(dest := 0)"
| "strncpy_loop (Suc n) dest src m =
     (if m src \<noteq> 0 then strncpy_loop n (dest + 1) (src + 1) (m(dest := m src)) else m(dest := 0))"

definition strncpy :: "u64 \<Rightarrow> u64 \<Rightarrow> u64 \<Rightarrow> bmem \<Rightarrow> bmem" where
  "strncpy dest src n m = strncpy_loop (unat n) dest src m"

partial_function (option) strlen_loop :: "u64 \<Rightarrow> u64 \<Rightarrow> bmem \<Rightarrow> u64 option" where
  [code]: "strlen_loop str i m = (if m (str + i) \<noteq> 0 then strlen_loop str (i + 1) m else Some i)"

definition strlen :: "u64 \<Rightarrow> bmem \<Rightarrow> u64 option" where
  "strlen str m = strlen_loop str 0 m"

partial_function (option) strcmp :: "u64 \<Rightarrow> u64 \<Rightarrow> bmem \<Rightarrow> int option" where
  [code]: "strcmp s1 s2 m =
     (if m s1 = m s2
      then if m s1 = 0 then Some 0 else strcmp (s1 + 1) (s2 + 1) m
      else Some (sint (m s1) - sint (m s2)))"

fun strncmp_loop :: "nat \<Rightarrow> u64 \<Rightarrow> u64 \<Rightarrow> bmem \<Rightarrow> int" where
  "strncmp_loop 0 s1 s2 m = 0"
| "strncmp_loop (Suc n) s1 s2 m =
     (if m s1 \<noteq> m s2 then if sint (m s1) < sint (m s2) then - 1 else 1
      else if m s1 = 0 then 0
      else strncmp_loop n (s1 + 1) (s2 + 1) m)"

definition strncmp :: "u64 \<Rightarrow> u64 \<Rightarrow> u64 \<Rightarrow> bmem \<Rightarrow> int" where
  "strncmp s1 s2 n m = strncmp_loop (unat n) s1 s2 m"

partial_function (option) strchr :: "u64 \<Rightarrow> u8 \<Rightarrow> bmem \<Rightarrow> u64 option" where
  [code]: "strchr s c m = (if m s \<noteq> c then if m s = 0 then Some 0 else strchr (s + 1) c m else Some s)"

text \<open>
  The counter is decremented on every test, also on the one that ends the loop: it wraps around
  to \<open>2 ^ 64 - 1\<close> when the search is exhausted.
\<close>

fun strnchr_loop :: "nat \<Rightarrow> u64 \<Rightarrow> u8 \<Rightarrow> bmem \<Rightarrow> u64 \<times> u64 + unit" where
  "strnchr_loop 0 s c m = Inl (s, -1)"
| "strnchr_loop (Suc n) s c m =
     (if m s \<noteq> c then if m s = 0 then Inr () else strnchr_loop n (s + 1) c m else Inl (s, of_nat n))"

definition strnchr :: "u64 \<Rightarrow> u8 \<Rightarrow> u64 \<Rightarrow> bmem \<Rightarrow> u64" where
  "strnchr s c n m =
     (case strnchr_loop (unat n) s c m of
        Inr _ \<Rightarrow> 0
      | Inl (p, k) \<Rightarrow> if k \<le> 0 then 0 else p)"

text \<open>The comparison is between the signed byte and the unconverted argument.\<close>

partial_function (option) strrchr_loop :: "u64 \<Rightarrow> int \<Rightarrow> u64 \<Rightarrow> bmem \<Rightarrow> u64 option" where
  [code]: "strrchr_loop s c occ m =
     (if m s \<noteq> 0 then strrchr_loop (s + 1) c (if sint (m s) = c then s + 1 else occ) m else Some occ)"

definition strrchr :: "u64 \<Rightarrow> int \<Rightarrow> bmem \<Rightarrow> u64 option" where
  "strrchr s c m = strrchr_loop s c 0 m"

partial_function (option) strspn_loop :: "u64 \<Rightarrow> u64 \<Rightarrow> u64 \<Rightarrow> bmem \<Rightarrow> u64 option" where
  [code]: "strspn_loop s1 s2 ret m =
     (if m s1 \<noteq> 0
      then Option.bind (strchr s2 (m s1) m) (\<lambda>p. if p \<noteq> 0 then strspn_loop (s1 + 1) s2 (ret + 1) m else Some ret)
      else Some ret)"

definition strspn :: "u64 \<Rightarrow> u64 \<Rightarrow> bmem \<Rightarrow> u64 option" where
  "strspn s1 s2 m = strspn_loop s1 s2 0 m"

partial_function (option) strcspn_loop :: "u64 \<Rightarrow> u64 \<Rightarrow> u64 \<Rightarrow> bmem \<Rightarrow> u64 option" where
  [code]: "strcspn_loop s1 s2 ret m =
     (if m s1 \<noteq> 0
      then Option.bind (strchr s2 (m s1) m) (\<lambda>p. if p \<noteq> 0 then Some ret else strcspn_loop (s1 + 1) s2 (ret + 1) m)
      else Some ret)"

definition strcspn :: "u64 \<Rightarrow> u64 \<Rightarrow> bmem \<Rightarrow> u64 option" where
  "strcspn s1 s2 m = strcspn_loop s1 s2 0 m"

text \<open>
  \<^verbatim>\<open>saved\<close> is the value behind \<^verbatim>\<open>saveptr\<close>.  The result has the token and the new memory; the
  cell behind \<^verbatim>\<open>saveptr\<close> is read and never written.
\<close>

definition strtok_r :: "u64 \<Rightarrow> u64 \<Rightarrow> u64 \<Rightarrow> bmem \<Rightarrow> (u64 \<times> bmem) option" where
  "strtok_r str delim saved m =
     (if str = 0 \<and> saved = 0 then Some (0, m)
      else
        let p = (if str \<noteq> 0 then str else saved) in
        Option.bind (strspn p delim m) (\<lambda>n.
        let str = p + n in
        Option.bind (strcspn str delim m) (\<lambda>k.
        let p = str + k in
        if p = str then Some (0, m)
        else Some (str, if m p \<noteq> 0 then m(p := 0) else m))))"

definition strcat :: "u64 \<Rightarrow> u64 \<Rightarrow> bmem \<Rightarrow> (u64 \<times> bmem) option" where
  "strcat dest src m =
     Option.bind (strlen dest m) (\<lambda>n. Option.bind (strcpy (dest + n) src m) (\<lambda>m'. Some (dest, m')))"

definition strncat :: "u64 \<Rightarrow> u64 \<Rightarrow> u64 \<Rightarrow> bmem \<Rightarrow> (u64 \<times> bmem) option" where
  "strncat dest src n m = Option.bind (strlen dest m) (\<lambda>k. Some (dest, strncpy (dest + k) src n m))"

definition touppercase :: "u8 \<Rightarrow> u8" where
  "touppercase c = (if sint (97 :: u8) \<le> sint c \<and> sint c \<le> sint (122 :: u8) then c - 97 + 65 else c)"

partial_function (option) strupr_loop :: "u64 \<Rightarrow> bmem \<Rightarrow> bmem option" where
  [code]: "strupr_loop s m = (if m s \<noteq> 0 then strupr_loop (s + 1) (m(s := touppercase (m s))) else Some m)"

definition strupr :: "u64 \<Rightarrow> bmem \<Rightarrow> (u64 \<times> bmem) option" where
  "strupr s m = Option.bind (strupr_loop s m) (\<lambda>m'. Some (s, m'))"

fun strnupr_loop :: "nat \<Rightarrow> u64 \<Rightarrow> bmem \<Rightarrow> bmem" where
  "strnupr_loop 0 s m = m"
| "strnupr_loop (Suc n) s m =
     (if m s \<noteq> 0 then strnupr_loop n (s + 1) (m(s := touppercase (m s))) else m)"

definition strnupr :: "u64 \<Rightarrow> u64 \<Rightarrow> bmem \<Rightarrow> u64 \<times> bmem" where
  "strnupr s n m = (s, strnupr_loop (unat n) s m)"

section \<open>Zero-terminated strings in memory\<close>

fun cstr :: "bmem \<Rightarrow> u64 \<Rightarrow> u8 list \<Rightarrow> bool" where
  "cstr m p [] \<longleftrightarrow> m p = 0"
| "cstr m p (x # xs) \<longleftrightarrow> m p = x \<and> x \<noteq> 0 \<and> cstr m (p + 1) xs"

definition region :: "u64 \<Rightarrow> nat \<Rightarrow> u64 set" where
  "region p n = (\<lambda>k. p + of_nat k) ` {..<n}"

lemma region_0 [simp]: "region p 0 = {}"
  by (simp add: region_def)

lemma region_Suc: "region p (Suc n) = insert p (region (p + 1) n)"
  by (auto simp: region_def lessThan_Suc_eq_insert_0 image_image)

lemma region_add: "region p (a + b) = region p a \<union> region (p + of_nat a) b"
proof (induction a arbitrary: p)
  case (Suc a)
  then show ?case by (simp add: region_Suc add.assoc)
qed simp

lemma region_fresh: "n < 2 ^ 64 \<Longrightarrow> p \<notin> region (p + 1) n"
proof
  assume n: "n < 2 ^ 64" and "p \<in> region (p + 1) n"
  then obtain k where k: "k < n" "p = p + 1 + of_nat k" by (auto simp: region_def)
  then have "(of_nat (Suc k) :: u64) = 0" by (simp add: add.assoc)
  moreover have "Suc k < 2 ^ 64" using k n by simp
  ultimately show False by (simp only: word_of_nat_eq_0_iff) (auto dest: dvd_imp_le)
qed

lemma cstr_cong:
  "cstr m p xs \<Longrightarrow> (\<And>a. a \<in> region p (Suc (length xs)) \<Longrightarrow> m' a = m a) \<Longrightarrow> cstr m' p xs"
proof (induction xs arbitrary: p)
  case Nil
  then show ?case by (simp add: region_Suc)
next
  case (Cons x xs)
  have "cstr m' (p + 1) xs"
    using Cons.prems by (intro Cons.IH) (auto simp: region_Suc [of p])
  then show ?case using Cons.prems by (simp add: region_Suc [of p])
qed

lemma cstr_upd: "cstr m p xs \<Longrightarrow> a \<notin> region p (Suc (length xs)) \<Longrightarrow> cstr (m(a := v)) p xs"
  by (erule cstr_cong) auto

lemma cstr_nonzero: "cstr m p xs \<Longrightarrow> 0 \<notin> set xs"
  by (induction xs arbitrary: p) auto

lemma cstr_append: "cstr m p (xs @ ys) \<Longrightarrow> cstr m (p + of_nat (length xs)) ys"
  by (induction xs arbitrary: p) (auto simp flip: add.assoc)

lemma strlen_loop_cstr: "cstr m (p + i) xs \<Longrightarrow> strlen_loop p i m = Some (i + of_nat (length xs))"
proof (induction xs arbitrary: i)
  case Nil
  then show ?case by (simp add: strlen_loop.simps)
next
  case (Cons x xs)
  then show ?case by (subst strlen_loop.simps) (simp add: add.assoc)
qed

lemma strlen_cstr: "cstr m p xs \<Longrightarrow> strlen p m = Some (of_nat (length xs))"
  using strlen_loop_cstr [of m p 0] by (simp add: strlen_def)

lemma strcpy_cstr:
  assumes "cstr m src xs" and "Suc (length xs) \<le> 2 ^ 64"
    and "region dest (Suc (length xs)) \<inter> region src (Suc (length xs)) = {}"
  shows "\<exists>m'. strcpy dest src m = Some m' \<and> cstr m' dest xs \<and>
    (\<forall>a. a \<notin> region dest (Suc (length xs)) \<longrightarrow> m' a = m a)"
  using assms
proof (induction xs arbitrary: dest src m)
  case Nil
  then show ?case by (subst strcpy.simps) (simp add: region_Suc)
next
  case (Cons x xs)
  let ?m = "m(dest := x)"
  have "cstr ?m (src + 1) xs"
    using Cons.prems by (intro cstr_upd) (auto simp: region_Suc)
  moreover have "region (dest + 1) (Suc (length xs)) \<inter> region (src + 1) (Suc (length xs)) = {}"
    using Cons.prems(3) by (auto simp: region_Suc)
  ultimately obtain m' where m': "strcpy (dest + 1) (src + 1) ?m = Some m'" "cstr m' (dest + 1) xs"
      "\<forall>a. a \<notin> region (dest + 1) (Suc (length xs)) \<longrightarrow> m' a = ?m a"
    using Cons.IH [of ?m "src + 1" "dest + 1"] Cons.prems(2) by (auto simp del: fun_upd_apply)
  moreover have "dest \<notin> region (dest + 1) (Suc (length xs))"
    using Cons.prems(2) by (intro region_fresh) simp
  moreover have "strcpy dest src m = strcpy (dest + 1) (src + 1) ?m"
    using Cons.prems(1) by (subst strcpy.simps) simp
  ultimately show ?case
    using Cons.prems(1) by (auto simp: region_Suc [of dest "Suc _"])
qed

lemma strcmp_cstr:
  "cstr m p xs \<Longrightarrow> cstr m q ys \<Longrightarrow>
   \<exists>r. strcmp p q m = Some r \<and> (r = 0 \<longleftrightarrow> xs = ys) \<and>
     (r < 0 \<longleftrightarrow> (xs @ [0], ys @ [0]) \<in> lexord {(a, b). sint a < sint b})"
proof (induction xs arbitrary: p q ys)
  case Nil
  then show ?case by (cases ys) (auto simp: strcmp.simps)
next
  case (Cons x xs)
  show ?case
  proof (cases ys)
    case Nil
    then show ?thesis using Cons.prems by (auto simp: strcmp.simps [of p])
  next
    case ys: (Cons y zs)
    show ?thesis
    proof (cases "x = y")
      case True
      then have "strcmp p q m = strcmp (p + 1) (q + 1) m"
        using Cons.prems ys by (auto simp: strcmp.simps [of p])
      then show ?thesis using Cons.IH [of "p + 1" "q + 1" zs] Cons.prems ys True by auto
    next
      case False
      then show ?thesis using Cons.prems ys by (auto simp: strcmp.simps [of p] sint_eq_iff)
    qed
  qed
qed

lemma strchr_cstr:
  "cstr m s xs \<Longrightarrow> c \<noteq> 0 \<Longrightarrow> length xs < 2 ^ 64 - unat s \<Longrightarrow> s \<noteq> 0 \<Longrightarrow>
   \<exists>p. strchr s c m = Some p \<and> (p \<noteq> 0 \<longleftrightarrow> c \<in> set xs) \<and>
     (p \<noteq> 0 \<longrightarrow> p = s + of_nat (length (takeWhile (\<lambda>x. x \<noteq> c) xs)))"
proof (induction xs arbitrary: s)
  case Nil
  then show ?case by (simp add: strchr.simps)
next
  case (Cons x xs)
  have nz: "unat (s + 1) = unat s + 1" using Cons.prems(3) by (intro unat_plus_one) auto
  show ?case
  proof (cases "x = c")
    case True
    then show ?thesis using Cons.prems by (simp add: strchr.simps)
  next
    case False
    have "s + 1 \<noteq> 0" using nz by auto
    moreover have "length xs < 2 ^ 64 - unat (s + 1)" using Cons.prems(3) nz by simp
    moreover have "strchr s c m = strchr (s + 1) c m" using Cons.prems False by (simp add: strchr.simps)
    ultimately show ?thesis using Cons.IH [of "s + 1"] Cons.prems False by (auto simp: add.assoc)
  qed
qed

section \<open>Spans and tokens\<close>

text \<open>A delimiter string that can be searched: not at NULL and not wrapped around.\<close>

definition delims :: "bmem \<Rightarrow> u64 \<Rightarrow> u8 list \<Rightarrow> bool" where
  "delims m d ds \<longleftrightarrow> cstr m d ds \<and> d \<noteq> 0 \<and> length ds < 2 ^ 64 - unat d"

lemma delims_strchr:
  assumes "delims m d ds" and "c \<noteq> 0"
  obtains p where "strchr d c m = Some p" and "p \<noteq> 0 \<longleftrightarrow> c \<in> set ds"
  using strchr_cstr [of m d ds c] assms by (auto simp: delims_def)

lemma strspn_loop_cstr:
  "delims m d ds \<Longrightarrow> cstr m s xs \<Longrightarrow>
   strspn_loop s d r m = Some (r + of_nat (length (takeWhile (\<lambda>x. x \<in> set ds) xs)))"
proof (induction xs arbitrary: s r)
  case Nil
  then show ?case by (simp add: strspn_loop.simps)
next
  case (Cons x xs)
  obtain p where "strchr d x m = Some p" "p \<noteq> 0 \<longleftrightarrow> x \<in> set ds"
    using delims_strchr [OF Cons.prems(1), of x] Cons.prems(2) by auto
  then show ?case
    using Cons by (auto simp: strspn_loop.simps [of s] add.assoc)
qed

lemma strcspn_loop_cstr:
  "delims m d ds \<Longrightarrow> cstr m s xs \<Longrightarrow>
   strcspn_loop s d r m = Some (r + of_nat (length (takeWhile (\<lambda>x. x \<notin> set ds) xs)))"
proof (induction xs arbitrary: s r)
  case Nil
  then show ?case by (simp add: strcspn_loop.simps)
next
  case (Cons x xs)
  obtain p where "strchr d x m = Some p" "p \<noteq> 0 \<longleftrightarrow> x \<in> set ds"
    using delims_strchr [OF Cons.prems(1), of x] Cons.prems(2) by auto
  then show ?case
    using Cons by (auto simp: strcspn_loop.simps [of s] add.assoc)
qed

lemma cstr_take:
  assumes "cstr m p (xs @ ys)" and "length xs < 2 ^ 64"
  shows "cstr (m(p + of_nat (length xs) := 0)) p xs"
  using assms
proof (induction xs arbitrary: p)
  case Nil
  then show ?case by simp
next
  case (Cons x xs)
  have "(of_nat (length (x # xs)) :: u64) \<noteq> 0"
    using Cons.prems(2) by (simp only: word_of_nat_eq_0_iff) (auto dest: dvd_imp_le)
  then have "p + 1 + of_nat (length xs) \<noteq> p" by (simp add: add.assoc)
  then show ?case using Cons.IH [of "p + 1"] Cons.prems by (simp add: add.assoc)
qed

lemma strtok_r_token:
  assumes d: "delims m d ds" and s: "cstr m p (as @ ts @ bs)" and p: "p \<noteq> 0" and as: "set as \<subseteq> set ds"
    and ts: "ts \<noteq> []" "set ts \<inter> set ds = {}" "length ts < 2 ^ 64" and bs: "bs = [] \<or> hd bs \<in> set ds"
  shows "\<exists>m'. strtok_r p d saved m = Some (p + of_nat (length as), m') \<and> cstr m' (p + of_nat (length as)) ts"
proof -
  let ?t = "p + of_nat (length as)" and ?e = "p + of_nat (length as) + of_nat (length ts)"
  have c: "cstr m ?t (ts @ bs)" and e: "cstr m ?e bs"
    using cstr_append [OF s] cstr_append [of m ?t ts bs] by auto
  have "takeWhile (\<lambda>x. x \<in> set ds) (as @ ts @ bs) = as"
    using as ts by (cases ts) (auto simp: takeWhile_append2 subset_iff)
  then have sp: "strspn p d m = Some (of_nat (length as))"
    using strspn_loop_cstr [OF d s, of 0] by (simp add: strspn_def)
  have "takeWhile (\<lambda>x. x \<notin> set ds) (ts @ bs) = ts"
    using ts(2) bs by (cases bs) (auto simp: takeWhile_append2 disjoint_iff)
  then have cs: "strcspn ?t d m = Some (of_nat (length ts))"
    using strcspn_loop_cstr [OF d c, of 0] by (simp add: strcspn_def)
  have "(of_nat (length ts) :: u64) \<noteq> 0"
    using ts(1,3) by (simp only: word_of_nat_eq_0_iff) (auto dest: dvd_imp_le)
  then have tok: "strtok_r p d saved m = Some (?t, if m ?e \<noteq> 0 then m(?e := 0) else m)"
    using p sp cs by (simp add: strtok_r_def Let_def)
  have "cstr (m(?e := 0)) ?t ts" using cstr_take [OF c ts(3)] .
  moreover have "m ?e = 0 \<Longrightarrow> m(?e := 0) = m" by (simp add: fun_upd_idem)
  ultimately show ?thesis using tok by auto
qed

section \<open>Block functions\<close>

lemma memset_loop_frame: "a \<notin> region p n \<Longrightarrow> memset_loop p v n m a = m a"
  by (induction n arbitrary: p m) (auto simp: region_Suc)

lemma memset_loop_fill: "n \<le> 2 ^ 64 \<Longrightarrow> a \<in> region p n \<Longrightarrow> memset_loop p v n m a = v"
proof (induction n arbitrary: p m)
  case (Suc n)
  then show ?case
    using memset_loop_frame [of p "p + 1" n v "m(p := v)"] region_fresh [of n p]
    by (auto simp: region_Suc)
qed simp

lemma copy_unit_same: "copy_unit w p p m = m"
proof -
  have "fold (\<lambda>(k, b) m'. m'(p + of_nat k := b)) (map (\<lambda>k. (k, m (p + of_nat k))) ks) m = m" for ks
    by (induction ks) (simp_all add: fun_upd_idem del: fun_upd_apply)
  then show ?thesis by (simp add: copy_unit_def)
qed

lemma copy_loop_same: "copy_loop w n p p m = (p + of_nat (n * w), p + of_nat (n * w), m)"
  by (induction n arbitrary: p) (simp_all add: copy_unit_same algebra_simps)

lemma all_bytes_Suc:
  "(\<forall>k<Suc n. P (of_nat k :: u64)) \<longleftrightarrow> P 0 \<and> (\<forall>k<n. P (1 + of_nat k))"
proof -
  have "(\<forall>k<Suc n. Q k) \<longleftrightarrow> Q 0 \<and> (\<forall>k<n. Q (Suc k))" for Q :: "nat \<Rightarrow> bool"
    using less_Suc_eq_0_disj by auto
  then show ?thesis by simp
qed

lemma memcmp_loop_zero: "memcmp_loop n a b m = 0 \<longleftrightarrow> (\<forall>k<n. m (a + of_nat k) = m (b + of_nat k))"
proof (induction n arbitrary: a b)
  case (Suc n)
  show ?case
    using Suc [of "a + 1" "b + 1"] all_bytes_Suc [of n "\<lambda>k. m (a + k) = m (b + k)"]
    by (simp add: add.assoc word_uint_eq_iff)
qed simp

lemma strnchr_loop_absent:
  "(\<forall>k<n. m (s + of_nat k) \<noteq> c \<and> m (s + of_nat k) \<noteq> 0) \<Longrightarrow> strnchr_loop n s c m = Inl (s + of_nat n, -1)"
proof (induction n arbitrary: s)
  case (Suc n)
  have "m s \<noteq> c \<and> m s \<noteq> 0" "\<forall>k<n. m (s + 1 + of_nat k) \<noteq> c \<and> m (s + 1 + of_nat k) \<noteq> 0"
    using Suc.prems all_bytes_Suc [of n "\<lambda>k. m (s + k) \<noteq> c \<and> m (s + k) \<noteq> 0"] by (auto simp: add.assoc)
  then show ?case using Suc.IH [of "s + 1"] by (simp add: add.assoc)
qed simp

lemma strnchr_loop_last:
  "(\<forall>k<n. m (s + of_nat k) \<noteq> c \<and> m (s + of_nat k) \<noteq> 0) \<Longrightarrow> m (s + of_nat n) = c \<Longrightarrow>
   strnchr_loop (Suc n) s c m = Inl (s + of_nat n, 0)"
proof (induction n arbitrary: s)
  case (Suc n)
  have "m s \<noteq> c \<and> m s \<noteq> 0" "\<forall>k<n. m (s + 1 + of_nat k) \<noteq> c \<and> m (s + 1 + of_nat k) \<noteq> 0"
    using Suc.prems all_bytes_Suc [of n "\<lambda>k. m (s + k) \<noteq> c \<and> m (s + k) \<noteq> 0"] by (auto simp: add.assoc)
  moreover have "m (s + 1 + of_nat n) = c" using Suc.prems(2) by (simp add: add.assoc)
  ultimately have "strnchr_loop (Suc n) (s + 1) c m = Inl (s + 1 + of_nat n, 0)" by (intro Suc.IH)
  then show ?case
    using \<open>m s \<noteq> c \<and> m s \<noteq> 0\<close> by (subst strnchr_loop.simps(2)) (simp add: add.assoc del: strnchr_loop.simps)
qed simp

section \<open>Properties\<close>

text \<open>
  \<^verbatim>\<open>strcpy\<close> returns for every zero-terminated source that does not overlap the
  destination; the destination then holds the same string, so \<^verbatim>\<open>strlen\<close> gives the same
  length, and no byte outside the string and its terminator has changed.
\<close>

theorem strcpy_copies:
  assumes "cstr m src xs" and "length xs < 2 ^ 64"
    and "region dest (Suc (length xs)) \<inter> region src (Suc (length xs)) = {}"
  shows "\<exists>m'. strcpy dest src m = Some m' \<and> cstr m' dest xs \<and> strlen dest m' = strlen src m \<and>
    (\<forall>a. a \<notin> region dest (Suc (length xs)) \<longrightarrow> m' a = m a)"
proof -
  have "Suc (length xs) \<le> 2 ^ 64" using assms(2) by simp
  then obtain m' where m': "strcpy dest src m = Some m'" "cstr m' dest xs"
      "\<forall>a. a \<notin> region dest (Suc (length xs)) \<longrightarrow> m' a = m a"
    using strcpy_cstr [OF assms(1) _ assms(3)] by blast
  then show ?thesis using strlen_cstr [OF m'(2)] strlen_cstr [OF assms(1)] by simp
qed

definition two_words :: bmem where
  "two_words = (\<lambda>_. 0)(100 := 32, 101 := 99, 102 := 117, 103 := 32, 104 := 98, 200 := 32)"

lemma region_4: "region p (Suc (Suc (Suc (Suc (Suc 0))))) = {p, p + 1, p + 2, p + 3, p + 4}"
  by (simp add: region_Suc add.assoc)

theorem strcpy_copies_witness:
  "\<exists>m'. strcpy 300 101 two_words = Some m' \<and> cstr m' 300 [99, 117, 32, 98] \<and> strlen 300 m' = Some 4"
proof -
  have c: "cstr two_words 101 [99, 117, 32, 98]" by (simp add: two_words_def)
  have "region 300 (Suc (length [99, 117, 32, 98 :: u8])) \<inter> region 101 (Suc (length [99, 117, 32, 98 :: u8])) = {}"
    by (simp add: region_4)
  from strcpy_copies [OF c _ this] strlen_cstr [OF c] show ?thesis by fastforce
qed

text \<open>
  C31. On zero-terminated strings \<^verbatim>\<open>strcmp\<close> returns; the result is zero exactly for equal
  strings and negative exactly when the first string, with its terminator, comes first in the
  lexicographic order of signed bytes.
\<close>

theorem strcmp_orders:
  assumes "cstr m p xs" and "cstr m q ys"
  shows "\<exists>r. strcmp p q m = Some r \<and> (r = 0 \<longleftrightarrow> xs = ys) \<and>
     (r < 0 \<longleftrightarrow> (xs @ [0], ys @ [0]) \<in> lexord {(a, b). sint a < sint b})"
  by (rule strcmp_cstr [OF assms])

theorem strcmp_orders_witness:
  "\<exists>r. strcmp 101 104 two_words = Some r \<and> r \<noteq> 0"
  using strcmp_orders [of two_words 101 "[99, 117, 32, 98]" 104 "[98]"] by (auto simp: two_words_def)

text \<open>
  Given a string that starts with delimiters, followed by a token and then the end or another
  delimiter, \<^verbatim>\<open>strtok_r\<close> returns, gives a pointer to the token, and leaves the token there as
  a string of its own.
\<close>

theorem strtok_first_token:
  assumes "delims m d ds" and "cstr m p (as @ ts @ bs)" and "p \<noteq> 0" and "set as \<subseteq> set ds"
    and "ts \<noteq> []" and "set ts \<inter> set ds = {}" and "length ts < 2 ^ 64" and "bs = [] \<or> hd bs \<in> set ds"
  shows "\<exists>m'. strtok_r p d saved m = Some (p + of_nat (length as), m') \<and> cstr m' (p + of_nat (length as)) ts"
  by (rule strtok_r_token [OF assms])

theorem strtok_first_token_witness:
  "\<exists>m'. strtok_r 100 200 0 two_words = Some (101, m') \<and> cstr m' 101 [99, 117]"
  using strtok_first_token [of two_words 200 "[32]" 100 "[32]" "[99, 117]" "[32, 98]" 0]
  by (auto simp: two_words_def delims_def)

text \<open>
  \<^verbatim>\<open>memset\<close> writes the low byte of its value to every byte of the block and to no other.
\<close>

theorem memset_fills:
  "memset addr v n m = (addr, m') \<Longrightarrow>
   m' a = (if a \<in> region addr (unat n) then ucast v else m a)"
  using memset_loop_frame [of a addr "unat n" "ucast v" m] memset_loop_fill [of "unat n" a addr "ucast v" m]
    unsigned_less [of n, where ?'a = nat] by (auto simp: memset_def)

theorem memset_fills_witness: "snd (memset 16 321 2 (\<lambda>_. 7)) 17 = 65"
proof -
  have "(17 :: u64) \<in> region 16 (unat (2 :: u64))" 
    by (auto simp: region_def image_iff intro: bexI [of _ 1])
  moreover have "memset 16 321 2 (\<lambda>_. 7) = (16, snd (memset 16 321 2 (\<lambda>_. 7)))"
    by (simp only: memset_def snd_conv)
  ultimately show ?thesis
    using memset_fills [of 16 321 2 "\<lambda>_. 7" "snd (memset 16 321 2 (\<lambda>_. 7))" 17] by simp
qed

text \<open>
  \<^verbatim>\<open>memcpy\<close> copies the source onto itself: it returns the destination pointer and leaves
  all of memory as it was, for every source, destination and length.
\<close>

theorem memcpy_changes_nothing: "memcpy dest addr n m = (dest, m)"
  by (simp add: memcpy_def copy_loop_same Let_def)

text \<open>
  \<^verbatim>\<open>strnchr\<close> has its two answers at the limit exchanged: it returns NULL when the character
  is at the last of the \<open>n\<close> places, and a pointer behind them when none of them has it.
\<close>

theorem strnchr_limit_wrong:
  assumes "0 < unat n" and "\<forall>k<unat n - 1. m (s + of_nat k) \<noteq> c \<and> m (s + of_nat k) \<noteq> 0"
    and "m (s + n - 1) \<noteq> 0"
  shows "strnchr s c n m = (if m (s + n - 1) = c then 0 else s + n)"
proof -
  obtain k where k: "unat n = Suc k" using assms(1) by (cases "unat n") auto
  then have n: "n = of_nat (Suc k)" by (metis of_nat_unat ucast_id)
  then have last: "s + n - 1 = s + of_nat k" by simp
  show ?thesis
  proof (cases "m (s + n - 1) = c")
    case True
    then show ?thesis
      using strnchr_loop_last [of k m s c] assms(2) by (simp add: strnchr_def k last del: strnchr_loop.simps)
  next
    case False
    have "\<forall>j<Suc k. m (s + of_nat j) \<noteq> c \<and> m (s + of_nat j) \<noteq> 0"
      using assms(2,3) False k last by (auto simp: less_Suc_eq)
    then have "strnchr_loop (Suc k) s c m = Inl (s + of_nat (Suc k), -1)" by (rule strnchr_loop_absent)
    moreover have "\<not> (- 1 :: u64) \<le> 0" by simp
    ultimately show ?thesis using False k n by (simp add: strnchr_def del: strnchr_loop.simps)
  qed
qed

theorem strnchr_limit_wrong_witness: "strnchr 101 32 3 two_words = 0 \<and> strnchr 101 33 3 two_words = 104"
proof -
  have "\<forall>k<unat (3 :: u64) - 1. two_words (101 + of_nat k) \<notin> {0, 32, 33}"
  proof (intro allI impI)
    fix k assume "k < unat (3 :: u64) - 1"
    then have "k = 0 \<or> k = 1" by auto
    then show "two_words (101 + of_nat k) \<notin> {0, 32, 33}" by (auto simp: two_words_def)
  qed
  then show ?thesis
    using strnchr_limit_wrong [of 3 two_words 101 32] strnchr_limit_wrong [of 3 two_words 101 33]
    by (simp add: two_words_def)
qed

end
