(* ===== verification/Byte_Memory.thy ===== *)
theory Byte_Memory
  imports CString
begin

text \<open>
  Reading and writing the packed little-endian structures that the boot loader, the firmware and
  the devices share with the kernel.  A field is found under its byte offset in the byte memory of
  the theory \<open>CString\<close>; the writer exists so that tables can be built and read back.
\<close>

fun le_value :: "u8 list \<Rightarrow> nat" where
  "le_value [] = 0"
| "le_value (b # bs) = unat b + 256 * le_value bs"

fun le_bytes :: "nat \<Rightarrow> nat \<Rightarrow> u8 list" where
  "le_bytes 0 v = []"
| "le_bytes (Suc n) v = of_nat (v mod 256) # le_bytes n (v div 256)"

fun read_bytes :: "nat \<Rightarrow> u64 \<Rightarrow> bmem \<Rightarrow> u8 list" where
  "read_bytes 0 a m = []"
| "read_bytes (Suc n) a m = m a # read_bytes n (a + 1) m"

fun write_bytes :: "u64 \<Rightarrow> u8 list \<Rightarrow> bmem \<Rightarrow> bmem" where
  "write_bytes a [] m = m"
| "write_bytes a (b # bs) m = write_bytes (a + 1) bs (m(a := b))"

definition rd8 :: "u64 \<Rightarrow> bmem \<Rightarrow> u8" where "rd8 a m = m a"
definition rd16 :: "u64 \<Rightarrow> bmem \<Rightarrow> u16" where "rd16 a m = of_nat (le_value (read_bytes 2 a m))"
definition rd32 :: "u64 \<Rightarrow> bmem \<Rightarrow> u32" where "rd32 a m = of_nat (le_value (read_bytes 4 a m))"
definition rd64 :: "u64 \<Rightarrow> bmem \<Rightarrow> u64" where "rd64 a m = of_nat (le_value (read_bytes 8 a m))"

definition wr8 :: "u64 \<Rightarrow> u8 \<Rightarrow> bmem \<Rightarrow> bmem" where "wr8 a v m = m(a := v)"
definition wr16 :: "u64 \<Rightarrow> u16 \<Rightarrow> bmem \<Rightarrow> bmem" where "wr16 a v m = write_bytes a (le_bytes 2 (unat v)) m"
definition wr32 :: "u64 \<Rightarrow> u32 \<Rightarrow> bmem \<Rightarrow> bmem" where "wr32 a v m = write_bytes a (le_bytes 4 (unat v)) m"
definition wr64 :: "u64 \<Rightarrow> u64 \<Rightarrow> bmem \<Rightarrow> bmem" where "wr64 a v m = write_bytes a (le_bytes 8 (unat v)) m"

lemma le_bytes_length [simp]: "length (le_bytes n v) = n"
  by (induction n arbitrary: v) simp_all

lemma le_value_bytes: "le_value (le_bytes n v) = v mod 256 ^ n"
proof (induction n arbitrary: v)
  case (Suc n)
  have "unat (of_nat (v mod 256) :: u8) = v mod 256" by (simp add: unat_of_nat)
  then show ?case using Suc by (simp add: mod_mult2_eq)
qed simp

lemma write_bytes_below:
  "(\<And>i. i < length bs \<Longrightarrow> x \<noteq> a + of_nat i) \<Longrightarrow> write_bytes a bs m x = m x"
proof (induction bs arbitrary: a m)
  case (Cons b bs)
  have "x \<noteq> a + 1 + of_nat i" if "i < length bs" for i
    using Cons.prems [of "Suc i"] that by (simp add: add.assoc)
  moreover have "x \<noteq> a" using Cons.prems [of 0] by simp
  ultimately show ?case using Cons.IH by simp
qed simp

lemma read_write_bytes:
  assumes "length bs < 2 ^ 64"
  shows "read_bytes (length bs) a (write_bytes a bs m) = bs"
  using assms
proof (induction bs arbitrary: a m)
  case (Cons b bs)
  have "a \<noteq> a + 1 + of_nat i" if "i < length bs" for i
  proof -
    have "unat (of_nat (Suc i) :: u64) = Suc i" using that Cons.prems by (simp only: unat_of_nat) simp
    then have "(of_nat (Suc i) :: u64) \<noteq> 0" by (metis nat.distinct(1) unat_0)
    then show ?thesis by (simp add: add.assoc)
  qed
  then show ?case using Cons by (simp add: write_bytes_below)
qed simp

lemma rd_wr:
  "rd16 a (wr16 a v16 m) = v16" "rd32 a (wr32 a v32 m) = v32" "rd64 a (wr64 a v64 m) = v64"
proof -
  have rw: "read_bytes n a (write_bytes a (le_bytes n v) m) = le_bytes n v" if "n < 9" for n v
  proof -
    have "length (le_bytes n v) < 2 ^ 64" using that by simp
    from read_write_bytes [OF this] show ?thesis by simp
  qed
  show "rd16 a (wr16 a v16 m) = v16" "rd32 a (wr32 a v32 m) = v32" "rd64 a (wr64 a v64 m) = v64"
    using unsigned_less [of v16, where ?'a = nat] unsigned_less [of v32, where ?'a = nat]
      unsigned_less [of v64, where ?'a = nat]
    by (simp_all only: rd16_def rd32_def rd64_def wr16_def wr32_def wr64_def rw le_value_bytes) simp_all
qed

text \<open>A stretch of \<open>k\<close> bytes is left alone by a write of \<open>n\<close> bytes elsewhere.\<close>

lemma read_bytes_cong: "(\<And>i. i < n \<Longrightarrow> m (a + of_nat i) = m' (a + of_nat i)) \<Longrightarrow> read_bytes n a m = read_bytes n a m'"
proof (induction n arbitrary: a)
  case (Suc n)
  have "m (a + 1 + of_nat i) = m' (a + 1 + of_nat i)" if "i < n" for i
    using Suc.prems [of "Suc i"] that by (simp add: add.assoc)
  moreover have "m a = m' a" using Suc.prems [of 0] by simp
  ultimately show ?case using Suc.IH by simp
qed simp

text \<open>Evaluation of fields in a concrete memory.\<close>

lemma read_bytes_numeral [simp]:
  "read_bytes (numeral k) a m = m a # read_bytes (pred_numeral k) (a + 1) m"
  by (simp add: numeral_eq_Suc)

lemmas rd_defs = rd8_def rd16_def rd32_def rd64_def

end
