(* ===== verification/Ports.thy ===== *)
theory Ports
  imports Kernel_Prelude
begin

text \<open>
  Port access and the devices behind it: \<^verbatim>\<open>ioports.h\<close>, the interrupt controller of \<^verbatim>\<open>pic.c\<close>, the
  timer of \<^verbatim>\<open>pit.c\<close> and the reset through the keyboard controller in \<^verbatim>\<open>panic.c\<close>.  Writes are
  recorded in order, oldest first; what a device answers to a read is part of the state.
\<close>

section \<open>Ports\<close>

datatype port_write = Out8 u16 u8 | Out16 u16 u16 | Out32 u16 u32

text \<open>\<open>port_input n p\<close> is what the devices put on the bus for the \<open>n\<close>-th read, from port \<open>p\<close>.\<close>

record io_state =
  port_input :: "nat \<Rightarrow> u16 \<Rightarrow> u32"
  port_reads :: nat
  port_output :: "port_write list"

definition io_read :: "u16 \<Rightarrow> io_state \<Rightarrow> u32 \<times> io_state" where
  "io_read port s = (port_input s (port_reads s) port, s\<lparr>port_reads := Suc (port_reads s)\<rparr>)"

definition io_write :: "port_write \<Rightarrow> io_state \<Rightarrow> io_state" where
  "io_write w s = s\<lparr>port_output := port_output s @ [w]\<rparr>"

definition IoPorts_ReadByte8 :: "u16 \<Rightarrow> io_state \<Rightarrow> u8 \<times> io_state" where
  "IoPorts_ReadByte8 port s = (let (v, s) = io_read port s in (ucast v, s))"

definition IoPorts_ReadWord16 :: "u16 \<Rightarrow> io_state \<Rightarrow> u16 \<times> io_state" where
  "IoPorts_ReadWord16 port s = (let (v, s) = io_read port s in (ucast v, s))"

definition IoPorts_ReadDword32 :: "u16 \<Rightarrow> io_state \<Rightarrow> u32 \<times> io_state" where
  "IoPorts_ReadDword32 port s = io_read port s"

definition IoPorts_WriteByte8 :: "u16 \<Rightarrow> u8 \<Rightarrow> io_state \<Rightarrow> io_state" where
  "IoPorts_WriteByte8 port data s = io_write (Out8 port data) s"

definition IoPorts_WriteWord16 :: "u16 \<Rightarrow> u16 \<Rightarrow> io_state \<Rightarrow> io_state" where
  "IoPorts_WriteWord16 port data s = io_write (Out16 port data) s"

definition IoPorts_WriteDword16 :: "u16 \<Rightarrow> u32 \<Rightarrow> io_state \<Rightarrow> io_state" where
  "IoPorts_WriteDword16 port data s = io_write (Out32 port data) s"

section \<open>The interrupt controller\<close>

definition PIC_Initialize :: "io_state \<Rightarrow> io_state" where
  "PIC_Initialize s =
     fold (\<lambda>(port, data). IoPorts_WriteByte8 port data)
       [(0x20, 0x11), (0xA0, 0x11), (0x21, 0x20), (0xA1, 0x28), (0x21, 0x04), (0xA1, 0x02),
        (0x21, 0x01), (0xA1, 0x01), (0x21, 0x00), (0xA1, 0x00)] s"

definition PIC_Disable :: "io_state \<Rightarrow> io_state" where
  "PIC_Disable s = IoPorts_WriteByte8 0x21 0xFF (IoPorts_WriteByte8 0xA1 0xFF s)"

definition RestoreInterrupts :: "int \<Rightarrow> io_state \<Rightarrow> io_state" where
  "RestoreInterrupts i s =
     IoPorts_WriteByte8 0x20 0x20 (if i \<ge> 40 then IoPorts_WriteByte8 0xA0 0x20 s else s)"

section \<open>The timer\<close>

definition PIT_FREQUENCY :: u32 where "PIT_FREQUENCY = 0x1234DE"

text \<open>The quotient is kept in a variable of 16 bits.\<close>

definition PIT_Initialize :: "u32 \<Rightarrow> io_state \<Rightarrow> io_state res" where
  "PIT_Initialize freq s =
     (if freq = 0 then Inl DivideError
      else let divisor = ucast (PIT_FREQUENCY div freq) :: u16
           in Inr (IoPorts_WriteByte8 0x40 (ucast (drop_bit 8 divisor AND 0xFF))
                  (IoPorts_WriteByte8 0x40 (ucast (divisor AND 0xFF))
                  (IoPorts_WriteByte8 0x43 0x36 s))))"

section \<open>Reset\<close>

text \<open>
  The comparison in \<^verbatim>\<open>IoPorts_ReadByte8(0x64) & 0x02 != 0\<close> binds tighter than the conjunction,
  so the loop looks at the lowest bit.
\<close>

fun wait_input_buffer :: "nat \<Rightarrow> io_state \<Rightarrow> io_state res" where
  "wait_input_buffer 0 s = Inl OutOfFuel"
| "wait_input_buffer (Suc fuel) s =
     (let (v, s1) = IoPorts_ReadByte8 0x64 s
      in if v AND (if (0x02 :: u8) \<noteq> 0 then 1 else 0) \<noteq> 0 then wait_input_buffer fuel s1 else Inr s1)"

text \<open>The processor is halted after the reset line has been pulsed; \<open>s\<close> of the result is what the devices have seen by then.\<close>

definition MakeTripleFault :: "nat \<Rightarrow> io_state \<Rightarrow> io_state res" where
  "MakeTripleFault fuel s =
     bind_res (wait_input_buffer fuel s) (\<lambda>s1. Inr (IoPorts_WriteByte8 0x64 0xFE s1))"

section \<open>Results\<close>

lemma io_write_output [simp]: "port_output (io_write w s) = port_output s @ [w]"
  by (simp add: io_write_def)

lemmas port_writes = IoPorts_WriteByte8_def IoPorts_WriteWord16_def IoPorts_WriteDword16_def

lemma status_bit: "(ucast (v :: u32) AND 1 \<noteq> (0 :: u8)) \<longleftrightarrow> bit v 0"
proof -
  have "(x AND 1 \<noteq> 0) \<longleftrightarrow> bit x 0" for x :: u8 by (simp add: and_one_eq bit_0 odd_iff_mod_2_eq_one)
  then show ?thesis by (simp add: bit_simps)
qed

lemma wait_input_buffer_run:
  assumes "n < fuel" and "\<And>i. i < n \<Longrightarrow> bit (port_input s (port_reads s + i) 0x64) 0"
    and "\<not> bit (port_input s (port_reads s + n) 0x64) 0"
  shows "wait_input_buffer fuel s = Inr (s\<lparr>port_reads := port_reads s + n + 1\<rparr>)"
  using assms
proof (induction n arbitrary: fuel s)
  case 0
  then show ?case
    using status_bit [of "port_input s (port_reads s) 0x64"]
    by (cases fuel) (simp_all add: IoPorts_ReadByte8_def io_read_def)
next
  case (Suc n)
  obtain k where k: "fuel = Suc k" using Suc.prems(1) by (cases fuel) simp_all
  have "bit (port_input s (port_reads s) 0x64) 0" using Suc.prems(2) [of 0] by simp
  moreover have "wait_input_buffer k (s\<lparr>port_reads := Suc (port_reads s)\<rparr>) = Inr (s\<lparr>port_reads := port_reads s + Suc n + 1\<rparr>)"
    using Suc.IH [of k "s\<lparr>port_reads := Suc (port_reads s)\<rparr>"] Suc.prems(2) [of "Suc _"] Suc.prems(1,3) k by simp
  ultimately show ?case
    using status_bit [of "port_input s (port_reads s) 0x64"] by (simp add: k IoPorts_ReadByte8_def io_read_def)
qed

text \<open>
  \<^verbatim>\<open>MakeTripleFault\<close> sends the reset command as soon as the lowest status bit is clear: the bit
  for a full input buffer, which it means to wait for, has no influence.
\<close>

theorem triple_fault_waits_for_bit_0:
  assumes "n < fuel" and "\<And>i. i < n \<Longrightarrow> bit (port_input s (port_reads s + i) 0x64) 0"
    and "\<not> bit (port_input s (port_reads s + n) 0x64) 0"
  shows "MakeTripleFault fuel s =
    Inr (s\<lparr>port_reads := port_reads s + n + 1, port_output := port_output s @ [Out8 0x64 0xFE]\<rparr>)"
  using wait_input_buffer_run [OF assms] by (simp add: MakeTripleFault_def port_writes io_write_def)

theorem triple_fault_waits_for_bit_0_witness:
  "MakeTripleFault 1 \<lparr>port_input = (\<lambda>_ _. 2), port_reads = 0, port_output = []\<rparr> =
     Inr \<lparr>port_input = (\<lambda>_ _. 2), port_reads = 1, port_output = [Out8 0x64 0xFE]\<rparr>"
  using triple_fault_waits_for_bit_0 [of 0 1 "\<lparr>port_input = (\<lambda>_ _. 2), port_reads = 0, port_output = []\<rparr>"]
  by simp

end
