(* ===== verification/Descriptors.thy ===== *)
theory Descriptors
  imports Kernel_Prelude
begin

text \<open>
  The descriptor tables and the per-processor data: \<^verbatim>\<open>gdt.c\<close>, \<^verbatim>\<open>idt.c\<close> and \<^verbatim>\<open>cpu.c\<close> with the structures
  of \<^verbatim>\<open>cpu.h\<close>.  The tables are records with the members of the packed structures; what the
  processor makes of them is given by the functions that put a base address together again.  The
  address of an interrupt entry point is fixed by the assembler code and the linker, so
  \<^verbatim>\<open>isr_tables\<close> is a parameter.
\<close>

section \<open>Segments\<close>

definition GDT_ENTRY_COUNT :: nat where "GDT_ENTRY_COUNT = 5"
definition GDT_SEGMENT :: u8 where "GDT_SEGMENT = 0x10"
definition GDT_PRESENT :: u8 where "GDT_PRESENT = 0x80"
definition GDT_USER :: u8 where "GDT_USER = 0x60"
definition GDT_EXECUTABLE :: u8 where "GDT_EXECUTABLE = 0x08"
definition GDT_READWRITE :: u8 where "GDT_READWRITE = 0x02"
definition GDT_LM_GRANULARITY :: u8 where "GDT_LM_GRANULARITY = 0x02"
definition GDT_FLAGS :: u8 where "GDT_FLAGS = 0x0C"

record desc_pointer =
  dp_size :: u16
  dp_base :: u64

record GlobalDescTableEntry =
  limit_low :: u16
  gdt_base_low :: u16
  gdt_base_medium :: u8
  gdt_access :: u8
  granularity :: u8
  gdt_base_high :: u8

record TaskStateSegment =
  tss_ign_0 :: u32
  tss_rsp :: "u64 list"
  tss_ign_1 :: u64
  tss_ist :: "u64 list"
  tss_ign_2 :: u32
  tss_ign_3 :: u32
  tss_ign_4 :: u16
  iopb_offset :: u16

definition sizeof_TaskStateSegment :: u16 where "sizeof_TaskStateSegment = 104"

record GlobalDescTableTaskEntry =
  task_len :: u16
  task_base_low :: u16
  task_base_medium :: u8
  task_flags_a :: u8
  task_flags_b :: u8
  task_base_high :: u8
  task_base_upper :: u32
  task_ign :: u32

record GlobalDescTablePackage =
  gdt_entries :: "GlobalDescTableEntry list"
  gdt_tss :: GlobalDescTableTaskEntry

definition sizeof_GlobalDescTablePackage :: u16 where "sizeof_GlobalDescTablePackage = 56"

definition zero_tss :: TaskStateSegment where
  "zero_tss = \<lparr>tss_ign_0 = 0, tss_rsp = [0, 0, 0], tss_ign_1 = 0, tss_ist = replicate 7 0,
     tss_ign_2 = 0, tss_ign_3 = 0, tss_ign_4 = 0, iopb_offset = 0\<rparr>"

definition segment :: "u16 \<Rightarrow> u8 \<Rightarrow> u8 \<Rightarrow> GlobalDescTableEntry" where
  "segment lim acc gran = \<lparr>limit_low = lim, gdt_base_low = 0, gdt_base_medium = 0, gdt_access = acc,
     granularity = gran, gdt_base_high = 0\<rparr>"

definition initial_gdt :: GlobalDescTablePackage where
  "initial_gdt =
     (let gran = push_bit 5 1 OR push_bit 7 1 OR 0x0F
      in \<lparr>gdt_entries = [segment 0 0 0, segment 0xFFFF 0x9A gran, segment 0xFFFF 0x92 gran,
            segment 0xFFFF 0xFA gran, segment 0xFFFF 0xF2 gran],
          gdt_tss = \<lparr>task_len = 0, task_base_low = 0, task_base_medium = 0, task_flags_a = 0, task_flags_b = 0,
            task_base_high = 0, task_base_upper = 0, task_ign = 0\<rparr>\<rparr>)"

text \<open>
  The state: the tables, the addresses the linker gave to the static objects, and what the
  instructions \<^verbatim>\<open>lgdt\<close> and \<^verbatim>\<open>lidt\<close> of the assembler routines have loaded.
\<close>

record InterruptDescTableEntry =
  idt_base_low :: u16
  idt_selector :: u16
  idt_ist :: u8
  idt_flags :: u8
  idt_base_med :: u16
  idt_base_high :: u32
  idt_ign :: u32

record desc_state =
  gdt :: GlobalDescTablePackage
  gdt_at :: u64
  tss_at :: u64
  g_IdtEntryList :: "nat \<Rightarrow> InterruptDescTableEntry"
  g_IdtEntryList_at :: u64
  gdtr :: "desc_pointer option"
  idtr :: "desc_pointer option"

definition g_Gdtr :: "desc_state \<Rightarrow> desc_pointer" where
  "g_Gdtr s = \<lparr>dp_size = sizeof_GlobalDescTablePackage - 1, dp_base = gdt_at s\<rparr>"

definition LoadGlobalDescTable :: "desc_state \<Rightarrow> desc_state" where
  "LoadGlobalDescTable s =
     (let tss_addr = tss_at s
      in s\<lparr>gdt := (gdt s)\<lparr>gdt_tss :=
             \<lparr>task_len = sizeof_TaskStateSegment,
              task_base_low = ucast (tss_addr AND 0xffff),
              task_base_medium = ucast (drop_bit 16 tss_addr AND 0xff),
              task_flags_a = 0x89,
              task_flags_b = 0,
              task_base_high = ucast (drop_bit 24 tss_addr AND 0xff),
              task_base_upper = ucast (drop_bit 32 tss_addr),
              task_ign = 0\<rparr>\<rparr>,
           gdtr := Some (g_Gdtr s)\<rparr>)"

section \<open>Interrupt gates\<close>

definition IDT_FLAGS_INTGATE :: u8 where "IDT_FLAGS_INTGATE = 0x8E"
definition IDT_FLAGS_TRAPGATE :: u8 where "IDT_FLAGS_TRAPGATE = 0xEF"
definition IDT_FLAGS_USER :: u8 where "IDT_FLAGS_USER = 0x60"
definition IDT_ENTRY_COUNT :: nat where "IDT_ENTRY_COUNT = 256"
definition sizeof_InterruptDescTableEntry :: nat where "sizeof_InterruptDescTableEntry = 16"

text \<open>The exceptions of the processor by their vectors.\<close>

definition idt_exceptions :: "(string \<times> nat) list" where
  "idt_exceptions =
     [(''IDT_DIVIDE_BY_ZERO'', 0x00), (''IDT_SINGLE_STEP'', 0x01), (''IDT_NMI'', 0x02), (''IDT_BREAKPOINT'', 0x03),
      (''IDT_OVERFLOW'', 0x04), (''IDT_BOUND_RANGE_EXCEEDED'', 0x05), (''IDT_INVALID_OPCODE'', 0x06),
      (''IDT_COPROCESSOR_NOT_AVAILABLE'', 0x07), (''IDT_DOUBLE_FAULT'', 0x08),
      (''IDT_INVALID_TASK_STATE_SEGMENT'', 0x0A), (''IDT_SEGMENT_NOT_PRESENT'', 0x0B),
      (''IDT_STACK_SEGMENT_FAULT'', 0x0C), (''IDT_GENERAL_PROTECTION_FAULT'', 0x0D), (''IDT_PAGE_FAULT'', 0x0E),
      (''IDT_X87_FLOATING_POINT_EXCEPTION'', 0x10), (''IDT_ALIGNMENT_CHECK'', 0x11), (''IDT_MACHINE_CHECK'', 0x12),
      (''IDT_SIMD_FLOATING_POINT_EXCEPTION'', 0x13), (''IDT_VIRTUALIZATION_EXCEPTION'', 0x14),
      (''IDT_CONTROL_PROTECTION_EXCEPTION'', 0x15)]"

definition g_Idtr :: "desc_state \<Rightarrow> desc_pointer" where
  "g_Idtr s = \<lparr>dp_size = of_nat (sizeof_InterruptDescTableEntry * IDT_ENTRY_COUNT), dp_base = g_IdtEntryList_at s\<rparr>"

definition gate :: "u64 \<Rightarrow> u8 \<Rightarrow> InterruptDescTableEntry" where
  "gate isr flags =
     \<lparr>idt_base_low = ucast (isr AND 0xffff), idt_selector = 0x08, idt_ist = 0, idt_flags = flags,
      idt_base_med = ucast (drop_bit 16 isr AND 0xffff), idt_base_high = ucast (drop_bit 32 isr AND 0xffffffff),
      idt_ign = 0\<rparr>"

definition set_gate :: "nat \<Rightarrow> InterruptDescTableEntry \<Rightarrow> desc_state \<Rightarrow> desc_state" where
  "set_gate num e s = s\<lparr>g_IdtEntryList := (g_IdtEntryList s)(num := e)\<rparr>"

definition LoadInterruptDescTable :: "(nat \<Rightarrow> u64) \<Rightarrow> desc_state \<Rightarrow> desc_state" where
  "LoadInterruptDescTable isr_tables s =
     (let s1 = fold (\<lambda>num. set_gate num (gate (isr_tables num) IDT_FLAGS_INTGATE)) [0..<48] s;
          s2 = set_gate 127 (gate (isr_tables 32) IDT_FLAGS_INTGATE) s1;
          s3 = set_gate 128 (gate (isr_tables 33) (IDT_FLAGS_INTGATE OR IDT_FLAGS_USER)) s2
      in s3\<lparr>idtr := Some (g_Idtr s3)\<rparr>)"

text \<open>What the processor reads from the entries.\<close>

definition task_base :: "GlobalDescTableTaskEntry \<Rightarrow> u64" where
  "task_base e = ucast (task_base_low e) OR push_bit 16 (ucast (task_base_medium e)) OR
     push_bit 24 (ucast (task_base_high e)) OR push_bit 32 (ucast (task_base_upper e))"

definition gate_target :: "InterruptDescTableEntry \<Rightarrow> u64" where
  "gate_target e = ucast (idt_base_low e) OR push_bit 16 (ucast (idt_base_med e)) OR push_bit 32 (ucast (idt_base_high e))"

definition gate_privilege :: "InterruptDescTableEntry \<Rightarrow> nat" where
  "gate_privilege e = unat (drop_bit 5 (idt_flags e) AND 3)"

section \<open>The processor\<close>

definition cpuid_ecx_flags :: "(string \<times> nat) list" where
  "cpuid_ecx_flags =
     [(''SSE3'', 0), (''PCLMUL'', 1), (''DTES64'', 2), (''MONITOR'', 3), (''DS_CPL'', 4), (''VMX'', 5), (''SMX'', 6),
      (''EST'', 7), (''TM2'', 8), (''SSSE3'', 9), (''CID'', 10), (''FMA'', 12), (''CX16'', 13), (''ETPRD'', 14),
      (''PDCM'', 15), (''PCIDE'', 17), (''DCA'', 18), (''SSE4_1'', 19), (''SSE4_2'', 20), (''x2APIC'', 21),
      (''MOVBE'', 22), (''POPCNT'', 23), (''AES'', 25), (''XSAVE'', 26), (''OSXSAVE'', 27), (''AVX'', 28)]"

definition cpuid_edx_flags :: "(string \<times> nat) list" where
  "cpuid_edx_flags =
     [(''FPU'', 0), (''VME'', 1), (''DE'', 2), (''PSE'', 3), (''TSC'', 4), (''MSR'', 5), (''PAE'', 6), (''MCE'', 7),
      (''CX8'', 8), (''APIC'', 9), (''SEP'', 11), (''MTRR'', 12), (''PGE'', 13), (''MCA'', 14), (''CMOV'', 15),
      (''PAT'', 16), (''PSE36'', 17), (''PSN'', 18), (''CLF'', 19), (''DTES'', 21), (''ACPI'', 22), (''MMX'', 23),
      (''FXSR'', 24), (''SSE'', 25), (''SSE2'', 26), (''SS'', 27), (''HTT'', 28), (''TM1'', 29), (''IA64'', 30), (''PBE'', 31)]"

definition CPUID_EDX_APIC :: u32 where "CPUID_EDX_APIC = push_bit 9 1"

record cpuid_info =
  vendor_str :: "u8 list"
  info_ecx :: u32
  info_edx :: u32

text \<open>
  The instruction \<^verbatim>\<open>cpuid\<close> is a parameter: for a leaf it gives \<^verbatim>\<open>ebx\<close>, \<^verbatim>\<open>edx\<close> and \<^verbatim>\<open>ecx\<close>.
\<close>

definition vendor_bytes :: "u32 \<Rightarrow> u8 list" where
  "vendor_bytes r = map (\<lambda>i. ucast (drop_bit (i * 8) r AND 0xFF)) [0..<4]"

definition CPUID :: "(u32 \<Rightarrow> u32 \<times> u32 \<times> u32) \<Rightarrow> cpuid_info" where
  "CPUID cpuid =
     (let (ebx, edx, ecx) = cpuid 0; (_, edx1, ecx1) = cpuid 1
      in \<lparr>vendor_str = vendor_bytes ebx @ vendor_bytes edx @ vendor_bytes ecx, info_ecx = ecx1, info_edx = edx1\<rparr>)"

record CPUCore =
  core_self :: u64
  core_number :: u64
  core_gdt :: u64
  core_gdtPtr :: desc_pointer
  core_idtPtr :: desc_pointer
  currentThread :: u64
  idleThread :: u64
  idleProcess :: u64

record cpu_state =
  msr :: "u32 \<Rightarrow> u64"
  cores :: "u64 \<rightharpoonup> CPUCore"
  cpu_irq :: bool

definition MSR_GS_BASE :: u32 where "MSR_GS_BASE = 0xC0000101"
definition MSR_KERNEL_GS_BASE :: u32 where "MSR_KERNEL_GS_BASE = 0xC0000102"

text \<open>\<^verbatim>\<open>wrmsr\<close> takes its value in two halves.\<close>

definition wrmsr :: "u32 \<Rightarrow> u64 \<Rightarrow> u64 \<Rightarrow> cpu_state \<Rightarrow> cpu_state" where
  "wrmsr reg low high s = s\<lparr>msr := (msr s)(reg := push_bit 32 (high AND 0xFFFFFFFF) OR (low AND 0xFFFFFFFF))\<rparr>"

definition SetCPULocal :: "u64 \<Rightarrow> cpu_state \<Rightarrow> cpu_state res" where
  "SetCPULocal cpu s =
     (if cpu = 0 then Inl NullDeref
      else case cores s cpu of
        None \<Rightarrow> Inl (PageFault cpu)
      | Some c \<Rightarrow>
          let s1 = s\<lparr>cores := (cores s)(cpu \<mapsto> c\<lparr>core_self := cpu\<rparr>)\<rparr>
          in Inr (wrmsr MSR_GS_BASE (cpu AND 0xFFFFFFFF) (drop_bit 32 cpu AND 0xFFFFFFFF)
                 (wrmsr MSR_KERNEL_GS_BASE (cpu AND 0xFFFFFFFF) (drop_bit 32 cpu AND 0xFFFFFFFF) s1)))"

definition DisableInterrupts :: "cpu_state \<Rightarrow> cpu_state" where "DisableInterrupts s = s\<lparr>cpu_irq := False\<rparr>"
definition EnableInterrupts :: "cpu_state \<Rightarrow> cpu_state" where "EnableInterrupts s = s\<lparr>cpu_irq := True\<rparr>"

definition swapgs :: "cpu_state \<Rightarrow> cpu_state" where
  "swapgs s = s\<lparr>msr := (msr s)(MSR_GS_BASE := msr s MSR_KERNEL_GS_BASE, MSR_KERNEL_GS_BASE := msr s MSR_GS_BASE)\<rparr>"

definition GetCPULocal :: "cpu_state \<Rightarrow> (u64 \<times> cpu_state) res" where
  "GetCPULocal s =
     (let s1 = swapgs (DisableInterrupts s); a = msr s1 MSR_GS_BASE
      in case cores s1 a of
           None \<Rightarrow> Inl (PageFault a)
         | Some c \<Rightarrow> Inr (core_self c, EnableInterrupts (swapgs s1)))"

section \<open>Results\<close>

lemma bits_0xff: "(0xffff :: u64) = mask 16" "(0xff :: u64) = mask 8" "(0xffffffff :: u64) = mask 32"
  by (simp_all add: mask_eq_exp_minus_1)

lemma task_base_of:
  assumes "task_base_low e = ucast (a AND 0xffff)" and "task_base_medium e = ucast (drop_bit 16 a AND 0xff)"
    and "task_base_high e = ucast (drop_bit 24 a AND 0xff)" and "task_base_upper e = ucast (drop_bit 32 a)"
  shows "task_base e = a"
proof (rule bit_word_eqI)
  fix n assume n: "n < LENGTH(64)"
  then consider "n < 16" | "16 \<le> n" "n < 24" | "24 \<le> n" "n < 32" | "32 \<le> n" by linarith
  then show "bit (task_base e) n = bit a n"
    using n by cases (auto simp: task_base_def assms bits_0xff bit_simps)
qed

lemma gate_target_gate: "gate_target (gate isr flags) = isr"
proof (rule bit_word_eqI)
  fix n assume n: "n < LENGTH(64)"
  then consider "n < 16" | "16 \<le> n" "n < 32" | "32 \<le> n" by linarith
  then show "bit (gate_target (gate isr flags)) n = bit isr n"
    using n by cases (auto simp: gate_target_def gate_def bits_0xff bit_simps)
qed

lemma fold_set_gate:
  "g_IdtEntryList (fold (\<lambda>num. set_gate num (f num)) [0..<n] s) v = (if v < n then f v else g_IdtEntryList s v)"
  by (induction n) (auto simp: set_gate_def less_Suc_eq)

lemma msr_halves: "push_bit 32 ((drop_bit 32 a AND 0xFFFFFFFF) AND 0xFFFFFFFF) OR ((a AND 0xFFFFFFFF) AND 0xFFFFFFFF) = (a :: u64)"
  unfolding bits_0xff by (rule bit_word_eqI) (auto simp: bit_simps)

lemma wrmsr_halves:
  "wrmsr reg (a AND 0xFFFFFFFF) (drop_bit 32 a AND 0xFFFFFFFF) s = s\<lparr>msr := (msr s)(reg := a)\<rparr>"
  unfolding wrmsr_def msr_halves by (rule refl)

section \<open>Properties\<close>


text \<open>
  After \<^verbatim>\<open>LoadGlobalDescTable\<close> the task descriptor that the processor reads is present, has the
  address of the task state segment as its base and does not change the code and data segments;
  its limit is the size of the segment and not, as for a limit, one less.
\<close>

theorem gdt_task_descriptor:
  "let s' = LoadGlobalDescTable s; e = gdt_tss (gdt s') in
     task_base e = tss_at s \<and> bit (task_flags_a e) 7 \<and> task_flags_a e AND 0xF = 9 \<and> unat (task_len e) = 104 \<and>
     gdt_entries (gdt s') = gdt_entries (gdt s) \<and> gdtr s' = Some \<lparr>dp_size = 55, dp_base = gdt_at s\<rparr>"
proof -
  have "bit (0x89 :: u8) 7" by (simp add: bit_iff_odd)
  moreover have "task_base (gdt_tss (gdt (LoadGlobalDescTable s))) = tss_at s"
    by (rule task_base_of) (simp_all add: LoadGlobalDescTable_def Let_def)
  ultimately show ?thesis
    by (simp add: LoadGlobalDescTable_def Let_def sizeof_TaskStateSegment_def g_Gdtr_def sizeof_GlobalDescTablePackage_def)
qed

text \<open>
  \<^verbatim>\<open>GetCPULocal\<close> after \<^verbatim>\<open>SetCPULocal\<close> returns the address that was set; it leaves the two segment
  base registers as they were and interrupts enabled, also when they had been disabled.
\<close>

theorem cpu_local_roundtrip:
  assumes "SetCPULocal cpu s = Inr s1"
  shows "\<exists>s2. GetCPULocal s1 = Inr (cpu, s2) \<and> msr s2 = msr s1 \<and> cores s2 = cores s1 \<and> cpu_irq s2"
proof -
  obtain c where c: "cores s cpu = Some c" using assms by (auto simp: SetCPULocal_def split: if_splits option.splits)
  have "msr s1 MSR_GS_BASE = cpu" "msr s1 MSR_KERNEL_GS_BASE = cpu" "cores s1 cpu = Some (c\<lparr>core_self := cpu\<rparr>)"
    using assms c by (auto simp: SetCPULocal_def wrmsr_halves MSR_GS_BASE_def MSR_KERNEL_GS_BASE_def split: if_splits)
  then show ?thesis
    by (simp add: GetCPULocal_def swapgs_def DisableInterrupts_def EnableInterrupts_def Let_def MSR_GS_BASE_def
        MSR_KERNEL_GS_BASE_def fun_eq_iff)
qed

definition demo_core :: CPUCore where
  "demo_core = \<lparr>core_self = 0, core_number = 0, core_gdt = 0, core_gdtPtr = \<lparr>dp_size = 0, dp_base = 0\<rparr>,
     core_idtPtr = \<lparr>dp_size = 0, dp_base = 0\<rparr>, currentThread = 0, idleThread = 0, idleProcess = 0\<rparr>"

theorem cpu_local_roundtrip_witness:
  "\<exists>s1 s2. SetCPULocal 0xFFFFFFFF80500000 \<lparr>msr = (\<lambda>_. 0), cores = (\<lambda>_. Some demo_core), cpu_irq = False\<rparr> = Inr s1 \<and>
     GetCPULocal s1 = Inr (0xFFFFFFFF80500000, s2)"
proof -
  obtain s1 where s1: "SetCPULocal 0xFFFFFFFF80500000 \<lparr>msr = (\<lambda>_. 0), cores = (\<lambda>_. Some demo_core), cpu_irq = False\<rparr> = Inr s1"
    by (simp add: SetCPULocal_def Let_def)
  from cpu_local_roundtrip [OF this] s1 show ?thesis by blast
qed

end
