(* ===== verification/Acpi.thy ===== *)
theory Acpi
  imports Slub Byte_Memory Ports Descriptors
begin

text \<open>
  The firmware tables: \<^verbatim>\<open>impl-acpi.c\<close> and \<^verbatim>\<open>acpi.h\<close>.  The state of the machine is extended by the
  memory seen as bytes, the ports, the descriptor tables, the processor and the globals of the
  firmware code.  The walk over the entries of the multiple APIC description table has fuel; the
  results say when it returns and what it collects.
\<close>

section \<open>State\<close>

record hw_state = slab_state +
  bytes :: bmem
  ports :: io_state
  descs :: desc_state
  cpu :: cpu_state
  g_Processors :: "nat \<Rightarrow> u8"
  g_ProcessorCount :: nat
  acpiDesc :: u64
  acpiRsdtHeader :: u64
  acpiXsdtHeader :: u64
  acpiFadt :: u64
  g_Isos :: "nat \<Rightarrow> u64"
  g_IsoAmount :: u8
  pciMcfg :: u64
  acpiOemId_at :: u64
  ioApicBase :: u64

text \<open>The interrupt flag of the processor is the one that \<^verbatim>\<open>hlt\<close> looks at.\<close>

definition on_cpu :: "(cpu_state \<Rightarrow> cpu_state) \<Rightarrow> 'a hw_state_scheme \<Rightarrow> 'a hw_state_scheme" where
  "on_cpu f s = s\<lparr>cpu := f (cpu s), irq_on := cpu_irq (f (cpu s))\<rparr>"

definition on_ports :: "(io_state \<Rightarrow> io_state) \<Rightarrow> 'a hw_state_scheme \<Rightarrow> 'a hw_state_scheme" where
  "on_ports f s = s\<lparr>ports := f (ports s)\<rparr>"

section \<open>Members of the tables\<close>

definition sizeof_acpi_header :: u64 where "sizeof_acpi_header = 36"
definition sizeof_acpi_madt :: u64 where "sizeof_acpi_madt = 44"

definition rsdp_revision :: "u64 \<Rightarrow> bmem \<Rightarrow> u8" where "rsdp_revision p m = rd8 (p + 15) m"
definition rsdp_rsdtPtr :: "u64 \<Rightarrow> bmem \<Rightarrow> u32" where "rsdp_rsdtPtr p m = rd32 (p + 16) m"
definition xsdp_xsdtPtr :: "u64 \<Rightarrow> bmem \<Rightarrow> u64" where "xsdp_xsdtPtr p m = rd64 (p + 24) m"
definition table_length :: "u64 \<Rightarrow> bmem \<Rightarrow> u32" where "table_length t m = rd32 (t + 4) m"
definition table_oemId :: "u64 \<Rightarrow> u64" where "table_oemId t = t + 10"
definition fadt_dsdt :: "u64 \<Rightarrow> bmem \<Rightarrow> u32" where "fadt_dsdt t m = rd32 (t + 40) m"

definition madt_type :: "u64 \<Rightarrow> bmem \<Rightarrow> u8" where "madt_type e m = rd8 e m"
definition madt_length :: "u64 \<Rightarrow> bmem \<Rightarrow> u8" where "madt_length e m = rd8 (e + 1) m"
definition local_apicId :: "u64 \<Rightarrow> bmem \<Rightarrow> u8" where "local_apicId e m = rd8 (e + 3) m"
definition local_flags :: "u64 \<Rightarrow> bmem \<Rightarrow> u32" where "local_flags e m = rd32 (e + 4) m"
definition io_address :: "u64 \<Rightarrow> bmem \<Rightarrow> u32" where "io_address e m = rd32 (e + 4) m"
definition io_gSib :: "u64 \<Rightarrow> bmem \<Rightarrow> u32" where "io_gSib e m = rd32 (e + 8) m"
definition iso_irqSource :: "u64 \<Rightarrow> bmem \<Rightarrow> u8" where "iso_irqSource e m = rd8 (e + 3) m"
definition iso_gSi :: "u64 \<Rightarrow> bmem \<Rightarrow> u32" where "iso_gSi e m = rd32 (e + 4) m"

section \<open>Finding tables\<close>

text \<open>\<^verbatim>\<open>memcmp\<close> against a literal of the source.\<close>

fun memcmp_lit :: "u64 \<Rightarrow> u8 list \<Rightarrow> bmem \<Rightarrow> int" where
  "memcmp_lit a [] m = 0"
| "memcmp_lit a (b # bs) m = (if m a \<noteq> b then uint (m a) - uint b else memcmp_lit (a + 1) bs m)"

definition acpi_Signature :: "u8 list" where "acpi_Signature = lit ''RSD PTR ''"

text \<open>
  The structure with the 64-bit pointers is not packed, so they start at offset 40, four bytes
  behind the table header.
\<close>

definition acpi_GetEntry :: "u64 \<Rightarrow> 'a hw_state_scheme \<Rightarrow> u64" where
  "acpi_GetEntry index s =
     (if rsdp_revision (acpiDesc s) (bytes s) = 2
      then rd64 (acpiXsdtHeader s + 40 + 8 * index) (bytes s)
      else ucast (rd32 (acpiRsdtHeader s + 36 + 4 * index) (bytes s)))"

text \<open>
  The loop over the tables: \<open>i\<close> counts the entries and \<open>found\<close> the tables with the signature.
  Its end is the end of the function, which has no \<^verbatim>\<open>return\<close> there.
\<close>

fun find_loop :: "nat \<Rightarrow> nat \<Rightarrow> u8 list \<Rightarrow> int \<Rightarrow> int \<Rightarrow> 'a hw_state_scheme \<Rightarrow> (u64 \<times> 'a hw_state_scheme) res" where
  "find_loop 0 i str index found s = Inl MissingReturn"
| "find_loop (Suc n) i str index found s =
     (let (header, s1) = VM_GetIOMapping (acpi_GetEntry (of_nat i) s) s
      in if memcmp_lit header (take 4 str) (bytes s1) = 0
         then if found = index then Inr (header, s1) else find_loop n (Suc i) str index (found + 1) s1
         else find_loop n (Suc i) str index found s1)"

text \<open>
  The number of entries is computed from an unsigned length and kept in an \<^verbatim>\<open>int\<close>; the length is
  always taken from the pointer to the root table.
\<close>

definition table_count :: "'a hw_state_scheme \<Rightarrow> int" where
  "table_count s =
     sint (ucast ((ucast (table_length (acpiRsdtHeader s) (bytes s)) - sizeof_acpi_header) div
       (if rsdp_revision (acpiDesc s) (bytes s) = 2 then 8 else 4)) :: u32)"

definition ACPI_FindTable :: "u8 list \<Rightarrow> int \<Rightarrow> 'a hw_state_scheme \<Rightarrow> (u64 \<times> 'a hw_state_scheme) res" where
  "ACPI_FindTable str index s =
     (if acpiDesc s = 0 then Inr (0, s)
      else if take 4 str = lit ''DSDT'' then
        if acpiFadt s = 0 then Inl NullDeref
        else Inr (VM_GetIOMapping (ucast (fadt_dsdt (acpiFadt s) (bytes s))) s)
      else find_loop (nat (table_count s)) 0 str index 0 s)"

section \<open>The multiple APIC description table\<close>

definition IOAPIC_SetBase :: "u64 \<Rightarrow> 'a hw_state_scheme \<Rightarrow> 'a hw_state_scheme" where
  "IOAPIC_SetBase newBase s = s\<lparr>ioApicBase := newBase\<rparr>"

definition add_iso :: "u64 \<Rightarrow> 'a hw_state_scheme \<Rightarrow> 'a hw_state_scheme" where
  "add_iso e s = s\<lparr>g_Isos := (g_Isos s)(unat (g_IsoAmount s) := e), g_IsoAmount := g_IsoAmount s + 1\<rparr>"

text \<open>Case 1 has no \<^verbatim>\<open>break\<close>: the description of an I/O APIC is also filed as an override.\<close>

definition madt_entry :: "u64 \<Rightarrow> 'a hw_state_scheme \<Rightarrow> 'a hw_state_scheme res" where
  "madt_entry e s =
     (if madt_type e (bytes s) = 0 then
        if local_flags e (bytes s) AND 3 \<noteq> 0 \<and> local_apicId e (bytes s) \<noteq> 0
        then bind_res (check_index 256 (g_ProcessorCount s)) (\<lambda>_.
             Inr (s\<lparr>g_Processors := (g_Processors s)(g_ProcessorCount s := local_apicId e (bytes s)),
                    g_ProcessorCount := g_ProcessorCount s + 1\<rparr>))
        else Inr s
      else if madt_type e (bytes s) = 1 then
        Inr (add_iso e (if io_gSib e (bytes s) = 0 then IOAPIC_SetBase (ucast (io_address e (bytes s))) s else s))
      else if madt_type e (bytes s) = 2 then Inr (add_iso e s)
      else Inr s)"

fun madt_loop :: "nat \<Rightarrow> u64 \<Rightarrow> u64 \<Rightarrow> 'a hw_state_scheme \<Rightarrow> 'a hw_state_scheme res" where
  "madt_loop 0 e madtEnd s = Inl OutOfFuel"
| "madt_loop (Suc fuel) e madtEnd s =
     (if e < madtEnd
      then bind_res (madt_entry e s) (\<lambda>s1. madt_loop fuel (e + ucast (madt_length e (bytes s1))) madtEnd s1)
      else Inr s)"

section \<open>Initialisation\<close>

text \<open>One of the three searches, in steps of sixteen bytes.\<close>

fun search_rsdp :: "nat \<Rightarrow> u64 \<Rightarrow> 'a hw_state_scheme \<Rightarrow> u64 option \<times> 'a hw_state_scheme" where
  "search_rsdp 0 addr s = (None, s)"
| "search_rsdp (Suc n) addr s =
     (let (p, s1) = VM_GetIOMapping addr s
      in if memcmp_lit p acpi_Signature (bytes s1) = 0 then (Some p, s1) else search_rsdp n (addr + 16) s1)"

definition find_rsdp :: "'a hw_state_scheme \<Rightarrow> (u64 \<times> 'a hw_state_scheme) res" where
  "find_rsdp s =
     (case search_rsdp 1984 0 s of
        (Some p, s1) \<Rightarrow> Inr (p, s1)
      | (None, s1) \<Rightarrow>
          (case search_rsdp 8192 0x80000 s1 of
             (Some p, s2) \<Rightarrow> Inr (p, s2)
           | (None, s2) \<Rightarrow>
               (case search_rsdp 8192 0xE0000 s2 of
                  (Some p, s3) \<Rightarrow> Inr (p, s3)
                | (None, s3) \<Rightarrow> Inl (Panic ''[ERR] No ACPI table found.''))))"

definition set_roots :: "'a hw_state_scheme \<Rightarrow> 'a hw_state_scheme" where
  "set_roots s =
     (if rsdp_revision (acpiDesc s) (bytes s) = 2
      then let (p, s1) = VM_GetIOMapping (xsdp_xsdtPtr (acpiDesc s) (bytes s)) s;
               s2 = s1\<lparr>acpiRsdtHeader := p\<rparr>;
               (q, s3) = VM_GetIOMapping (xsdp_xsdtPtr (acpiDesc s2) (bytes s2)) s2
           in s3\<lparr>acpiXsdtHeader := q\<rparr>
      else let (p, s1) = VM_GetIOMapping (ucast (rsdp_rsdtPtr (acpiDesc s) (bytes s))) s
           in s1\<lparr>acpiRsdtHeader := p\<rparr>)"

definition ACPI_Initialize :: "nat \<Rightarrow> 'a hw_state_scheme \<Rightarrow> 'a hw_state_scheme res" where
  "ACPI_Initialize fuel s =
     bind_res (find_rsdp s) (\<lambda>(p, s1).
     let s2 = set_roots (s1\<lparr>acpiDesc := p\<rparr>);
         s3 = s2\<lparr>bytes := snd (memcpy (acpiOemId_at s2) (table_oemId (acpiRsdtHeader s2)) 6 (bytes s2))\<rparr>;
         s4 = s3\<lparr>bytes := (bytes s3)(acpiOemId_at s3 + 6 := 0)\<rparr>
     in
     bind_res (ACPI_FindTable (lit ''FACP'') 0 s4) (\<lambda>(fadt, s5).
     let s6 = on_cpu DisableInterrupts (s5\<lparr>acpiFadt := fadt\<rparr>) in
     bind_res (ACPI_FindTable (lit ''APIC'') 0 s6) (\<lambda>(madt, s7).
     if madt = 0 then Inl NullDeref
     else
       bind_res (madt_loop fuel (madt + sizeof_acpi_madt) (madt + ucast (table_length madt (bytes s7))) s7) (\<lambda>s8.
       bind_res (ACPI_FindTable (lit ''MCFG'') 0 s8) (\<lambda>(mcfg, s9).
       Inr (on_cpu EnableInterrupts (s9\<lparr>pciMcfg := mcfg\<rparr>)))))))"

section \<open>What the walk should collect\<close>

fun madt_chain :: "bmem \<Rightarrow> u64 \<Rightarrow> u64 \<Rightarrow> u64 list \<Rightarrow> bool" where
  "madt_chain m e madtEnd [] \<longleftrightarrow> \<not> e < madtEnd"
| "madt_chain m e madtEnd (x # xs) \<longleftrightarrow> e = x \<and> e < madtEnd \<and> madt_chain m (e + ucast (madt_length e m)) madtEnd xs"

definition usable_cpu :: "bmem \<Rightarrow> u64 \<Rightarrow> bool" where
  "usable_cpu m e \<longleftrightarrow> madt_type e m = 0 \<and> local_flags e m AND 3 \<noteq> 0 \<and> local_apicId e m \<noteq> 0"

definition filed_iso :: "bmem \<Rightarrow> u64 \<Rightarrow> bool" where
  "filed_iso m e \<longleftrightarrow> madt_type e m = 1 \<or> madt_type e m = 2"

definition filed_isos :: "bmem \<Rightarrow> u64 list \<Rightarrow> u64 list" where
  "filed_isos m es = filter (filed_iso m) es"

definition cpu_ids :: "bmem \<Rightarrow> u64 list \<Rightarrow> u8 list" where
  "cpu_ids m es = map (\<lambda>e. local_apicId e m) (filter (usable_cpu m) es)"

definition processors :: "'a hw_state_scheme \<Rightarrow> u8 list" where
  "processors s = map (g_Processors s) [0..<g_ProcessorCount s]"

definition overrides :: "'a hw_state_scheme \<Rightarrow> u64 list" where
  "overrides s = map (g_Isos s) [0..<unat (g_IsoAmount s)]"

section \<open>Results\<close>

lemma madt_entry_step:
  assumes "g_ProcessorCount s + length (cpu_ids m [e]) \<le> 256" and "unat (g_IsoAmount s) + length (filed_isos m [e]) < 256"
    and m: "bytes s = m"
  shows "\<exists>s'. madt_entry e s = Inr s' \<and> bytes s' = m \<and> processors s' = processors s @ cpu_ids m [e] \<and>
    overrides s' = overrides s @ filed_isos m [e] \<and>
    g_ProcessorCount s' = g_ProcessorCount s + length (cpu_ids m [e]) \<and>
    unat (g_IsoAmount s') = unat (g_IsoAmount s) + length (filed_isos m [e])"
proof -
  consider (cpu) "usable_cpu m e" | (filed) "filed_iso m e" | (skip) "\<not> usable_cpu m e" "\<not> filed_iso m e" by blast
  then show ?thesis
  proof cases
    case cpu
    then show ?thesis
      using assms by (auto simp: madt_entry_def usable_cpu_def filed_iso_def filed_isos_def cpu_ids_def processors_def overrides_def res_simps)
  next
    case filed
    then have "unat (g_IsoAmount s + 1) = unat (g_IsoAmount s) + 1"
      using assms(2) by (intro unat_plus_one) (simp add: filed_isos_def)
    then show ?thesis
      using filed m by (auto simp: madt_entry_def usable_cpu_def filed_iso_def filed_isos_def cpu_ids_def processors_def overrides_def
          add_iso_def IOAPIC_SetBase_def)
  next
    case skip
    then show ?thesis
      using m by (auto simp: madt_entry_def usable_cpu_def filed_iso_def filed_isos_def cpu_ids_def)
  qed
qed

lemma madt_loop_run:
  assumes "madt_chain m e madtEnd es" and "length es < fuel" and "bytes s = m"
    and "g_ProcessorCount s + length (cpu_ids m es) \<le> 256" and "unat (g_IsoAmount s) + length (filed_isos m es) < 256"
  shows "\<exists>s'. madt_loop fuel e madtEnd s = Inr s' \<and> processors s' = processors s @ cpu_ids m es \<and>
    overrides s' = overrides s @ filed_isos m es"
  using assms
proof (induction es arbitrary: e fuel s)
  case Nil
  then show ?case by (cases fuel) (simp_all add: cpu_ids_def filed_isos_def)
next
  case (Cons x xs)
  obtain k where k: "fuel = Suc k" using Cons.prems(2) by (cases fuel) simp_all
  have x: "e = x" "x < madtEnd" "madt_chain m (x + ucast (madt_length x m)) madtEnd xs" using Cons.prems(1) by auto
  have sp: "cpu_ids m (x # xs) = cpu_ids m [x] @ cpu_ids m xs"
      "filed_isos m (x # xs) = filed_isos m [x] @ filed_isos m xs"
    by (simp_all add: cpu_ids_def filed_isos_def)
  obtain s1 where s1: "madt_entry x s = Inr s1" "bytes s1 = m" "processors s1 = processors s @ cpu_ids m [x]"
      "overrides s1 = overrides s @ filed_isos m [x]"
      "g_ProcessorCount s1 = g_ProcessorCount s + length (cpu_ids m [x])"
      "unat (g_IsoAmount s1) = unat (g_IsoAmount s) + length (filed_isos m [x])"
    using madt_entry_step [of s m x] Cons.prems(3-5) by (auto simp: sp)
  obtain s2 where "madt_loop k (x + ucast (madt_length x m)) madtEnd s1 = Inr s2"
      "processors s2 = processors s1 @ cpu_ids m xs" "overrides s2 = overrides s1 @ filed_isos m xs"
    using Cons.IH [OF x(3), of k s1] Cons.prems(2,4,5) k s1 by (auto simp: sp)
  then show ?case using x s1 by (simp add: k sp)
qed

text \<open>The address of a table in the window for devices, and whether it carries a signature.\<close>

definition table_at :: "'a hw_state_scheme \<Rightarrow> nat \<Rightarrow> u64" where
  "table_at s i = acpi_GetEntry (of_nat i) s + KERNEL_IO_VIRTUAL_BASE"

definition has_signature :: "'a hw_state_scheme \<Rightarrow> u8 list \<Rightarrow> nat \<Rightarrow> bool" where
  "has_signature s str i \<longleftrightarrow> read_bytes (length str) (table_at s i) (bytes s) = str"

lemma memcmp_lit_zero: "memcmp_lit a bs m = 0 \<longleftrightarrow> read_bytes (length bs) a m = bs"
  by (induction bs arbitrary: a) (auto simp: word_uint_eq_iff)

lemma find_loop_first:
  assumes "\<And>j. j < i + n \<Longrightarrow> acpi_GetEntry (of_nat j) s \<le> 0xFFFFFFFF" and "length str = 4"
  shows "find_loop n i str 0 0 s =
    (case find (has_signature s str) [i..<i + n] of None \<Rightarrow> Inl MissingReturn | Some j \<Rightarrow> Inr (table_at s j, s))"
  using assms(1)
proof (induction n arbitrary: i)
  case (Suc n)
  have "VM_GetIOMapping (acpi_GetEntry (of_nat i) s) s = (table_at s i, s)"
    using leD [OF Suc.prems [of i]] by (simp add: VM_GetIOMapping_def table_at_def)
  moreover have "[i..<i + Suc n] = i # [Suc i..<Suc i + n]" by (simp add: upt_conv_Cons del: upt_Suc)
  ultimately show ?case
    using Suc.IH [of "Suc i"] Suc.prems assms(2)
    by (simp add: memcmp_lit_zero has_signature_def del: upt_Suc)
qed simp

section \<open>Properties\<close>

text \<open>
  C16. The walk over a well-formed table returns; the list of processors grows by the identifiers
  of the enabled processors other than number 0, in the order of the table, as long as there is
  room for them, and the list of interrupt overrides grows by the overrides of the table and, since
  the case before them falls through, by its descriptions of I/O APICs as well.
\<close>

theorem madt_collects:
  assumes "madt_chain (bytes s) e madtEnd es" and "length es < fuel"
    and "g_ProcessorCount s + length (cpu_ids (bytes s) es) \<le> 256"
    and "unat (g_IsoAmount s) + length (filed_isos (bytes s) es) < 256"
  shows "\<exists>s'. madt_loop fuel e madtEnd s = Inr s' \<and> processors s' = processors s @ cpu_ids (bytes s) es \<and>
    overrides s' = overrides s @ filter (\<lambda>x. madt_type x (bytes s) \<in> {1, 2}) es"
proof -
  have "filter (\<lambda>x. madt_type x (bytes s) \<in> {1, 2}) es = filed_isos (bytes s) es"
    unfolding filed_isos_def by (rule filter_cong) (auto simp: filed_iso_def)
  then show ?thesis using madt_loop_run [OF assms(1,2) refl assms(3,4)] by simp
qed

text \<open>
  An entry of length 0 before the end of the table keeps the walk from ever returning.
\<close>

theorem madt_zero_length_hangs:
  assumes "madt_length e (bytes s) = 0" and "e < madtEnd"
  shows "\<nexists>s'. madt_loop fuel e madtEnd s = Inr s'"
proof -
  have keep: "bytes s1 = bytes s" if "madt_entry e s = Inr s1" for s s1 :: "'a hw_state_scheme"
    using that by (auto simp: madt_entry_def add_iso_def IOAPIC_SetBase_def bind_res_eq_Inr split: if_splits)
  have "madt_loop fuel e madtEnd t \<noteq> Inr s'" if "bytes t = bytes s" for t s' :: "'a hw_state_scheme"
    using that
  proof (induction fuel arbitrary: t)
    case (Suc fuel)
    then show ?case using assms keep by (fastforce simp: bind_res_eq_Inr)
  qed simp
  then show ?thesis by blast
qed

text \<open>
  \<^verbatim>\<open>ACPI_FindTable\<close> for number 0 returns the first table of the root table that carries the
  signature, and changes nothing; without such a table it runs off its end and has no value.
\<close>

theorem acpi_find_table_first:
  assumes "acpiDesc s \<noteq> 0" and "length str = 4" and "str \<noteq> lit ''DSDT''"
    and "\<And>j. j < nat (table_count s) \<Longrightarrow> acpi_GetEntry (of_nat j) s \<le> 0xFFFFFFFF"
  shows "ACPI_FindTable str 0 s =
    (case find (has_signature s str) [0..<nat (table_count s)] of
       None \<Rightarrow> Inl MissingReturn | Some j \<Rightarrow> Inr (table_at s j, s))"
  using find_loop_first [of 0 "nat (table_count s)" s str] assms by (simp add: ACPI_FindTable_def)

text \<open>A machine with given memory, and a table with one processor and one I/O APIC.\<close>

definition demo_descs :: desc_state where
  "demo_descs = \<lparr>gdt = initial_gdt, gdt_at = 0xFFFFFFFF80800000, tss_at = 0xFFFFFFFF80801000,
     g_IdtEntryList = (\<lambda>_. gate 0 0), g_IdtEntryList_at = 0xFFFFFFFF80802000, gdtr = None, idtr = None\<rparr>"

definition demo_hw :: "bmem \<Rightarrow> hw_state" where
  "demo_hw m = slab_state.extend (vm_state.extend demo_vm (slab_state.fields (\<lambda>_. 0) 0xFFFFFFFF80700000)) (hw_state.fields m
     \<lparr>port_input = (\<lambda>_ _. 0), port_reads = 0, port_output = []\<rparr> demo_descs
     \<lparr>msr = (\<lambda>_. 0), cores = (\<lambda>_. None), cpu_irq = False\<rparr>
     (\<lambda>_. 0) 1 0 0 0 0 (\<lambda>_. 0) 0 0 0xFFFFFFFF80803000 0)"

lemma demo_hw_fields:
  "bytes (demo_hw m) = m" "g_ProcessorCount (demo_hw m) = 1" "g_IsoAmount (demo_hw m) = 0"
  "processors (demo_hw m) = [0]" "overrides (demo_hw m) = []"
  by (simp_all add: demo_hw_def hw_state.defs slab_state.defs vm_state.defs demo_vm_def processors_def overrides_def)

definition demo_madt :: bmem where
  "demo_madt = (\<lambda>_. 0)(0x101 := 8, 0x103 := 5, 0x104 := 1, 0x108 := 1, 0x109 := 12)"

theorem madt_collects_witness:
  "\<exists>s'. madt_loop 3 0x100 0x114 (demo_hw demo_madt) = Inr s' \<and> processors s' = [0, 5] \<and> overrides s' = [0x108]"
proof -
  have f: "cpu_ids demo_madt [0x100, 0x108] = [5]" "filed_isos demo_madt [0x100, 0x108] = [0x108]"
    by (simp_all add: cpu_ids_def filed_isos_def filed_iso_def usable_cpu_def madt_type_def local_flags_def local_apicId_def
        rd_defs demo_madt_def)
  have "madt_chain demo_madt 0x100 0x114 [0x100, 0x108]"
    by (simp add: madt_length_def rd_defs demo_madt_def)
  then show ?thesis
    using madt_collects [of "demo_hw demo_madt" "0x100" "0x114" "[0x100, 0x108]" 3] f
    by (auto simp: demo_hw_fields madt_type_def rd_defs demo_madt_def)
qed

theorem madt_zero_length_hangs_witness: "\<nexists>s'. madt_loop 500 0x100 0x114 (demo_hw (\<lambda>_. 0)) = Inr s'"
  by (rule madt_zero_length_hangs) (simp_all add: demo_hw_fields madt_length_def rd_defs)

text \<open>A root table at 4096 in the device window with two tables, the second one named APIC.\<close>

definition demo_acpi :: hw_state where
  "demo_acpi = (demo_hw ((\<lambda>_. 0)(0xFFFFFF9300001004 := 44, 0xFFFFFF9300001025 := 0x20, 0xFFFFFF9300001029 := 0x30,
     0xFFFFFF9300003000 := 0x41, 0xFFFFFF9300003001 := 0x50, 0xFFFFFF9300003002 := 0x49, 0xFFFFFF9300003003 := 0x43)))
     \<lparr>acpiDesc := 0xFFFFFF9300000100, acpiRsdtHeader := 0xFFFFFF9300001000\<rparr>"

theorem acpi_find_table_first_witness: "ACPI_FindTable (lit ''APIC'') 0 demo_acpi = Inr (0xFFFFFF9300003000, demo_acpi)"
proof -
  have b: "bytes demo_acpi = (\<lambda>_. 0)(0xFFFFFF9300001004 := 44, 0xFFFFFF9300001025 := 0x20, 0xFFFFFF9300001029 := 0x30,
     0xFFFFFF9300003000 := 0x41, 0xFFFFFF9300003001 := 0x50, 0xFFFFFF9300003002 := 0x49, 0xFFFFFF9300003003 := 0x43)"
    "acpiDesc demo_acpi = 0xFFFFFF9300000100" "acpiRsdtHeader demo_acpi = 0xFFFFFF9300001000"
    by (simp_all add: demo_acpi_def demo_hw_fields)
  have "rsdp_revision (acpiDesc demo_acpi) (bytes demo_acpi) = 0" "table_length (acpiRsdtHeader demo_acpi) (bytes demo_acpi) = 44"
    by (simp_all add: rsdp_revision_def table_length_def rd_defs b)
  then have c: "nat (table_count demo_acpi) = 2" by (simp add: table_count_def sizeof_acpi_header_def)
  have e: "acpi_GetEntry 0 demo_acpi = 0x2000" "acpi_GetEntry 1 demo_acpi = 0x3000"
    by (simp_all add: acpi_GetEntry_def rsdp_revision_def rd_defs b)
  have "acpi_GetEntry (of_nat j) demo_acpi \<le> 0xFFFFFFFF" if "j < 2" for j
  proof -
    have "j = 0 \<or> j = 1" using that by auto
    then show ?thesis using e by auto
  qed
  moreover have "\<not> has_signature demo_acpi (lit ''APIC'') 0" "has_signature demo_acpi (lit ''APIC'') 1"
    by (simp_all add: has_signature_def table_at_def e KERNEL_IO_VIRTUAL_BASE_def b lit_def)
  moreover have "[0..<2] = [0, 1 :: nat]" by (simp add: upt_rec)
  ultimately show ?thesis
    using acpi_find_table_first [of demo_acpi "lit ''APIC''"] c e
    by (simp add: b lit_def table_at_def KERNEL_IO_VIRTUAL_BASE_def)
qed

end
