(* ===== verification/Apic.thy ===== *)
theory Apic
  imports Acpi
begin

text \<open>
  The local and the I/O interrupt controllers: \<^verbatim>\<open>impl-apic.c\<close>, the register numbers of \<^verbatim>\<open>apic.h\<close> and
  \<^verbatim>\<open>GetCpuNum\<close> of \<^verbatim>\<open>cpu.c\<close>.  Writes to device memory are recorded in order; what a device answers to a
  read is a function of the writes before it and part of the state.  The I/O APIC is reached
  through a pair of cells, one selects a register and the other shows it; the locale
  \<open>indexed_registers\<close> states this contract and derives the round trip of the 64-bit accesses.
\<close>

section \<open>Registers\<close>

definition LOCAL_APIC_ID :: u32 where "LOCAL_APIC_ID = 0x20"
definition LOCAL_APIC_SIVR :: u32 where "LOCAL_APIC_SIVR = 0xF0"
definition LOCAL_APIC_TIMER_DIVIDE :: u32 where "LOCAL_APIC_TIMER_DIVIDE = 0x3E0"

definition local_apic_registers :: "(string \<times> u32) list" where
  "local_apic_registers =
     [(''ID'', 0x20), (''VERSION'', 0x30), (''TPR'', 0x80), (''APR'', 0x90), (''PPR'', 0xA0), (''EOI'', 0xB0),
      (''RRD'', 0xC0), (''LDR'', 0xD0), (''DFR'', 0xE0), (''SIVR'', 0xF0), (''ISR'', 0x100), (''TMR'', 0x180),
      (''IRR'', 0x200), (''ERROR_STATUS'', 0x280), (''ICR_LOW'', 0x300), (''ICR_HIGH'', 0x310), (''LVT_TIMER'', 0x320),
      (''LVT_THERMAL'', 0x330), (''LVT_PERF_MONITORING'', 0x340), (''LVT_LINT0'', 0x350), (''LVT_LINT1'', 0x360),
      (''LVT_ERROR'', 0x370), (''TIMER_INITIAL_COUNT'', 0x380), (''TIMER_CURRENT_COUNT'', 0x390), (''TIMER_DIVIDE'', 0x3E0)]"

definition IO_APIC_REGSEL :: u64 where "IO_APIC_REGSEL = 0x00"
definition IO_APIC_WIN :: u64 where "IO_APIC_WIN = 0x10"
definition IO_APIC_REGISTER_ID :: u32 where "IO_APIC_REGISTER_ID = 0x0"
definition IO_APIC_REGISTER_VER :: u32 where "IO_APIC_REGISTER_VER = 0x1"
definition IO_APIC_REGISTER_ARB :: u32 where "IO_APIC_REGISTER_ARB = 0x2"
definition IO_APIC_RED_TABLE_ENT :: "u32 \<Rightarrow> u32" where "IO_APIC_RED_TABLE_ENT x = 0x10 + 2 * x"

type_synonym mmio_log = "(u64 \<times> u32) list"

record apic_state = hw_state +
  apicLocalPtr :: u64
  ioApicVirtBase :: u64
  ioApicRegisterSelect :: u64
  ioApicWindow :: u64
  ioApicInterrupts :: u32
  ioApicId :: u32
  mmio_writes :: mmio_log
  mmio_input :: "mmio_log \<Rightarrow> u64 \<Rightarrow> u32"

definition mmio_read :: "u64 \<Rightarrow> 'a apic_state_scheme \<Rightarrow> u32" where
  "mmio_read a s = mmio_input s (mmio_writes s) a"

definition mmio_write :: "u64 \<Rightarrow> u32 \<Rightarrow> 'a apic_state_scheme \<Rightarrow> 'a apic_state_scheme" where
  "mmio_write a v s = s\<lparr>mmio_writes := mmio_writes s @ [(a, v)]\<rparr>"

section \<open>The local controller\<close>

definition MSR_APIC_BASE :: u32 where "MSR_APIC_BASE = 0x1B"

definition LAPIC_WriteBase :: "u64 \<Rightarrow> 'a apic_state_scheme \<Rightarrow> 'a apic_state_scheme" where
  "LAPIC_WriteBase val s = on_cpu (wrmsr MSR_APIC_BASE (val AND 0xFFFFFFFF) (drop_bit 32 val)) s"

definition LAPIC_ReadBase :: "'a apic_state_scheme \<Rightarrow> u64" where
  "LAPIC_ReadBase s =
     (let v = msr (cpu s) MSR_APIC_BASE in push_bit 32 (drop_bit 32 v) OR (v AND 0xFFFFFFFF))"

text \<open>
  The register number is added to a pointer to 32-bit cells, so it counts cells and not bytes.
\<close>

definition LAPIC_WriteData :: "u32 \<Rightarrow> u32 \<Rightarrow> 'a apic_state_scheme \<Rightarrow> 'a apic_state_scheme" where
  "LAPIC_WriteData reg data s = mmio_write (apicLocalPtr s + 4 * ucast reg) data s"

definition LAPIC_ReadData :: "u32 \<Rightarrow> 'a apic_state_scheme \<Rightarrow> u32" where
  "LAPIC_ReadData reg s = mmio_read (apicLocalPtr s + 4 * ucast reg) s"

definition LAPIC_StartTimer :: "'a apic_state_scheme \<Rightarrow> 'a apic_state_scheme" where
  "LAPIC_StartTimer s = LAPIC_WriteData LOCAL_APIC_TIMER_DIVIDE 0x3 s"

definition LAPIC_Initialize :: "'a apic_state_scheme \<Rightarrow> 'a apic_state_scheme" where
  "LAPIC_Initialize s =
     (let (p, s1) = VM_GetIOMapping (LAPIC_ReadBase s) s;
          s2 = s1\<lparr>apicLocalPtr := p\<rparr>;
          s3 = LAPIC_WriteBase (LAPIC_ReadBase s2 OR push_bit 11 1) s2
      in LAPIC_WriteData LOCAL_APIC_SIVR (LAPIC_ReadData LOCAL_APIC_SIVR s3 OR 0x100) s3)"

definition GetCpuNum :: "'a apic_state_scheme \<Rightarrow> u32" where
  "GetCpuNum s =
     (if apicLocalPtr s \<noteq> 0 then drop_bit 24 (mmio_read (apicLocalPtr s + 4 * ucast (LOCAL_APIC_ID div 4)) s) else 0)"

section \<open>The I/O controller\<close>

definition IOAPIC_WriteData32 :: "u32 \<Rightarrow> u32 \<Rightarrow> 'a apic_state_scheme \<Rightarrow> 'a apic_state_scheme" where
  "IOAPIC_WriteData32 reg data s = mmio_write (ioApicWindow s) data (mmio_write (ioApicRegisterSelect s) reg s)"

definition IOAPIC_ReadData32 :: "u32 \<Rightarrow> 'a apic_state_scheme \<Rightarrow> u32 \<times> 'a apic_state_scheme" where
  "IOAPIC_ReadData32 reg s =
     (let s1 = mmio_write (ioApicRegisterSelect s) reg s in (mmio_read (ioApicWindow s1) s1, s1))"

definition IOAPIC_WriteData64 :: "u32 \<Rightarrow> u64 \<Rightarrow> 'a apic_state_scheme \<Rightarrow> 'a apic_state_scheme" where
  "IOAPIC_WriteData64 reg data s =
     (let low = ucast (data AND 0xFFFFFFFF); high = ucast (drop_bit 32 data)
      in IOAPIC_WriteData32 (reg + 1) high (IOAPIC_WriteData32 reg low s))"

definition IOAPIC_ReadData64 :: "u32 \<Rightarrow> 'a apic_state_scheme \<Rightarrow> u64 \<times> 'a apic_state_scheme" where
  "IOAPIC_ReadData64 reg s =
     (let (low, s1) = IOAPIC_ReadData32 reg s; (high, s2) = IOAPIC_ReadData32 (reg + 1) s1
      in (ucast low OR push_bit 32 (ucast high), s2))"

definition apic_Redirect :: "u8 \<Rightarrow> u8 \<Rightarrow> u32 \<Rightarrow> 'a apic_state_scheme \<Rightarrow> 'a apic_state_scheme" where
  "apic_Redirect irq vector delivery s = IOAPIC_WriteData64 (0x10 + 2 * ucast irq) (ucast (delivery OR ucast vector)) s"

definition redirect_iso :: "u64 \<Rightarrow> 'a apic_state_scheme \<Rightarrow> 'a apic_state_scheme" where
  "redirect_iso e s = apic_Redirect (ucast (iso_gSi e (bytes s))) (iso_irqSource e (bytes s) + 0x20) 0 s"

definition IOAPIC_Initialize :: "'a apic_state_scheme \<Rightarrow> 'a apic_state_scheme res" where
  "IOAPIC_Initialize s =
     (if ioApicBase s = 0 then Inl (Panic ''[APIC] Attempt to initialize I/O APIC with out base'')
      else
        let (v, s1) = VM_GetIOMapping (ioApicBase s) s;
            s2 = s1\<lparr>ioApicVirtBase := v, ioApicRegisterSelect := v + IO_APIC_REGSEL, ioApicWindow := v + IO_APIC_WIN\<rparr>;
            (ver, s3) = IOAPIC_ReadData32 IO_APIC_REGISTER_VER s2;
            s4 = s3\<lparr>ioApicInterrupts := drop_bit 16 ver\<rparr>;
            (ident, s5) = IOAPIC_ReadData32 IO_APIC_REGISTER_ID s4;
            s6 = s5\<lparr>ioApicId := drop_bit 24 ident\<rparr>
        in Inr (fold (\<lambda>i s. redirect_iso (g_Isos s i) s) [0..<unat (g_IsoAmount s6)] s6))"

section \<open>The contract of indexed registers\<close>

locale indexed_registers =
  fixes answer :: "mmio_log \<Rightarrow> u64 \<Rightarrow> u32" and sel win :: u64
    and contents :: "mmio_log \<Rightarrow> u32 \<Rightarrow> u32"
  assumes shown: "answer (ws @ [(sel, r)]) win = contents ws r"
    and selecting: "contents (ws @ [(sel, r)]) q = contents ws q"
    and storing: "contents (ws @ [(sel, r), (win, v)]) q = (if q = r then v else contents ws q)"
begin

lemma stored_pair:
  assumes "r' \<noteq> r"
  shows "contents (ws @ [(sel, r), (win, v), (sel, r'), (win, v')]) r = v"
    and "contents (ws @ [(sel, r), (win, v), (sel, r'), (win, v')]) r' = v'"
  using storing [of "ws @ [(sel, r), (win, v)]" r' v'] storing [of ws r v] assms by simp_all

lemma pair_shown:
  assumes "r' \<noteq> r"
  shows "answer (ws @ [(sel, r), (win, v), (sel, r'), (win, v'), (sel, r)]) win = v"
    and "answer (ws @ [(sel, r), (win, v), (sel, r'), (win, v'), (sel, r), (sel, r')]) win = v'"
proof -
  let ?ws = "ws @ [(sel, r), (win, v), (sel, r'), (win, v')]"
  show "answer (ws @ [(sel, r), (win, v), (sel, r'), (win, v'), (sel, r)]) win = v"
    using shown [of ?ws r] stored_pair(1) [OF assms] by simp
  show "answer (ws @ [(sel, r), (win, v), (sel, r'), (win, v'), (sel, r), (sel, r')]) win = v'"
    using shown [of "?ws @ [(sel, r)]" r'] selecting [of ?ws r r'] stored_pair(2) [OF assms] by simp
qed

end

text \<open>
  The device itself, as its data sheet describes it: the register that was selected last is the
  one that is read and written through the window.
\<close>

record ioapic_device =
  dev_selected :: u32
  dev_registers :: "u32 \<Rightarrow> u32"

definition dev_step :: "u64 \<Rightarrow> u64 \<Rightarrow> u64 \<times> u32 \<Rightarrow> ioapic_device \<Rightarrow> ioapic_device" where
  "dev_step sel win w d =
     (if fst w = sel then d\<lparr>dev_selected := snd w\<rparr>
      else if fst w = win then d\<lparr>dev_registers := (dev_registers d)(dev_selected d := snd w)\<rparr> else d)"

definition dev_answer :: "u64 \<Rightarrow> u64 \<Rightarrow> ioapic_device \<Rightarrow> mmio_log \<Rightarrow> u64 \<Rightarrow> u32" where
  "dev_answer sel win d ws a =
     (let d' = fold (dev_step sel win) ws d
      in if a = sel then dev_selected d' else if a = win then dev_registers d' (dev_selected d') else 0)"

interpretation ioapic: indexed_registers "dev_answer sel (sel + 0x10) d" sel "sel + 0x10"
  "\<lambda>ws. dev_registers (fold (dev_step sel (sel + 0x10)) ws d)" for sel d
  by unfold_locales (simp_all add: dev_answer_def dev_step_def Let_def)

section \<open>Results\<close>

lemma mmio_write_simps [simp]:
  "mmio_writes (mmio_write a v s) = mmio_writes s @ [(a, v)]" "mmio_input (mmio_write a v s) = mmio_input s"
  "ioApicRegisterSelect (mmio_write a v s) = ioApicRegisterSelect s" "ioApicWindow (mmio_write a v s) = ioApicWindow s"
  "bytes (mmio_write a v s) = bytes s" "g_Isos (mmio_write a v s) = g_Isos s" "apicLocalPtr (mmio_write a v s) = apicLocalPtr s"
  by (simp_all add: mmio_write_def)

lemma halves_word: "ucast (ucast (d AND 0xFFFFFFFF) :: u32) OR push_bit 32 (ucast (ucast (drop_bit 32 d) :: u32)) = (d :: u64)"
proof (rule bit_word_eqI)
  fix n assume "n < LENGTH(64)"
  then show "bit (ucast (ucast (d AND 0xFFFFFFFF) :: u32) OR push_bit 32 (ucast (ucast (drop_bit 32 d) :: u32)) :: u64) n = bit d n"
    by (cases "n < 32") (auto simp: bits_0xff bit_simps)
qed

lemma read_base: "LAPIC_ReadBase s = msr (cpu s) MSR_APIC_BASE"
  unfolding LAPIC_ReadBase_def Let_def bits_0xff by (rule bit_word_eqI) (auto simp: bit_simps)

text \<open>The four writes that program one entry of the redirection table.\<close>

definition redirect_writes :: "'a apic_state_scheme \<Rightarrow> u64 \<Rightarrow> mmio_log" where
  "redirect_writes s e =
     (let r = 0x10 + 2 * ucast (ucast (iso_gSi e (bytes s)) :: u8)
      in [(ioApicRegisterSelect s, r), (ioApicWindow s, ucast (iso_irqSource e (bytes s) + 0x20)),
          (ioApicRegisterSelect s, r + 1), (ioApicWindow s, 0)])"

lemma redirect_iso_writes:
  "mmio_writes (redirect_iso e s) = mmio_writes s @ redirect_writes s e"
  "bytes (redirect_iso e s) = bytes s" "ioApicRegisterSelect (redirect_iso e s) = ioApicRegisterSelect s"
  "ioApicWindow (redirect_iso e s) = ioApicWindow s" "g_Isos (redirect_iso e s) = g_Isos s"
proof -
  have l: "ucast ((ucast (ucast v :: u32) :: u64) AND 0xFFFFFFFF) = (ucast v :: u32)" for v :: u8
    unfolding bits_0xff by (rule bit_word_eqI) (auto simp: bit_simps)
  have h: "ucast (drop_bit 32 (ucast (ucast v :: u32) :: u64)) = (0 :: u32)" for v :: u8
    by (rule bit_word_eqI) (auto simp: bit_simps)
  show "mmio_writes (redirect_iso e s) = mmio_writes s @ redirect_writes s e"
    by (simp add: redirect_iso_def apic_Redirect_def IOAPIC_WriteData64_def IOAPIC_WriteData32_def redirect_writes_def l h Let_def)
  show "bytes (redirect_iso e s) = bytes s" "ioApicRegisterSelect (redirect_iso e s) = ioApicRegisterSelect s"
    "ioApicWindow (redirect_iso e s) = ioApicWindow s" "g_Isos (redirect_iso e s) = g_Isos s"
    by (simp_all add: redirect_iso_def apic_Redirect_def IOAPIC_WriteData64_def IOAPIC_WriteData32_def Let_def)
qed

lemma redirect_fold:
  "mmio_writes (fold (\<lambda>i s. redirect_iso (g_Isos s i) s) is' s) = mmio_writes s @ concat (map (\<lambda>i. redirect_writes s (g_Isos s i)) is')"
proof (induction is' arbitrary: s)
  case (Cons i is')
  have "redirect_writes (redirect_iso e s) = redirect_writes s" for e
    by (simp add: fun_eq_iff redirect_writes_def redirect_iso_writes)
  then show ?case using Cons by (simp add: redirect_iso_writes)
qed simp

section \<open>Properties\<close>


definition demo_apic :: apic_state where
  "demo_apic = hw_state.extend (demo_hw demo_madt) (apic_state.fields 0 0 0xFFFFFF93FEC00000 0xFFFFFF93FEC00010 0 0 []
     (dev_answer 0xFFFFFF93FEC00000 0xFFFFFF93FEC00010 \<lparr>dev_selected = 0, dev_registers = (\<lambda>_. 0)\<rparr>))"


text \<open>
  \<^verbatim>\<open>IOAPIC_Initialize\<close> reads the version and the identifier of the controller below 4 GiB that
  the firmware named, and then programs one entry of the redirection table for each override, in
  the order in which they were collected: the interrupt goes to vector 32 plus its legacy number,
  and nothing else is written.
\<close>

theorem ioapic_programs_overrides:
  assumes "ioApicBase s \<noteq> 0" and "ioApicBase s \<le> 0xFFFFFFFF"
  shows "\<exists>s'. IOAPIC_Initialize s = Inr s' \<and>
    (let v = ioApicBase s + KERNEL_IO_VIRTUAL_BASE in
     mmio_writes s' = mmio_writes s @ [(v, 1), (v, 0)] @
       concat (map (\<lambda>e. let r = 0x10 + 2 * ucast (ucast (iso_gSi e (bytes s)) :: u8)
                        in [(v, r), (v + 0x10, ucast (iso_irqSource e (bytes s) + 0x20)), (v, r + 1), (v + 0x10, 0)])
                   (overrides s)))"
proof -
  have "VM_GetIOMapping (ioApicBase s) s = (ioApicBase s + KERNEL_IO_VIRTUAL_BASE, s)"
    using leD [OF assms(2)] by (simp add: VM_GetIOMapping_def)
  then show ?thesis
    using assms(1)
    by (simp add: IOAPIC_Initialize_def IOAPIC_ReadData32_def redirect_fold redirect_writes_def Let_def comp_def
        IO_APIC_REGSEL_def IO_APIC_WIN_def IO_APIC_REGISTER_VER_def IO_APIC_REGISTER_ID_def overrides_def
        mmio_write_def)
qed

theorem ioapic_programs_overrides_witness:
  "\<exists>s'. IOAPIC_Initialize (demo_apic\<lparr>ioApicBase := 0xFEC00000, g_Isos := (\<lambda>_. 0x108), g_IsoAmount := 1\<rparr>) = Inr s' \<and>
     mmio_writes s' = [(0xFFFFFF93FEC00000, 1), (0xFFFFFF93FEC00000, 0), (0xFFFFFF93FEC00000, 0x10),
       (0xFFFFFF93FEC00010, 0x20), (0xFFFFFF93FEC00000, 0x11), (0xFFFFFF93FEC00010, 0)]"
proof -
  let ?s = "demo_apic\<lparr>ioApicBase := 0xFEC00000, g_Isos := (\<lambda>_. 0x108), g_IsoAmount := 1\<rparr>"
  have f: "bytes ?s = demo_madt" "mmio_writes ?s = []" "overrides ?s = [0x108]"
    by (simp_all add: demo_apic_def apic_state.defs hw_state.defs overrides_def demo_hw_fields)
  have "iso_gSi 0x108 demo_madt = 0" "iso_irqSource 0x108 demo_madt = 0"
    by (simp_all add: iso_gSi_def iso_irqSource_def rd_defs demo_madt_def)
  then show ?thesis
    using ioapic_programs_overrides [of ?s] f by (simp add: KERNEL_IO_VIRTUAL_BASE_def Let_def)
qed

text \<open>
  \<^verbatim>\<open>LAPIC_Initialize\<close> never writes the spurious interrupt register of the local controller: the
  flags in the low bits of the base register stay in the pointer, and the register number is
  counted in cells, so the write goes to another address for every value of the base register
  below 4 GiB.
\<close>

theorem lapic_misses_register:
  assumes "msr (cpu s) MSR_APIC_BASE \<le> 0xFFFFFFFF"
  shows "\<exists>v a. mmio_writes (LAPIC_Initialize s) = mmio_writes s @ [(a, v)] \<and>
    a = msr (cpu s) MSR_APIC_BASE + KERNEL_IO_VIRTUAL_BASE + 0x3C0 \<and>
    a \<noteq> ALIGN_DOWN (msr (cpu s) MSR_APIC_BASE) 4096 + KERNEL_IO_VIRTUAL_BASE + 0xF0"
proof -
  let ?b = "msr (cpu s) MSR_APIC_BASE"
  have m: "VM_GetIOMapping ?b s = (?b + KERNEL_IO_VIRTUAL_BASE, s)"
    using leD [OF assms] by (simp add: VM_GetIOMapping_def)
  have run: "\<exists>v. mmio_writes (LAPIC_Initialize s) = mmio_writes s @ [(?b + KERNEL_IO_VIRTUAL_BASE + 0x3C0, v)]"
    by (simp add: LAPIC_Initialize_def read_base m Let_def LAPIC_WriteData_def LAPIC_WriteBase_def on_cpu_def
        LOCAL_APIC_SIVR_def mmio_write_def)
  have "unat (ALIGN_DOWN ?b 4096) \<le> unat ?b"
    using unat_ALIGN_DOWN [of ?b 12] by simp
  moreover have "unat ?b \<le> 4294967295" using assms by (simp add: word_le_nat_alt)
  ultimately have lt: "unat (ALIGN_DOWN ?b 4096 + 0xF0) < unat (?b + 0x3C0)"
    by (subst (1 2) unat_add_lem [THEN iffD1]) simp_all
  have ne: "x \<noteq> y" if "unat y < unat x" for x y :: u64 using that by auto
  have sw: "x + k + c = x + c + k" for x k c :: u64 by (simp only: ac_simps)
  have "?b + KERNEL_IO_VIRTUAL_BASE + 0x3C0 \<noteq> ALIGN_DOWN ?b 4096 + KERNEL_IO_VIRTUAL_BASE + 0xF0"
    unfolding sw [of ?b KERNEL_IO_VIRTUAL_BASE "0x3C0"] sw [of "ALIGN_DOWN ?b 4096" KERNEL_IO_VIRTUAL_BASE "0xF0"]
      add_right_cancel by (rule ne [OF lt])
  with run show ?thesis by blast
qed

theorem lapic_misses_register_witness:
  "\<exists>v. mmio_writes (LAPIC_Initialize (demo_apic\<lparr>cpu := (cpu demo_apic)\<lparr>msr := (\<lambda>_. 0xFEE00900)\<rparr>\<rparr>)) = [(0xFFFFFF93FEE00CC0, v)]"
proof -
  let ?s = "demo_apic\<lparr>cpu := (cpu demo_apic)\<lparr>msr := (\<lambda>_. 0xFEE00900)\<rparr>\<rparr>"
  have "mmio_writes ?s = []" by (simp add: demo_apic_def apic_state.defs hw_state.defs)
  then show ?thesis using lapic_misses_register [of ?s] by (auto simp: KERNEL_IO_VIRTUAL_BASE_def)
qed

end
