(* ===== verification/Kernel_Structs.thy ===== *)
theory Kernel_Structs
  imports Struct_Layout
begin

text \<open>
  The structures of the kernel's own headers and of the hardware and firmware interfaces it
  declares, as values of \<open>ctype\<close>, and the enumerations of the headers without code.  An \<^verbatim>\<open>int\<close>, an
  enumeration and a spinlock take four bytes, a pointer and \<^verbatim>\<open>uintptr_t\<close> eight.
\<close>

section \<open>Lists, ranges and page descriptors\<close>

definition struct_LinkedListNode :: ctype where [struct_defs]:
  "struct_LinkedListNode = CStruct False [(''prev'', ptr_t), (''next'', ptr_t)]"

definition struct_LinkedListItem :: ctype where [struct_defs]:
  "struct_LinkedListItem = CStruct False [(''listnode'', struct_LinkedListNode), (''ptr'', ptr_t)]"

definition struct_range :: ctype where [struct_defs]:
  "struct_range = CStruct False [(''start'', uint64_t), (''end'', uint64_t)]"

definition struct_Pageframe :: ctype where [struct_defs]:
  "struct_Pageframe = CStruct False [(''listnode'', struct_LinkedListNode), ('''', CStruct True [(''order'', CBits 1 4),
     (''free'', CBits 1 1), (''kmem'', CBits 1 1), (''__ign'', CBits 2 10)]),
     ('''', CStruct False [('''', CStruct True [(''slab_inuse'', CBits 4 16),
     (''slab_objects'', CBits 4 15), (''slab_frozen'', CBits 4 1)]), (''slabCache'', ptr_t),
     (''freelist'', ptr_t)]), (''lock'', uint32_t), (''addr'', uint64_t)]"

definition struct_PageframeList :: ctype where [struct_defs]:
  "struct_PageframeList = CStruct False [(''handle'', struct_LinkedListNode), (''count'', uint32_t)]"

definition struct_PageframeBlock :: ctype where [struct_defs]:
  "struct_PageframeBlock = CStruct False [(''count'', uint32_t), (''addr'', uint64_t),
     (''freelist'', CArray 11 struct_PageframeList)]"

section \<open>Processor structures\<close>

definition struct_GlobalDescTablePointer :: ctype where [struct_defs]:
  "struct_GlobalDescTablePointer = CStruct True [(''size'', uint16_t), (''base'', uint64_t)]"

definition struct_GlobalDescTableEntry :: ctype where [struct_defs]:
  "struct_GlobalDescTableEntry = CStruct True [(''limit_low'', uint16_t), (''base_low'', uint16_t), (''base_medium'', uint8_t),
     (''access'', uint8_t), (''granularity'', uint8_t), (''base_high'', uint8_t)]"

definition struct_TaskStateSegment :: ctype where [struct_defs]:
  "struct_TaskStateSegment = CStruct True [(''ign_0'', uint32_t), (''rsp'', CArray 3 uint64_t), (''ign_1'', uint64_t),
     (''ist'', CArray 7 uint64_t), (''ign_2'', uint32_t), (''ign_3'', uint32_t), (''ign_4'', uint16_t),
     (''iopb_offset'', uint16_t)]"

definition struct_GlobalDescTableTaskEntry :: ctype where [struct_defs]:
  "struct_GlobalDescTableTaskEntry = CStruct True [(''len'', uint16_t), (''base_low'', uint16_t), (''base_medium'', uint8_t),
     (''flags_a'', uint8_t), (''flags_b'', uint8_t), (''base_high'', uint8_t),
     (''base_upper'', uint32_t), (''ign'', uint32_t)]"

definition struct_GlobalDescTablePackage :: ctype where [struct_defs]:
  "struct_GlobalDescTablePackage = CStruct True [(''entries'', CArray 5 struct_GlobalDescTableEntry),
     (''tss'', struct_GlobalDescTableTaskEntry)]"

definition struct_InterruptDescTablePointer :: ctype where [struct_defs]:
  "struct_InterruptDescTablePointer = CStruct True [(''size'', uint16_t), (''base'', uint64_t)]"

definition struct_InterruptDescTableEntry :: ctype where [struct_defs]:
  "struct_InterruptDescTableEntry = CStruct True [(''base_low'', uint16_t), (''selector'', uint16_t), (''ist'', uint8_t),
     (''flags'', uint8_t), (''base_med'', uint16_t), (''base_high'', uint32_t), (''ign'', uint32_t)]"

definition struct_RegisterContext :: ctype where [struct_defs]:
  "struct_RegisterContext = CStruct True [(''r15'', uint64_t), (''r14'', uint64_t), (''r13'', uint64_t), (''r12'', uint64_t),
     (''r11'', uint64_t), (''r10'', uint64_t), (''r9'', uint64_t), (''r8'', uint64_t),
     (''rbp'', uint64_t), (''rdi'', uint64_t), (''rsi'', uint64_t), (''rdx'', uint64_t),
     (''rcx'', uint64_t), (''rbx'', uint64_t), (''rax'', uint64_t), (''intno'', uint64_t),
     (''err'', uint64_t), (''rip'', uint64_t), (''cs'', uint64_t), (''rflags'', uint64_t),
     (''rsp'', uint64_t), (''ss'', uint64_t)]"

definition struct_CPUIDInfo :: ctype where [struct_defs]:
  "struct_CPUIDInfo = CStruct False [(''vendor_str'', CArray 12 uint8_t), (''vendor_end'', uint8_t), (''ecx'', uint32_t),
     (''edx'', uint32_t)]"

definition struct_CPUCore :: ctype where [struct_defs]:
  "struct_CPUCore = CStruct False [(''self'', ptr_t), (''id'', uint64_t), (''gdt'', ptr_t),
     (''gdtPtr'', struct_GlobalDescTablePointer), (''idtPtr'', struct_InterruptDescTablePointer),
     (''currentThread'', ptr_t), (''idleThread'', ptr_t), (''idleProcess'', ptr_t)]"

section \<open>Object caches\<close>

definition struct_KCpuCache :: ctype where [struct_defs]:
  "struct_KCpuCache = CStruct False [(''freelist'', ptr_t), (''page'', ptr_t), (''partial'', struct_LinkedListNode)]"

definition struct_KMemoryNode :: ctype where [struct_defs]:
  "struct_KMemoryNode = CStruct False [(''lock'', uint32_t), (''nr_partial'', uint64_t),
     (''partial'', struct_LinkedListNode)]"

definition struct_KMemoryCache :: ctype where [struct_defs]:
  "struct_KMemoryCache = CStruct False [(''listnode'', struct_LinkedListNode), (''name'', ptr_t),
     (''cpu_slab'', CArray 256 struct_KCpuCache), (''flags'', uint64_t), (''size'', uint32_t),
     (''object_size'', uint32_t), (''object_align'', uint32_t), (''offset'', uint32_t),
     (''node'', CArray 4 ptr_t), (''min_partial'', uint64_t), (''reserved'', uint32_t)]"

section \<open>Page tables\<close>

definition struct_pml4_entry :: ctype where [struct_defs]:
  "struct_pml4_entry = CStruct True [(''present'', CBits 1 1), (''writable'', CBits 1 1), (''usr'', CBits 1 1),
     (''writeThrough'', CBits 1 1), (''cache'', CBits 1 1), (''access'', CBits 1 1),
     (''ign_6_11'', CBits 4 6), (''addr'', CBits 8 36), (''ign_48_62'', CBits 4 15),
     (''disableExec'', CBits 1 1)]"

definition struct_pml3_entry :: ctype where [struct_defs]:
  "struct_pml3_entry = CStruct True [(''present'', CBits 1 1), (''writable'', CBits 1 1), (''usr'', CBits 1 1),
     (''writeThrough'', CBits 1 1), (''cache'', CBits 1 1), (''access'', CBits 1 1),
     (''ign_6'', CBits 4 1), (''size'', CBits 4 1), (''ign_8_11'', CBits 4 4), (''addr'', CBits 8 36),
     (''ign_48_62'', CBits 4 15), (''disableExec'', CBits 1 1)]"

definition struct_pml2_entry :: ctype where [struct_defs]:
  "struct_pml2_entry = CStruct True [(''present'', CBits 1 1), (''writable'', CBits 1 1), (''usr'', CBits 1 1),
     (''writeThrough'', CBits 1 1), (''cache'', CBits 1 1), (''access'', CBits 1 1),
     (''ign_6'', CBits 4 1), (''size'', CBits 4 1), (''ign_8_11'', CBits 4 4), (''addr'', CBits 8 36),
     (''ign_48_62'', CBits 4 15), (''disableExec'', CBits 1 1)]"

definition struct_page_entry :: ctype where [struct_defs]:
  "struct_page_entry = CStruct True [(''present'', CBits 1 1), (''writable'', CBits 1 1), (''usr'', CBits 1 1),
     (''writeThrough'', CBits 1 1), (''cache'', CBits 1 1), (''access'', CBits 1 1),
     (''dirty'', CBits 4 1), (''memType'', CBits 4 1), (''global'', CBits 4 1),
     (''ign_9_11'', CBits 4 3), (''addr'', CBits 8 36), (''ign_48_57'', CBits 4 10),
     (''key'', CBits 1 5), (''disableExec'', CBits 1 1)]"

definition struct_pml4 :: ctype where [struct_defs]:
  "struct_pml4 = CStruct False [(''entries'', CArray 512 struct_pml4_entry)]"

definition struct_pdpt :: ctype where [struct_defs]:
  "struct_pdpt = CStruct False [(''entries'', CArray 512 struct_pml3_entry)]"

definition struct_page_dir :: ctype where [struct_defs]:
  "struct_page_dir = CStruct False [(''entries'', CArray 512 struct_pml2_entry)]"

definition struct_page_table :: ctype where [struct_defs]:
  "struct_page_table = CStruct False [(''entries'', CArray 512 struct_page_entry)]"

definition struct_page_map :: ctype where [struct_defs]:
  "struct_page_map = CStruct False [(''mapEntry'', struct_pml4), (''pdpts'', CArray 512 ptr_t),
     (''pageDirs'', CArray 512 ptr_t), (''pageTables'', CArray 512 ptr_t)]"

section \<open>Firmware tables\<close>

definition struct_AcpiHeader :: ctype where [struct_defs]:
  "struct_AcpiHeader = CStruct True [(''signature'', CArray 4 uint8_t), (''length'', uint32_t), (''revision'', uint8_t),
     (''checksum'', uint8_t), (''oemId'', CArray 6 uint8_t), (''oemTableId'', CArray 8 uint8_t),
     (''oemRevision'', uint32_t), (''creatorId'', uint32_t), (''creatorRevision'', uint32_t)]"

definition struct_AcpiMadt :: ctype where [struct_defs]:
  "struct_AcpiMadt = CStruct True [(''header'', struct_AcpiHeader), (''address'', uint32_t), (''flags'', uint32_t)]"

definition struct_AcpiMadtEntry :: ctype where [struct_defs]:
  "struct_AcpiMadtEntry = CStruct True [(''type'', uint8_t), (''length'', uint8_t)]"

definition struct_MadtLocalApic :: ctype where [struct_defs]:
  "struct_MadtLocalApic = CStruct True [(''entry'', struct_AcpiMadtEntry), (''processorId'', uint8_t), (''apicId'', uint8_t),
     (''flags'', uint32_t)]"

definition struct_MadtIoApic :: ctype where [struct_defs]:
  "struct_MadtIoApic = CStruct True [(''entry'', struct_AcpiMadtEntry), (''apicId'', uint8_t), (''reserved'', uint8_t),
     (''address'', uint32_t), (''gSib'', uint32_t)]"

definition struct_MadtIso :: ctype where [struct_defs]:
  "struct_MadtIso = CStruct True [(''entry'', struct_AcpiMadtEntry), (''busSource'', uint8_t),
     (''irqSource'', uint8_t), (''gSi'', uint32_t), (''flags'', uint16_t)]"

definition struct_MadtNmi :: ctype where [struct_defs]:
  "struct_MadtNmi = CStruct True [(''entry'', struct_AcpiMadtEntry), (''processorId'', uint8_t), (''flags'', uint16_t),
     (''lInt'', uint8_t)]"

definition struct_AcpiGenericAddressStructure :: ctype where [struct_defs]:
  "struct_AcpiGenericAddressStructure = CStruct False [(''address_space'', uint8_t), (''bit_width'', uint8_t), (''bit_offset'', uint8_t),
     (''access_size'', uint8_t), (''address'', uint64_t)]"

definition struct_AcpiFadt :: ctype where [struct_defs]:
  "struct_AcpiFadt = CStruct False [(''header'', struct_AcpiHeader), (''firmware_control'', uint32_t),
     (''dsdt'', uint32_t), (''__reserved__0'', uint8_t), (''ppmp'', uint8_t),
     (''sci_interrupt'', uint16_t), (''smi_cmdport'', uint32_t), (''acpi_enable'', uint8_t),
     (''acpi_disable'', uint8_t), (''s4bios_req'', uint8_t), (''pstate_control'', uint8_t),
     (''pm1a_event_block'', uint32_t), (''pm1b_event_block'', uint32_t),
     (''pm1a_control_block'', uint32_t), (''pm1b_control_block'', uint32_t),
     (''pm2_control_block'', uint32_t), (''pmt_timer_block'', uint32_t), (''gpe0_block'', uint32_t),
     (''gpe1_block'', uint32_t), (''pm1_event_length'', uint8_t), (''pm1_control_length'', uint8_t),
     (''pm2_control_length'', uint8_t), (''pmt_timer_length'', uint8_t), (''gpe0_length'', uint8_t),
     (''gpe1_length'', uint8_t), (''gpe1_base'', uint8_t), (''cstate_control'', uint8_t),
     (''worst_c2_latency'', uint16_t), (''worst_c3_latency'', uint16_t), (''flush_size'', uint16_t),
     (''flush_stride'', uint16_t), (''duty_offset'', uint8_t), (''duty_width'', uint8_t),
     (''day_alarm'', uint8_t), (''month_alarm'', uint8_t), (''century'', uint8_t),
     (''boot_arch_flags'', uint16_t), (''__reserved__1'', uint8_t), (''flags'', uint32_t),
     (''reset_reg'', struct_AcpiGenericAddressStructure), (''reset_value'', uint8_t),
     (''__reserved__3'', CArray 3 uint8_t), (''x_firmware_control'', uint64_t), (''x_dsdt'', uint64_t),
     (''x_pm1a_event_block'', struct_AcpiGenericAddressStructure),
     (''x_pm1b_event_block'', struct_AcpiGenericAddressStructure),
     (''x_pm1a_control_block'', struct_AcpiGenericAddressStructure),
     (''x_pm1b_control_block'', struct_AcpiGenericAddressStructure),
     (''x_pm2_control_block'', struct_AcpiGenericAddressStructure),
     (''x_pmt_timer_block'', struct_AcpiGenericAddressStructure),
     (''x_gpe0_block'', struct_AcpiGenericAddressStructure),
     (''x_gpe1_block'', struct_AcpiGenericAddressStructure)]"

definition struct_MadtAddressOverride :: ctype where [struct_defs]:
  "struct_MadtAddressOverride = CStruct False [(''entry'', struct_AcpiMadtEntry), (''reserved'', uint16_t),
     (''address'', uint64_t)]"

definition struct_PciMcfgBaseAddress :: ctype where [struct_defs]:
  "struct_PciMcfgBaseAddress = CStruct False [(''base'', uint64_t), (''segment_group_num'', uint16_t),
     (''pci_bus_start'', uint8_t), (''pci_bus_end'', uint8_t), (''__reserved__'', uint32_t)]"

definition struct_PciMcfg :: ctype where [struct_defs]:
  "struct_PciMcfg = CStruct False [(''header'', struct_AcpiHeader), (''__reserved__'', uint64_t),
     (''bases'', CArray 0 struct_PciMcfgBaseAddress)]"

definition struct_AcpiRootSystemDescPtr :: ctype where [struct_defs]:
  "struct_AcpiRootSystemDescPtr = CStruct True [(''signature'', CArray 8 uint8_t), (''checksum'', uint8_t),
     (''oemId'', CArray 6 uint8_t), (''revision'', uint8_t), (''rsdtPtr'', uint32_t)]"

definition struct_AcpiRootSystemDescPtr2 :: ctype where [struct_defs]:
  "struct_AcpiRootSystemDescPtr2 = CStruct True [(''rsdpPart'', struct_AcpiRootSystemDescPtr), (''length'', uint32_t),
     (''xsdtPtr'', uint64_t), (''checksumExtended'', uint8_t), (''reserved'', CArray 3 uint8_t)]"

definition struct_AcpiSystemDescTable :: ctype where [struct_defs]:
  "struct_AcpiSystemDescTable = CStruct False [(''signature'', CArray 4 uint8_t), (''length'', uint32_t), (''revision'', uint8_t),
     (''checksum'', uint8_t), (''oemId'', CArray 6 uint8_t), (''oemTableId'', CArray 8 uint8_t),
     (''oemRevision'', uint32_t), (''creatorId'', uint32_t), (''creatorRevision'', uint32_t)]"

definition struct_AcpiRootSdt :: ctype where [struct_defs]:
  "struct_AcpiRootSdt = CStruct False [(''table'', struct_AcpiSystemDescTable), (''pointers'', CArray 0 uint32_t)]"

definition struct_AcpiExtendedSdt :: ctype where [struct_defs]:
  "struct_AcpiExtendedSdt = CStruct False [(''table'', struct_AcpiSystemDescTable), (''pointers'', CArray 0 uint64_t)]"

definition struct_SMBIOS2EntryPoint :: ctype where [struct_defs]:
  "struct_SMBIOS2EntryPoint = CStruct False [(''EntryPointString'', CArray 4 uint8_t), (''Checksum'', uint8_t),
     (''Length'', uint8_t), (''MajorVersion'', uint8_t), (''MinorVersion'', uint8_t),
     (''MaxSize'', uint16_t), (''Revision'', uint8_t), (''FmtArea'', CArray 5 uint8_t),
     (''EntryPointString2'', CArray 5 uint8_t), (''Checksum2'', uint8_t), (''TableLength'', uint16_t),
     (''TableAddress'', uint32_t), (''NumberOfStructures'', uint16_t), (''BCDRevision'', uint8_t)]"

definition struct_SMBIOS3EntryPoint :: ctype where [struct_defs]:
  "struct_SMBIOS3EntryPoint = CStruct False [(''EntryPointString'', CArray 5 uint8_t), (''Checksum'', uint8_t),
     (''Length'', uint8_t), (''MajorVersion'', uint8_t), (''MinorVersion'', uint8_t),
     (''Docrev'', uint8_t), (''Revision'', uint8_t), (''__reserved__0'', uint8_t),
     (''MaxSize'', uint32_t), (''TableAddress'', uint64_t)]"

definition struct_SMBIOSHeader :: ctype where [struct_defs]:
  "struct_SMBIOSHeader = CStruct False [(''Type'', uint8_t), (''Length'', uint8_t), (''Handle'', uint16_t)]"

section \<open>PCI and SATA\<close>

definition pci_command_bits :: "(string \<times> u64) list" where
  "pci_command_bits = [(''PCI_BIST_CAPABLE'', 0x80), (''PCI_BIST_START'', 0x40), (''PCI_BIST_COMPLETION_CODE'', 15),
     (''PCI_CMD_INTERRUPT_DISABLE'', 0x400), (''PCI_CMD_FAST_BTB_ENABLE'', 0x200),
     (''PCI_CMD_SERR_ENABLE'', 0x100), (''PCI_CMD_PARITY_ERROR_RESPONSE'', 0x40),
     (''PCI_CMD_VGA_PALETTE_SNOOP'', 0x20), (''PCI_CMD_MEMORY_WRITE_INVALIDATE_ENABLE'', 0x10),
     (''PCI_CMD_SPECIAL_CYCLES'', 8), (''PCI_CMD_BUS_MASTER'', 4), (''PCI_CMD_MEMORY_SPACE'', 2),
     (''PCI_CMD_IO_SPACE'', 1), (''PCI_STATUS_CAPABILITIES'', 0x10)]"

definition pci_classes :: "(string \<times> u64) list" where
  "pci_classes = [(''PCI_CLASS_UNCLASSIFIED'', 0), (''PCI_CLASS_STORAGE'', 1), (''PCI_CLASS_NETWORK'', 2),
     (''PCI_CLASS_DISPLAY'', 3), (''PCI_CLASS_MULTIMEDIA'', 4), (''PCI_CLASS_MEMORY'', 5),
     (''PCI_CLASS_BRIDGE'', 6), (''PCI_CLASS_COMMUNICATION'', 7), (''PCI_CLASS_PERIPHERAL'', 8),
     (''PCI_CLASS_INPUT_DEVICE'', 9), (''PCI_CLASS_DOCKING_STATION'', 10),
     (''PCI_CLASS_PROCESSOR'', 11), (''PCI_CLASS_SERIAL_BUS'', 12),
     (''PCI_CLASS_WIRELESS_CONTROLLER'', 13), (''PCI_CLASS_INTELLIGENT_CONTROLLER'', 14),
     (''PCI_CLASS_SATELLITE_COMMUNICATION'', 15), (''PCI_CLASS_ENCRYPTON'', 0x10),
     (''PCI_CLASS_SIGNAL_PROCESSING'', 0x11), (''PCI_CLASS_COPROCESSOR'', 0x40),
     (''PCI_SUBCLASS_IDE'', 1), (''PCI_SUBCLASS_FLOPPY'', 2), (''PCI_SUBCLASS_ATA'', 5),
     (''PCI_SUBCLASS_SATA'', 6), (''PCI_SUBCLASS_NVM'', 8), (''PCI_SUBCLASS_ETHERNET'', 0),
     (''PCI_SUBCLASS_VGA_COMPATIBLE'', 0), (''PCI_SUBCLASS_XGA'', 1), (''PCI_SUBCLASS_USB'', 3),
     (''PCI_PROGIF_UHCI'', 0x20), (''PCI_PROGIF_OHCI'', 0x10), (''PCI_PROGIF_EHCI'', 0x20),
     (''PCI_PROGIF_XHCI'', 0x30)]"

definition fis_types :: "(string \<times> u64) list" where
  "fis_types = [(''FIS_TYPE_REG_H2D'', 0x27), (''FIS_TYPE_REG_D2H'', 0x34), (''FIS_TYPE_DMA_ACT'', 0x39),
     (''FIS_TYPE_DMA_SETUP'', 0x41), (''FIS_TYPE_DATA'', 0x46), (''FIS_TYPE_BIST'', 0x58),
     (''FIS_TYPE_PIO_SETUP'', 0x5F), (''FIS_TYPE_DEV_BITS'', 0xA1)]"

definition struct_PCIMSICapability :: ctype where [struct_defs]:
  "struct_PCIMSICapability = CStruct True [('''', CUnion False [('''', CStruct True [(''capID'', CBits 4 8),
     (''nextCap'', CBits 4 8), (''msiControl'', CBits 4 16)]), (''register0'', uint32_t)]),
     ('''', CUnion False [(''addressLow'', uint32_t), (''register1'', uint32_t)]),
     ('''', CUnion False [(''data'', uint32_t), (''addressHigh'', uint32_t),
     (''register2'', uint32_t)]), ('''', CUnion False [(''data64'', uint32_t),
     (''register3'', uint32_t)])]"

definition struct_PCIInfo :: ctype where [struct_defs]:
  "struct_PCIInfo = CStruct False [(''deviceId'', uint16_t), (''vendorId'', uint16_t), (''bus'', uint8_t),
     (''slot'', uint8_t), (''func'', uint8_t), (''classCode'', uint8_t), (''subclass'', uint8_t),
     (''progIf'', uint8_t)]"

definition struct_PCIDevice :: ctype where [struct_defs]:
  "struct_PCIDevice = CStruct False [(''deviceId'', uint16_t), (''vendorId'', uint16_t), (''bus'', uint8_t),
     (''slot'', uint8_t), (''func'', uint8_t), (''classCode'', uint8_t), (''subClass'', uint8_t),
     (''progIf'', uint8_t), (''msiPtr'', uint8_t), (''msiCap'', struct_PCIMSICapability),
     (''msiCapable'', bool_t)]"

definition struct_FisRegHost2Device :: ctype where [struct_defs]:
  "struct_FisRegHost2Device = CStruct True [(''fis_type'', uint8_t), (''pmport'', CBits 1 4), (''__reserved__0'', CBits 1 3),
     (''c'', CBits 1 1), (''command'', uint8_t), (''featurel'', uint8_t), (''lba0'', uint8_t),
     (''lba1'', uint8_t), (''lba2'', uint8_t), (''device'', uint8_t), (''lba3'', uint8_t),
     (''lba4'', uint8_t), (''lba5'', uint8_t), (''featureh'', uint8_t), (''countl'', uint8_t),
     (''counth'', uint8_t), (''icc'', uint8_t), (''control'', uint8_t),
     (''__reserved__1'', CArray 4 uint8_t)]"

definition struct_FisRegDevice2Host :: ctype where [struct_defs]:
  "struct_FisRegDevice2Host = CStruct True [(''fis_type'', uint8_t), (''pmport'', CBits 1 4), (''__reserved__0'', CBits 1 2),
     (''i'', CBits 1 1), (''__reserved__1'', CBits 1 1), (''status'', uint8_t), (''error'', uint8_t),
     (''lba0'', uint8_t), (''lba1'', uint8_t), (''lba2'', uint8_t), (''device'', uint8_t),
     (''lba3'', uint8_t), (''lba4'', uint8_t), (''lba5'', uint8_t), (''__reserved__2'', uint8_t),
     (''countl'', uint8_t), (''counth'', uint8_t), (''__reserved__3'', CArray 2 uint8_t),
     (''__reserved__4'', CArray 4 uint8_t)]"

definition struct_FisDataPack :: ctype where [struct_defs]:
  "struct_FisDataPack = CStruct True [(''fis_type'', uint8_t), (''pmport'', CBits 1 4), (''__reserved__0'', CBits 1 4),
     (''__reserved__1'', CArray 2 uint8_t), (''data'', CArray 1 uint32_t)]"

definition struct_FisPioSetup :: ctype where [struct_defs]:
  "struct_FisPioSetup = CStruct True [(''fis_type'', uint8_t), (''pmport'', CBits 1 4), (''__reserved__0'', CBits 1 1),
     (''d'', CBits 1 1), (''i'', CBits 1 1), (''__reserved__1'', CBits 1 1), (''status'', uint8_t),
     (''error'', uint8_t), (''lba0'', uint8_t), (''lba1'', uint8_t), (''lba2'', uint8_t),
     (''device'', uint8_t), (''lba3'', uint8_t), (''lba4'', uint8_t), (''lba5'', uint8_t),
     (''__reserved__2'', uint8_t), (''countl'', uint8_t), (''counth'', uint8_t),
     (''__reserved__3'', uint8_t), (''e_status'', uint8_t), (''tc'', uint16_t),
     (''__reserved__4'', CArray 2 uint8_t)]"

section \<open>Boot information and memory statistics\<close>

datatype mem_stats_item =
    MemValueTotal
  | MemValueAvaliable
  | MemValuePresent
  | MemValueSwapped
  | MemValueInused
  | MemValueStandby
  | MemValueCached
  | MemValueAllocated

primrec mem_stats_value :: "mem_stats_item \<Rightarrow> u32" where
  "mem_stats_value MemValueTotal = 0"
| "mem_stats_value MemValueAvaliable = 1"
| "mem_stats_value MemValuePresent = 2"
| "mem_stats_value MemValueSwapped = 3"
| "mem_stats_value MemValueInused = 4"
| "mem_stats_value MemValueStandby = 5"
| "mem_stats_value MemValueCached = 6"
| "mem_stats_value MemValueAllocated = 7"

definition struct_memory_map_entry :: ctype where [struct_defs]:
  "struct_memory_map_entry = CStruct False [(''range'', struct_range), (''type'', enum_t)]"

definition struct_boot_mem :: ctype where [struct_defs]:
  "struct_boot_mem = CStruct False [(''total_size'', uint64_t), (''usable'', uint64_t), (''map_size'', uint64_t),
     (''entries'', CArray 64 struct_memory_map_entry)]"

definition struct_boot_graphic :: ctype where [struct_defs]:
  "struct_boot_graphic = CStruct False [(''width'', uint16_t), (''height'', uint16_t),
     ('''', CStruct False [(''buffer_address'', uint64_t), (''pitch'', uint16_t),
     (''bytes_per_pixel'', uint16_t)])]"

definition struct_boot_info :: ctype where [struct_defs]:
  "struct_boot_info = CStruct False [(''check'', uint64_t), (''bl_name'', ptr_t), (''mem'', struct_boot_mem),
     (''graphic'', struct_boot_graphic)]"

definition struct_mem_stats :: ctype where [struct_defs]:
  "struct_mem_stats = CStruct False [(''total'', uint64_t), (''available'', uint64_t), (''present'', uint64_t),
     (''swapped'', uint64_t), (''inuse'', uint64_t), (''standby'', uint64_t), (''cached'', uint64_t),
     (''allocated'', uint64_t)]"

section \<open>Files, devices, users and processes\<close>

datatype FileSystemType =
    FileSystemExFAT
  | FileSystemFAT32
  | FileSystemNTFS
  | FileSystemISO9660
  | FileSystem

primrec fs_type_value :: "FileSystemType \<Rightarrow> u32" where
  "fs_type_value FileSystemExFAT = 0"
| "fs_type_value FileSystemFAT32 = 1"
| "fs_type_value FileSystemNTFS = 2"
| "fs_type_value FileSystemISO9660 = 3"
| "fs_type_value FileSystem = 4"

datatype VolumeType =
    VolumeTypeLocalDisk
  | VolumeTypeRemoteDisk

primrec volume_type_value :: "VolumeType \<Rightarrow> u32" where
  "volume_type_value VolumeTypeLocalDisk = 0"
| "volume_type_value VolumeTypeRemoteDisk = 1"

datatype FileType =
    FileTypeFile
  | FileTypeDirectory
  | FileTypeDisk

primrec file_type_value :: "FileType \<Rightarrow> u32" where
  "file_type_value FileTypeFile = 0"
| "file_type_value FileTypeDirectory = 1"
| "file_type_value FileTypeDisk = 2"

datatype DeviceType =
    DeviceTypeAudio
  | DeviceTypeBattery
  | DeviceTypeBluetooth
  | DeviceTypeFsDriveDevice
  | DeviceTypeFsDriveController
  | DeviceTypeDisplayAdapter
  | DeviceTypeDisplayMonitor
  | DeviceTypeUSBDevice
  | DeviceTypeUSBController
  | DeviceTypePCIDevice
  | DeviceTypePCIController
  | DeviceTypeNetworkAdapter
  | DeviceTypeSecurity
  | DeviceTypeProcessor
  | DeviceTypePrinter
  | DeviceTypeSystemDevices

primrec device_type_value :: "DeviceType \<Rightarrow> u32" where
  "device_type_value DeviceTypeAudio = 0"
| "device_type_value DeviceTypeBattery = 1"
| "device_type_value DeviceTypeBluetooth = 2"
| "device_type_value DeviceTypeFsDriveDevice = 3"
| "device_type_value DeviceTypeFsDriveController = 4"
| "device_type_value DeviceTypeDisplayAdapter = 5"
| "device_type_value DeviceTypeDisplayMonitor = 6"
| "device_type_value DeviceTypeUSBDevice = 7"
| "device_type_value DeviceTypeUSBController = 8"
| "device_type_value DeviceTypePCIDevice = 9"
| "device_type_value DeviceTypePCIController = 10"
| "device_type_value DeviceTypeNetworkAdapter = 11"
| "device_type_value DeviceTypeSecurity = 12"
| "device_type_value DeviceTypeProcessor = 13"
| "device_type_value DeviceTypePrinter = 14"
| "device_type_value DeviceTypeSystemDevices = 15"

datatype UserAccountState =
    UserAccountActive
  | UserAccountLocked
  | UserAccountInactive
  | UserAccountSleep

primrec account_state_value :: "UserAccountState \<Rightarrow> u32" where
  "account_state_value UserAccountActive = 0"
| "account_state_value UserAccountLocked = 1"
| "account_state_value UserAccountInactive = 2"
| "account_state_value UserAccountSleep = 3"

definition struct_FsVolume :: ctype where [struct_defs]:
  "struct_FsVolume = CStruct False [(''m_Name'', ptr_t), (''m_FsType'', enum_t), (''m_VolType'', enum_t),
     (''m_Capacity'', uint64_t), (''m_SpaceUsed'', uint64_t)]"

definition struct_FsPartition :: ctype where [struct_defs]:
  "struct_FsPartition = CStruct False []"

definition struct_FsNode :: ctype where [struct_defs]:
  "struct_FsNode = CStruct False []"

definition struct_FsFile :: ctype where [struct_defs]:
  "struct_FsFile = CStruct False [(''m_Name'', ptr_t), (''m_UUID'', CArray 16 uint8_t), (''m_Type'', enum_t),
     (''m_Size'', uint64_t), (''m_BytesTaken'', uint64_t)]"

definition struct_Device :: ctype where [struct_defs]:
  "struct_Device = CStruct False [(''m_Name'', ptr_t), (''m_Type'', enum_t), (''m_Dependence'', ptr_t)]"

definition struct_UserProfile :: ctype where [struct_defs]:
  "struct_UserProfile = CStruct False [(''name'', ptr_t), (''uid'', uint16_t), (''state'', enum_t),
     ('''', CStruct False [(''threads'', uint32_t), (''processes'', uint16_t),
     (''handles'', uint32_t)])]"

definition struct_Activity :: ctype where [struct_defs]:
  "struct_Activity = CStruct False [(''m_Name'', ptr_t), (''m_ProcessCount'', uint16_t),
     (''listnode'', struct_LinkedListNode)]"

definition struct_Process :: ctype where [struct_defs]:
  "struct_Process = CStruct False [(''m_Name'', ptr_t), (''m_Publisher'', ptr_t), (''m_Package'', ptr_t),
     (''m_ProcessId'', uint16_t), (''m_Type'', uint8_t), (''m_FilePtr'', ptr_t),
     (''m_Activity'', ptr_t), ('''', CUnion False [(''__flag_size__'', uint32_t),
     ('''', CStruct True [(''m_IsFocus'', CBits 1 1), (''m_IsIdle'', CBits 1 1),
     (''__reserved__'', CBits 4 30)])]), (''m_Threads'', uint16_t), (''m_Handles'', uint16_t),
     ('''', CStruct False [(''m_MemoryAllocated'', uint64_t), (''m_MemoryCached'', uint32_t),
     (''m_Pages'', uint32_t), (''m_PresentPages'', uint32_t), (''m_SwappedPages'', uint32_t)]),
     ('''', CStruct False [(''m_Lock'', uint32_t), (''m_HandleLock'', uint32_t)]),
     ('''', CStruct False [(''m_NextThreadId'', uint32_t), (''m_MainThread'', ptr_t),
     (''m_ChildrenThreadList'', ptr_t)]), (''m_EntryPoint'', uint64_t), (''m_Heap'', uint64_t),
     (''m_Pagemap'', ptr_t), (''m_VirtuaPagesBitmap'', ptr_t)]"

definition struct_Thread :: ctype where [struct_defs]:
  "struct_Thread = CStruct False [(''listnode'', struct_LinkedListNode), (''m_ThreadId'', uint32_t),
     (''m_Lock'', uint32_t), (''m_StateLock'', uint32_t), ('''', CStruct False [(''esp0'', uint32_t),
     (''ss0'', uint32_t)]), (''m_UserStack'', ptr_t), (''m_UserStackLimit'', ptr_t),
     (''m_KernelStack'', ptr_t), (''m_KernelStackLimit'', ptr_t),
     (''m_Registers'', struct_RegisterContext), (''m_LastSyscall'', struct_RegisterContext),
     (''m_ThreadPriority'', uint8_t), (''m_ThreadState'', uint8_t)]"

end
