(* ===== verification/Buddy_Refinement.thy ===== *)
theory Buddy_Refinement
  imports Page_Frames
begin

text \<open>
  \<^verbatim>\<open>PM_AllocatePages\<close> implements the abstract buddy allocator of \<open>Page_Frames\<close>.  The
  relation \<open>represents\<close> ties the eleven linked lists, the counters and the descriptors to a
  list of frame numbers per order; one lemma for each step of the C function (taking the head
  of a list, splitting once) says how the relation moves, and the refinement theorem composes
  them.  The interface \<open>frame_allocator\<close> then states what the users of physical memory rely on.
\<close>

section \<open>Where descriptors and list heads are\<close>

definition desc :: "nat \<Rightarrow> u64" where
  "desc n = KERNEL_PHYSICAL_PAGES + sizeof_pageframe * of_nat n"

text \<open>The descriptor array may take up 64 GiB of addresses, enough for 4 TiB of memory.\<close>

definition frame_limit :: nat where "frame_limit = 2 ^ 30"

definition layout_ok :: "'a pm_state_scheme \<Rightarrow> bool" where
  "layout_ok s \<longleftrightarrow>
     0xFFFFFF9000000000 \<le> unat (pf_freelist_at s) \<and> unat (pf_freelist_at s) + 264 \<le> 2 ^ 64"

definition nodes :: "'a pm_state_scheme \<Rightarrow> u64 set" where
  "nodes s = desc ` {..<frame_limit} \<union> freelist_handle s ` {..10}"

lemma unat_desc: "n < frame_limit \<Longrightarrow> unat (desc n) = 0xFFFFFF8000000000 + 64 * n"
proof -
  assume n: "n < frame_limit"
  have "desc n = word_of_nat (0xFFFFFF8000000000 + 64 * n)"
    by (simp add: desc_def layout_simps)
  also have "unat \<dots> = 0xFFFFFF8000000000 + 64 * n"
    using n by (simp only: unat_of_nat) (simp add: frame_limit_def)
  finally show ?thesis .
qed

lemma unat_handle:
  assumes "layout_ok s" and "i \<le> 10"
  shows "unat (freelist_handle s i) = unat (pf_freelist_at s) + 24 * i"
proof -
  have "freelist_handle s i = word_of_nat (unat (pf_freelist_at s) + 24 * i)"
    by (simp add: freelist_handle_def layout_simps)
  also have "unat \<dots> = unat (pf_freelist_at s) + 24 * i"
    using assms by (simp only: unat_of_nat) (simp add: layout_ok_def)
  finally show ?thesis .
qed

lemma desc_eq [simp]:
  assumes "a < frame_limit" and "b < frame_limit"
  shows "desc a = desc b \<longleftrightarrow> a = b"
proof
  assume "desc a = desc b"
  then have "unat (desc a) = unat (desc b)" by (rule arg_cong)
  then show "a = b" by (simp only: unat_desc assms)
qed simp

lemma desc_add: "desc n + 2 ^ k * sizeof_pageframe = desc (n + 2 ^ k)"
  by (simp add: desc_def layout_simps)

lemma handle_eq:
  assumes "layout_ok s" and "i \<le> 10" and "j \<le> 10"
  shows "freelist_handle s i = freelist_handle s j \<longleftrightarrow> i = j"
proof
  assume "freelist_handle s i = freelist_handle s j"
  then have "unat (freelist_handle s i) = unat (freelist_handle s j)" by (rule arg_cong)
  then show "i = j" by (simp only: unat_handle assms)
qed simp

lemma desc_not_handle:
  assumes "layout_ok s" and "i \<le> 10" and "n < frame_limit"
  shows "desc n \<noteq> freelist_handle s i"
  using unat_handle [OF assms(1,2)] unat_desc [OF assms(3)] assms
  by (auto simp: layout_ok_def frame_limit_def)

lemma nodes_unat:
  assumes "layout_ok s" and "p \<in> nodes s"
  shows "(\<exists>n<frame_limit. unat p = 0xFFFFFF8000000000 + 64 * n) \<or>
         (\<exists>i\<le>10. unat p = unat (pf_freelist_at s) + 24 * i)"
  using assms unat_desc unat_handle [OF assms(1)] by (auto simp: nodes_def) 

lemma separate_nodes:
  assumes "layout_ok s"
  shows "separate (nodes s)"
proof -
  have nz: "unat p \<noteq> 0" and up: "unat (p + 8) = unat p + 8" if "p \<in> nodes s" for p
  proof -
    have "0 < unat p \<and> unat p + 8 < 2 ^ 64"
      using nodes_unat [OF assms that] assms by (auto simp: layout_ok_def frame_limit_def)
    then show "unat p \<noteq> 0" and "unat (p + 8) = unat p + 8"
      using unat_add_lem [of p 8] by auto
  qed
  have "p + 8 \<noteq> q" if "p \<in> nodes s" "q \<in> nodes s" for p q
  proof
    assume "p + 8 = q"
    then have "unat q = unat p + 8" using up [OF that(1)] by simp
    then show False
      using nodes_unat [OF assms that(1)] nodes_unat [OF assms that(2)] assms
      by (auto simp: layout_ok_def frame_limit_def) presburger+
  qed
  moreover have "0 \<notin> nodes s" using nz [of 0] by auto
  ultimately show ?thesis by (auto simp: separate_def)
qed

lemma in_nodes [simp]:
  "n < frame_limit \<Longrightarrow> desc n \<in> nodes s" "i \<le> 10 \<Longrightarrow> freelist_handle s i \<in> nodes s"
  by (auto simp: nodes_def)

lemma desc_nonzero: "n < frame_limit \<Longrightarrow> desc n \<noteq> 0"
  using unat_desc [of n] by auto

section \<open>Well-formed collections of blocks\<close>

definition blocks_ok :: "buddy \<Rightarrow> bool" where
  "blocks_ok xs \<longleftrightarrow>
     (\<forall>i\<le>10. distinct (xs i) \<and> (\<forall>n\<in>set (xs i). 2 ^ i dvd n \<and> n + 2 ^ i \<le> frame_limit)) \<and>
     (\<forall>i\<le>10. \<forall>j\<le>10. \<forall>n\<in>set (xs i). \<forall>m\<in>set (xs j).
        (i, n) \<noteq> (j, m) \<longrightarrow> block i n \<inter> block j m = {})"

text \<open>A block that is aligned, inside the limit and shares no frame with the free ones.\<close>

definition apart :: "nat \<Rightarrow> nat \<Rightarrow> buddy \<Rightarrow> bool" where
  "apart k n xs \<longleftrightarrow> 2 ^ k dvd n \<and> n + 2 ^ k \<le> frame_limit \<and> block k n \<inter> free_frames xs = {}"

lemma in_block: "j \<in> block i n \<longleftrightarrow> n \<le> j \<and> j < n + 2 ^ i"
  by (simp add: block_def)

lemma head_in_block [simp]: "n \<in> block i n"
  by (simp add: in_block)

lemma block_nonempty: "block i n \<noteq> {}"
  using head_in_block by blast

lemma block_Suc: "block (Suc k) n = block k n \<union> block k (n + 2 ^ k)"
  by (auto simp: block_def)

lemma block_halves: "block k n \<inter> block k (n + 2 ^ k) = {}"
  by (auto simp: block_def)

lemma in_free_frames: "i \<le> 10 \<Longrightarrow> n \<in> set (xs i) \<Longrightarrow> j \<in> block i n \<Longrightarrow> j \<in> free_frames xs"
  by (auto simp: free_frames_def)

lemma free_frames_cons:
  assumes k: "k \<le> 10"
  shows "free_frames (xs(k := n # xs k)) = block k n \<union> free_frames xs" (is "?L = ?R")
proof
  show "?L \<subseteq> ?R" by (auto simp: free_frames_def split: if_splits)
  have "block k n \<subseteq> ?L" using k by (auto intro: in_free_frames [of k n])
  moreover have "j \<in> ?L" if i: "i \<le> 10" "m \<in> set (xs i)" "j \<in> block i m" for i m j
    using i by (intro in_free_frames [of i m]) auto
  ultimately show "?R \<subseteq> ?L" by (auto simp: free_frames_def [of xs])
qed

lemma free_frames_tl:
  assumes ok: "blocks_ok xs" and m: "m \<le> 10" and x: "xs m = n # rest"
  shows "free_frames (xs(m := rest)) = free_frames xs - block m n"
proof -
  have eq: "free_frames xs = block m n \<union> free_frames (xs(m := rest))"
    using free_frames_cons [OF m, of "xs(m := rest)" n] x by (simp add: fun_upd_idem)
  moreover have "block m n \<inter> free_frames (xs(m := rest)) = {}"
  proof -
    have "block m n \<inter> block i j = {}" if "i \<le> 10" "j \<in> set ((xs(m := rest)) i)" for i j
    proof -
      have "j \<in> set (xs i)" "(m, n) \<noteq> (i, j)"
        using ok that x m by (auto simp: blocks_ok_def split: if_splits)
      then show ?thesis using ok that(1) m x by (auto simp: blocks_ok_def)
    qed
    then show ?thesis by (auto simp: free_frames_def)
  qed
  ultimately show ?thesis by blast
qed

lemma blocks_ok_tl:
  assumes "blocks_ok xs" and "m \<le> 10" and "xs m = n # rest"
  shows "blocks_ok (xs(m := rest))"
proof -
  have sub: "set ((xs(m := rest)) i) \<subseteq> set (xs i)" for i using assms(3) by auto
  have "distinct ((xs(m := rest)) i)" if "i \<le> 10" for i
    using assms that by (cases "i = m") (auto simp: blocks_ok_def)
  then show ?thesis
    using assms(1) sub unfolding blocks_ok_def by (meson subsetD)
qed

lemma apart_tl:
  assumes "blocks_ok xs" and "m \<le> 10" and "xs m = n # rest"
  shows "apart m n (xs(m := rest))"
proof -
  have "2 ^ m dvd n \<and> n + 2 ^ m \<le> frame_limit" using assms by (auto simp: blocks_ok_def)
  then show ?thesis using assms by (auto simp: apart_def free_frames_tl)
qed

lemma apart_half:
  assumes "apart (Suc k) n xs" and "k \<le> 10"
  shows "apart k n xs" and "apart k (n + 2 ^ k) xs"
  using assms by (auto simp: apart_def block_Suc elim: dvd_mult_left)

lemma blocks_ok_cons:
  assumes ok: "blocks_ok xs" and k: "k \<le> 10" and ap: "apart k n xs"
  shows "blocks_ok (xs(k := n # xs k))"
proof -
  let ?ys = "xs(k := n # xs k)"
  have d: "block k n \<inter> block i j = {}" if "i \<le> 10" "j \<in> set (xs i)" for i j
    using ap that by (auto simp: apart_def free_frames_def)
  have new: "n \<notin> set (xs k)" using d [OF k, of n] block_nonempty by auto
  have "block i a \<inter> block j b = {}"
    if pair: "i \<le> 10" "j \<le> 10" "a \<in> set (?ys i)" "b \<in> set (?ys j)" "(i, a) \<noteq> (j, b)" for i j a b
  proof -
    consider "i = k \<and> a = n" | "j = k \<and> b = n" | "a \<in> set (xs i)" "b \<in> set (xs j)"
      using pair by (auto split: if_splits)
    then show ?thesis
    proof cases
      case 1
      then have "b \<in> set (xs j)" using pair by (auto split: if_splits)
      then show ?thesis using d pair(2) 1 by simp
    next
      case 2
      then have "a \<in> set (xs i)" using pair by (auto split: if_splits)
      then show ?thesis using d pair(1) 2 by (simp add: Int_commute)
    next
      case 3
      then show ?thesis using ok pair unfolding blocks_ok_def by blast
    qed
  qed
  moreover have "distinct (?ys i) \<and> (\<forall>j\<in>set (?ys i). 2 ^ i dvd j \<and> j + 2 ^ i \<le> frame_limit)"
    if "i \<le> 10" for i
    using ok that new ap by (auto simp: blocks_ok_def apart_def)
  ultimately show ?thesis unfolding blocks_ok_def by blast
qed

lemma apart_cons:
  assumes "apart k n xs" and "k \<le> 10" and "block k n \<inter> block k j = {}"
  shows "apart k n (xs(k := j # xs k))"
  using assms by (auto simp: apart_def free_frames_cons)

lemma listed_limit: "blocks_ok xs \<Longrightarrow> i \<le> 10 \<Longrightarrow> n \<in> set (xs i) \<Longrightarrow> j \<in> block i n \<Longrightarrow> j < frame_limit"
  by (meson blocks_ok_def in_block order_less_le_trans)

lemma apart_limit: "apart k n xs \<Longrightarrow> j \<in> block k n \<Longrightarrow> j < frame_limit"
  by (auto simp: apart_def in_block)

lemma apart_not_listed: "apart k n xs \<Longrightarrow> j \<in> block k n \<Longrightarrow> i \<le> 10 \<Longrightarrow> j \<notin> set (xs i)"
  by (meson apart_def disjoint_iff head_in_block in_free_frames)

lemma interior_not_listed:
  assumes "blocks_ok xs" and "i \<le> 10" and "n \<in> set (xs i)" and "j \<in> block i n" and "j \<noteq> n" and "k \<le> 10"
  shows "j \<notin> set (xs k)"
  using assms unfolding blocks_ok_def
  by (metis disjoint_iff head_in_block prod.inject)

section \<open>The representation relation\<close>

definition head_ok :: "'a pm_state_scheme \<Rightarrow> nat \<Rightarrow> nat \<Rightarrow> bool" where
  "head_ok s i n \<longleftrightarrow> (case frames s (desc n) of None \<Rightarrow> False | Some f \<Rightarrow>
     pf_order f = of_nat i \<and> pf_free f \<and> pf_lock f = 0 \<and> pf_addr f = of_nat (4096 * n))"

definition interior_ok :: "'a pm_state_scheme \<Rightarrow> nat \<Rightarrow> bool" where
  "interior_ok s j \<longleftrightarrow> node_next (mem s) (desc j) = 0 \<and>
     (case frames s (desc j) of None \<Rightarrow> False | Some f \<Rightarrow> pf_lock f = 0)"

definition block_ok :: "'a pm_state_scheme \<Rightarrow> nat \<Rightarrow> nat \<Rightarrow> bool" where
  "block_ok s i n \<longleftrightarrow> head_ok s i n \<and> (\<forall>j\<in>block i n. j \<noteq> n \<longrightarrow> interior_ok s j)"

definition represents :: "'a pm_state_scheme \<Rightarrow> buddy \<Rightarrow> bool" where
  "represents s xs \<longleftrightarrow> layout_ok s \<and> blocks_ok xs \<and>
     (\<forall>i\<le>10. linked (mem s) (freelist_handle s i) (map desc (xs i)) \<and>
        freelist_count s i = of_nat (length (xs i)) \<and>
        (\<forall>n\<in>set (xs i). block_ok s i n))"

text \<open>
  Memory outside of the list nodes, and what the allocator leaves alone: this memory, the place of
  the lists and everything the state has beyond the allocator.
\<close>

definition off_nodes :: "'a pm_state_scheme \<Rightarrow> u64 \<Rightarrow> bool" where
  "off_nodes s a \<longleftrightarrow> a \<notin> nodes s \<and> a - 8 \<notin> nodes s"

lemma off_nodesD: "off_nodes s a \<Longrightarrow> q \<in> nodes s \<Longrightarrow> a \<noteq> q \<and> a \<noteq> q + 8"
  by (auto simp: off_nodes_def)

definition same_off_nodes :: "'a pm_state_scheme \<Rightarrow> 'a pm_state_scheme \<Rightarrow> bool" where
  "same_off_nodes s s' \<longleftrightarrow> pf_freelist_at s' = pf_freelist_at s \<and> pm_state.more s' = pm_state.more s \<and>
     (\<forall>a. off_nodes s a \<longrightarrow> mem s' a = mem s a)"

lemma same_off_nodes_refl [simp]: "same_off_nodes s s"
  by (simp add: same_off_nodes_def)

lemma same_off_nodes_trans: "same_off_nodes s t \<Longrightarrow> same_off_nodes t u \<Longrightarrow> same_off_nodes s u"
  by (auto simp: same_off_nodes_def off_nodes_def nodes_def freelist_handle_def)

lemma same_off_nodes_store: "same_off_nodes s t \<Longrightarrow> same_off_nodes s (store_frame p f t)"
  by (simp add: same_off_nodes_def store_frame_def)

lemma append_outside:
  assumes "h \<in> nodes s" and "p \<in> nodes s" and "node_next m h \<in> insert 0 (nodes s)" and "off_nodes s a"
  shows "LinkedListAppend h p m a = m a"
  using assms off_nodesD [OF assms(4)] by (auto simp: LinkedListAppend_def Let_def set_next_def set_prev_def node_next_def)

lemma remove_outside:
  assumes "LinkedListRemove p m = Inr m'" and "node_next m p \<in> insert 0 (nodes s)"
    and "node_prev m p \<in> insert 0 (nodes s)" and "off_nodes s a"
  shows "m' a = m a"
  using assms off_nodesD [OF assms(4)] by (auto simp: LinkedListRemove_def Let_def set_next_def set_prev_def split: if_splits)

text \<open>
  While \<^verbatim>\<open>PM_AllocatePages\<close> splits, it holds a block of order \<open>k\<close> that is in no list; its
  node still has the pointers it had in the list of order \<open>m\<close>.
\<close>

definition in_hand :: "'a pm_state_scheme \<Rightarrow> buddy \<Rightarrow> nat \<Rightarrow> nat \<Rightarrow> nat \<Rightarrow> bool" where
  "in_hand s xs n k m \<longleftrightarrow> represents s xs \<and> apart k n xs \<and> block_ok s k n \<and> k \<le> m \<and> m \<le> 10 \<and>
     node_prev (mem s) (desc n) = freelist_handle s m \<and>
     node_next (mem s) (desc n) = head_of (map desc (xs m))"

lemma block_ok_cong:
  assumes "block_ok s i n"
    and "\<And>j. j \<in> block i n \<Longrightarrow> frames s' (desc j) = frames s (desc j)"
    and "\<And>j. j \<in> block i n \<Longrightarrow> j \<noteq> n \<Longrightarrow> node_next (mem s') (desc j) = node_next (mem s) (desc j)"
  shows "block_ok s' i n"
  using assms by (simp add: block_ok_def head_ok_def interior_ok_def)

lemma list_nodes:
  assumes "represents s xs" and "i \<le> 10"
  shows "set (freelist_handle s i # map desc (xs i)) \<subseteq> nodes s"
    and "distinct (freelist_handle s i # map desc (xs i))"
proof -
  have lim: "n < frame_limit" if "n \<in> set (xs i)" for n
    using assms that listed_limit [of xs i n n] by (simp add: represents_def)
  then show "set (freelist_handle s i # map desc (xs i)) \<subseteq> nodes s"
    using assms by auto
  have "freelist_handle s i \<notin> desc ` set (xs i)"
    using lim desc_not_handle [of s i] assms by (metis imageE represents_def)
  moreover have "inj_on desc (set (xs i))" using lim by (auto intro: inj_onI)
  moreover have "distinct (xs i)" using assms by (simp add: represents_def blocks_ok_def)
  ultimately show "distinct (freelist_handle s i # map desc (xs i))"
    by (simp add: distinct_map)
qed

lemma lists_disjoint:
  assumes R: "represents s xs" and "i \<le> 10" "j \<le> 10" "i \<noteq> j"
  shows "set (freelist_handle s i # map desc (xs i)) \<inter> set (freelist_handle s j # map desc (xs j)) = {}"
proof -
  have ok: "blocks_ok xs" and L: "layout_ok s" using R by (simp_all add: represents_def)
  have "a \<noteq> b" if "a \<in> set (xs i)" "b \<in> set (xs j)" for a b
  proof
    assume "a = b"
    moreover have "block i a \<inter> block j b = {}"
      using ok that assms unfolding blocks_ok_def by blast
    ultimately show False using head_in_block by blast
  qed
  moreover have "a < frame_limit" if "a \<in> set (xs k)" "k \<le> 10" for a k
    using that ok listed_limit head_in_block by blast
  ultimately show ?thesis
    using assms handle_eq [OF L] desc_not_handle [OF L] by fastforce
qed

lemma count_zero:
  assumes R: "represents s xs" and i: "i \<le> 10"
  shows "freelist_count s i = 0 \<longleftrightarrow> xs i = []"
proof -
  have "set (xs i) \<subseteq> {..<frame_limit}"
    using listed_limit [of xs i] R i by (force simp: represents_def)
  then have "card (set (xs i)) \<le> frame_limit"
    using card_mono [of "{..<frame_limit}"] by simp
  moreover have "distinct (xs i)" using R i by (simp add: represents_def blocks_ok_def)
  ultimately have "length (xs i) < 2 ^ 32"
    by (simp add: distinct_card frame_limit_def)
  then have "(of_nat (length (xs i)) :: u32) = 0 \<longleftrightarrow> length (xs i) = 0"
    by (simp add: word_of_nat_eq_0_iff nat_dvd_not_less) (use nat_dvd_not_less in force)
  then show ?thesis using R i by (simp add: represents_def)
qed

lemma scan_lists_first:
  "represents s xs \<Longrightarrow> scan_lists m s = first_list m xs"
proof (induction m xs rule: first_list.induct)
  case (1 m xs)
  then show ?case
    using count_zero [of s xs m]
    by (subst scan_lists.simps, subst first_list.simps) (auto simp: layout_simps)
qed

lemma listed_head:
  assumes "represents s xs" and "i \<le> 10" and "n \<in> set (xs i)"
  obtains f where "frames s (desc n) = Some f" "pf_order f = of_nat i" "pf_free f" "pf_lock f = 0"
    "desc n \<noteq> 0"
proof -
  have "head_ok s i n" and "n < frame_limit"
    using assms listed_limit [of xs i n n] by (auto simp: represents_def block_ok_def)
  then show thesis using that desc_nonzero by (auto simp: head_ok_def split: option.splits)
qed

lemma head_node:
  assumes "represents s xs" and "i \<le> 10"
  shows "node_next (mem s) (freelist_handle s i) \<in> insert 0 (nodes s)"
proof -
  have "linked (mem s) (freelist_handle s i) (map desc (xs i))" using assms by (simp add: represents_def)
  then have "node_next (mem s) (freelist_handle s i) = head_of (map desc (xs i))" by (rule linked_next)
  then show ?thesis using list_nodes(1) [OF assms] by (cases "xs i") auto
qed

section \<open>Splitting a block once\<close>

lemma of_nat_order: "k \<le> 10 \<Longrightarrow> unat (of_nat k :: 4 word) = k"
  by (simp add: unat_of_nat)

lemma order_Suc: "k < 10 \<Longrightarrow> (of_nat (Suc k) :: 4 word) \<noteq> 0 \<and> of_nat (Suc k) - 1 = (of_nat k :: 4 word)"
  using of_nat_order [of "Suc k"] by auto

text \<open>The state after a split, field by field.\<close>

definition split_state :: "nat \<Rightarrow> nat \<Rightarrow> pageframe \<Rightarrow> pageframe \<Rightarrow> 'a pm_state_scheme \<Rightarrow> 'a pm_state_scheme" where
  "split_state n k f g s = s\<lparr>
     mem := LinkedListAppend (freelist_handle s k) (desc (n + 2 ^ k)) (mem s),
     freelist_count := (freelist_count s)(k := freelist_count s k + 1),
     frames := (frames s)
       (desc (n + 2 ^ k) \<mapsto> g\<lparr>pf_order := of_nat k, pf_addr := pf_addr f + 2 ^ k * ARCH_PAGE_SIZE, pf_free := True\<rparr>,
        desc n \<mapsto> f\<lparr>pf_order := of_nat k, pf_lock := 0\<rparr>)\<rparr>"

lemma PM_ExpandPage_eq:
  assumes k: "k < 10" and lim: "n + 2 ^ Suc k \<le> frame_limit"
    and f: "frames s (desc n) = Some f" "pf_order f = of_nat (Suc k)" "pf_lock f = 0"
    and g: "frames s (desc (n + 2 ^ k)) = Some g"
    and again: "LinkedListRemove (desc n) (mem s) = Inr m"
  shows "PM_ExpandPage (desc n) s = Inr (desc n, split_state n k f g (s\<lparr>mem := m\<rparr>))"
proof -
  have L: "n < frame_limit" "n + 2 ^ k < frame_limit" "n \<noteq> n + 2 ^ k"
    using lim by (auto intro: less_le_trans [rotated])
  have nz: "desc n \<noteq> 0" "desc (n + 2 ^ k) \<noteq> 0" using L desc_nonzero by blast+
  have ne: "desc (n + 2 ^ k) \<noteq> desc n" using L by simp
  have ord: "pf_order f \<noteq> 0" "pf_order f - 1 = of_nat k" "unat (of_nat k :: 4 word) = k" "k < PAGE_LISTS"
    using order_Suc [OF k] of_nat_order [of k] k f(2) by (auto simp: PAGE_LISTS_def)
  have uc: "(ucast (of_nat k :: 4 word) :: u64) = of_nat k"
    using ord(3) by (metis of_nat_unat)
  show ?thesis
    using ord nz ne f g again
    by (simp add: PM_ExpandPage_def lock_frame_def unlock_frame_def load_frame_def store_frame_def
        list_remove_def list_append_def add_count_def freelist_handle_def split_state_def Let_def
        desc_add res_simps uc del: of_nat_Suc)
qed

lemma in_hand_remove_again:
  assumes "in_hand s xs n k m"
  shows "LinkedListRemove (desc n) (mem s) = Inr (mem s)"
proof -
  let ?h = "freelist_handle s m"
  have l: "linked (mem s) ?h (map desc (xs m))" and lim: "n < frame_limit"
    using assms apart_limit [of k n xs n] by (auto simp: in_hand_def represents_def)
  have p: "node_prev (mem s) (desc n) = ?h" and x: "node_next (mem s) (desc n) = head_of (map desc (xs m))"
    using assms by (auto simp: in_hand_def)
  show ?thesis
  proof (rule LinkedListRemove_again)
    show "desc n \<noteq> 0" using lim by (rule desc_nonzero)
    show "node_next (mem s) (node_prev (mem s) (desc n)) = node_next (mem s) (desc n)"
      using linked_next [OF l] p x by simp
    show "node_prev (mem s) (node_next (mem s) (desc n)) = node_prev (mem s) (desc n)"
      if "node_next (mem s) (desc n) \<noteq> 0"
      using that l p x by (cases "xs m") auto
  qed
qed

text \<open>What putting a block into list \<open>k\<close> does to the nodes of other blocks.\<close>

lemma append_frame_desc:
  assumes R: "represents s xs" and k: "k \<le> 10" and new: "b < frame_limit" and j: "j < frame_limit" "j \<noteq> b"
  shows "node_next (LinkedListAppend (freelist_handle s k) (desc b) (mem s)) (desc j) = node_next (mem s) (desc j)"
    and "j \<notin> set (xs k) \<Longrightarrow>
      node_prev (LinkedListAppend (freelist_handle s k) (desc b) (mem s)) (desc j) = node_prev (mem s) (desc j)"
proof -
  have L: "layout_ok s" and l: "linked (mem s) (freelist_handle s k) (map desc (xs k))"
    using R k by (auto simp: represents_def)
  have sub: "set (map desc (xs k)) \<subseteq> nodes s" using list_nodes(1) [OF R k] by simp
  note fr = LinkedListAppend_frame [OF separate_nodes [OF L] _ _ _ l sub, of "desc b" "desc j"]
  show "node_next (LinkedListAppend (freelist_handle s k) (desc b) (mem s)) (desc j) = node_next (mem s) (desc j)"
    using fr(1) k new j desc_not_handle [OF L k j(1)] by simp
  show "node_prev (LinkedListAppend (freelist_handle s k) (desc b) (mem s)) (desc j) = node_prev (mem s) (desc j)"
    if out: "j \<notin> set (xs k)"
  proof -
    have "desc j \<noteq> head_of (map desc (xs k))"
    proof (cases "xs k")
      case Nil
      then show ?thesis using desc_nonzero [OF j(1)] by simp
    next
      case (Cons y ys)
      moreover have "y < frame_limit"
        using R k Cons listed_limit [of xs k y y] by (simp add: represents_def)
      ultimately show ?thesis using out j(1) by auto
    qed
    then show ?thesis using fr(2) k new j by simp
  qed
qed

lemma split_state_fields [simp]:
  "pf_freelist_at (split_state n k f g s) = pf_freelist_at s"
  "freelist_handle (split_state n k f g s) i = freelist_handle s i"
  "layout_ok (split_state n k f g s) = layout_ok s"
  "mem (split_state n k f g s) = LinkedListAppend (freelist_handle s k) (desc (n + 2 ^ k)) (mem s)"
  "freelist_count (split_state n k f g s) = (freelist_count s)(k := freelist_count s k + 1)"
  by (simp_all add: split_state_def freelist_handle_def layout_ok_def)

lemma split_state_frames:
  assumes "n + 2 ^ k < frame_limit" and "j < frame_limit"
  shows "frames (split_state n k f g s) (desc j) =
     (if j = n then Some (f\<lparr>pf_order := of_nat k, pf_lock := 0\<rparr>)
      else if j = n + 2 ^ k
      then Some (g\<lparr>pf_order := of_nat k, pf_addr := pf_addr f + 2 ^ k * ARCH_PAGE_SIZE, pf_free := True\<rparr>)
      else frames s (desc j))"
  using assms by (simp add: split_state_def)

lemma split_lists:
  assumes R: "represents s xs" and k: "k \<le> 10" and ap: "apart k b xs"
    and clean: "node_next (mem s) (desc b) = 0" and i: "i \<le> 10"
  shows "linked (LinkedListAppend (freelist_handle s k) (desc b) (mem s)) (freelist_handle s i)
           (map desc ((xs(k := b # xs k)) i))"
proof -
  have L: "layout_ok s" and b: "b < frame_limit"
    using R apart_limit [OF ap head_in_block] by (auto simp: represents_def)
  note sep = separate_nodes [OF L]
  have out: "desc b \<notin> set (freelist_handle s j # map desc (xs j))" if j: "j \<le> 10" for j
  proof -
    have "a < frame_limit \<and> a \<noteq> b" if "a \<in> set (xs j)" for a
      using that R j listed_limit [of xs j a a] apart_not_listed [OF ap head_in_block j]
      by (auto simp: represents_def)
    then show ?thesis using desc_not_handle [OF L j b] b by fastforce
  qed
  have l: "linked (mem s) (freelist_handle s j) (map desc (xs j))" if "j \<le> 10" for j
    using R that by (simp add: represents_def)
  have sub: "set (freelist_handle s k # desc b # map desc (xs k)) \<subseteq> nodes s"
    using list_nodes(1) [OF R k] b by simp
  show ?thesis
  proof (cases "i = k")
    case True
    have "distinct (freelist_handle s k # desc b # map desc (xs k))"
      using list_nodes(2) [OF R k] out [OF k] by auto
    then show ?thesis
      using klist.insert_holds [OF sep sub _ l [OF k]] clean True by (simp add: clean_node_def)
  next
    case False
    have "set (freelist_handle s k # desc b # map desc (xs k)) \<inter>
        set (freelist_handle s i # map desc (xs i)) = {}"
      using lists_disjoint [OF R k i] out [OF i] False by auto
    then show ?thesis
      using klist.insert_keeps_list [OF sep sub list_nodes(1) [OF R i] _ l [OF k] l [OF i]] False
      by simp
  qed
qed

lemma expand_step:
  assumes H: "in_hand s xs n (Suc k) m"
  shows "\<exists>s'. PM_ExpandPage (desc n) s = Inr (desc n, s') \<and> same_off_nodes s s' \<and>
     in_hand s' (xs(k := (n + 2 ^ k) # xs k)) n k m"
proof -
  let ?b = "n + 2 ^ k" and ?ys = "xs(k := (n + 2 ^ k) # xs k)"
  have R: "represents s xs" and ap: "apart (Suc k) n xs" and B: "block_ok s (Suc k) n"
    and km: "Suc k \<le> m" "m \<le> 10" and k: "k < 10" "k \<le> 10" using H by (auto simp: in_hand_def)
  have lim: "n + 2 ^ Suc k \<le> frame_limit" and ok: "blocks_ok xs" and L: "layout_ok s"
    using ap R by (auto simp: apart_def represents_def)
  have bin: "?b \<in> block (Suc k) n" "?b \<noteq> n" by (auto simp: in_block)
  have b: "?b < frame_limit" and n: "n < frame_limit" using apart_limit [OF ap] bin by auto
  obtain f where f: "frames s (desc n) = Some f" "pf_order f = of_nat (Suc k)" "pf_free f"
      "pf_lock f = 0" "pf_addr f = of_nat (4096 * n)"
    using B by (auto simp: block_ok_def head_ok_def split: option.splits)
  obtain g where g: "frames s (desc ?b) = Some g" "pf_lock g = 0" and clean: "node_next (mem s) (desc ?b) = 0"
    using B bin by (auto simp: block_ok_def interior_ok_def split: option.splits)
  define s' where "s' = split_state n k f g s"
  have eq: "PM_ExpandPage (desc n) s = Inr (desc n, s')"
    unfolding s'_def using PM_ExpandPage_eq [OF k(1) lim f(1,2,4) g(1) in_hand_remove_again [OF H]] by simp
  note halves = apart_half [OF ap k(2)]
  have nx: "node_next (mem s') (desc j) = node_next (mem s) (desc j)" if "j < frame_limit" "j \<noteq> ?b" for j
    unfolding s'_def using append_frame_desc(1) [OF R k(2) b that] by simp
  have fr: "frames s' (desc j) = frames s (desc j)" if "j < frame_limit" "j \<notin> {n, ?b}" for j
    using split_state_frames [OF b that(1)] that(2) by (simp add: s'_def)
  have same: "block_ok s' i a" if a: "i \<le> 10" "a \<in> set (xs i)" for i a
  proof (rule block_ok_cong)
    show "block_ok s i a" using R a by (simp add: represents_def)
    have "n \<notin> block i a" "?b \<notin> block i a"
      using in_free_frames [of i a xs] a ap bin(1) head_in_block [of n "Suc k"]
      unfolding apart_def by blast+
    then show "frames s' (desc j) = frames s (desc j)"
        "node_next (mem s') (desc j) = node_next (mem s) (desc j)" if "j \<in> block i a" for j
      using nx fr that listed_limit [OF ok a that] by blast+
  qed
  have inner: "interior_ok s' j" if "j \<in> block (Suc k) n" "j \<noteq> n" "j \<noteq> ?b" for j
    using B that nx [of j] fr [of j] apart_limit [OF ap that(1)] by (simp add: block_ok_def interior_ok_def)
  have "head_ok s' k n" "head_ok s' k ?b"
    using split_state_frames [OF b n, of f g s] split_state_frames [OF b b, of f g s] f g
    by (simp_all add: head_ok_def s'_def ARCH_PAGE_SIZE_def)
  then have lo: "block_ok s' k n" and hi: "block_ok s' k ?b"
    using inner by (auto simp: block_ok_def in_block)
  have "represents s' ?ys"
    using L R same hi split_lists [OF R k(2) halves(2) clean] blocks_ok_cons [OF ok k(2) halves(2)]
    by (auto simp: represents_def s'_def)
  moreover have "node_prev (mem s') (desc n) = freelist_handle s' m"
    using append_frame_desc(2) [OF R k(2) b n] apart_not_listed [OF ap head_in_block k(2)] H
    by (simp add: s'_def in_hand_def)
  moreover have "apart k n ?ys"
    using apart_cons [OF halves(1) k(2)] block_halves by blast
  moreover have "same_off_nodes s s'"
    using append_outside [of "freelist_handle s k" s "desc ?b" "mem s"] head_node [OF R k(2)] b k(2)
    by (auto simp: same_off_nodes_def s'_def split_state_def)
  ultimately show ?thesis
    using eq km lo nx [OF n] H by (auto simp: in_hand_def s'_def)
qed

lemma expand_loop_in_hand:
  "in_hand s xs n (order + d) m \<Longrightarrow>
   \<exists>s'. expand_loop d (desc n) s = Inr (desc n, s') \<and> same_off_nodes s s' \<and>
     in_hand s' (split_block n order d xs) n order m"
proof (induction d arbitrary: s xs)
  case 0
  then show ?case by simp
next
  case (Suc d)
  obtain s1 where s1: "PM_ExpandPage (desc n) s = Inr (desc n, s1)" "same_off_nodes s s1"
      "in_hand s1 (xs(order + d := (n + 2 ^ (order + d)) # xs (order + d))) n (order + d) m"
    using expand_step [of s xs n "order + d" m] Suc.prems by auto
  show ?case using Suc.IH [OF s1(3)] s1(1) same_off_nodes_trans [OF s1(2)] by (auto simp del: fun_upd_apply)
qed

section \<open>Taking the head of a list\<close>

text \<open>The page is taken: locked, counted off, unlinked and unlocked again.\<close>

definition take_state :: "nat \<Rightarrow> wmem \<Rightarrow> 'a pm_state_scheme \<Rightarrow> 'a pm_state_scheme" where
  "take_state i m' s = s\<lparr>freelist_count := (freelist_count s)(i := freelist_count s i - 1), mem := m'\<rparr>"

lemma take_state_fields [simp]:
  "pf_freelist_at (take_state i m' s) = pf_freelist_at s"
  "freelist_handle (take_state i m' s) j = freelist_handle s j"
  "layout_ok (take_state i m' s) = layout_ok s"
  "mem (take_state i m' s) = m'"
  "frames (take_state i m' s) = frames s"
  "freelist_count (take_state i m' s) = (freelist_count s)(i := freelist_count s i - 1)"
  by (simp_all add: take_state_def freelist_handle_def layout_ok_def)

lemma PM_AllocatePages_take:
  assumes sc: "scan_lists (unat order) s = Some m" and o: "order \<le> 10"
    and h: "node_next (mem s) (freelist_handle s m) = p" and nz: "p \<noteq> 0"
    and f: "frames s p = Some f" "pf_free f" "pf_lock f = 0" and r: "LinkedListRemove p (mem s) = Inr m'"
  shows "PM_AllocatePages (Suc fuel) order s =
     bind_res (expand_loop (m - unat order) p (take_state m m' s)) (\<lambda>(p, s5).
     bind_res (load_frame p s5) (\<lambda>f. Inr (p, store_frame p (f\<lparr>pf_free := False\<rparr>) s5)))"
proof -
  have unl: "f\<lparr>pf_lock := 0\<rparr> = f" using f(3) by simp
  have sel: "select_page (Suc fuel) (freelist_handle s m) s =
      Inr (p, s\<lparr>frames := (frames s)(p \<mapsto> f\<lparr>pf_lock := 1\<rparr>)\<rparr>)"
    using h nz f by (simp add: lock_frame_def load_frame_def store_frame_def Let_def)
  have minus: "freelist_count s m + - 1 = freelist_count s m - 1" by simp
  have upd: "s\<lparr>freelist_count := C, mem := m', frames := (frames s)(p \<mapsto> f)\<rparr> =
      s\<lparr>freelist_count := C, mem := m'\<rparr>" for C
    using f(1) by (simp add: fun_upd_idem)
  show ?thesis
    using sc o sel r nz f
    by (simp add: PM_AllocatePages_def layout_simps add_count_def list_remove_def unlock_frame_def
        load_frame_def store_frame_def Let_def take_state_def unl upd minus not_less
        del: select_page.simps)
qed

lemma take_in_hand:
  assumes R: "represents s xs" and m: "m \<le> 10" and x: "xs m = n # rest"
  shows "\<exists>m'. LinkedListRemove (desc n) (mem s) = Inr m' \<and>
     in_hand (take_state m m' s) (xs(m := rest)) n m m \<and> same_off_nodes s (take_state m m' s)"
proof -
  let ?h = "freelist_handle s m" and ?ys = "xs(m := rest)"
  have L: "layout_ok s" and ok: "blocks_ok xs" using R by (simp_all add: represents_def)
  note sep = separate_nodes [OF L] and ln = list_nodes [OF R]
  have l: "linked (mem s) (freelist_handle s j) (map desc (xs j))" if "j \<le> 10" for j
    using R that by (simp add: represents_def)
  have lm: "linked (mem s) ?h ([] @ desc n # map desc rest)" using l [OF m] x by simp
  have sub: "set (?h # [] @ desc n # map desc rest) \<subseteq> nodes s" using ln(1) [OF m] x by simp
  obtain m' where m': "LinkedListRemove (desc n) (mem s) = Inr m'" "linked m' ?h (map desc rest)"
    using klist.unlink_holds [OF sep sub _ lm] ln(2) [OF m] x by auto
  note fr = LinkedListRemove_frame [OF sep sub _ lm m'(1)]
  have n: "n < frame_limit" using ok m x listed_limit [of xs m n n] by simp
  have nx: "node_next m' (desc j) = node_next (mem s) (desc j)" if "j < frame_limit" for j
    using fr(1) [of "desc j"] that desc_not_handle [OF L m that] by simp
  have "desc n \<noteq> head_of (map desc rest)"
    using ln(2) [OF m] x desc_nonzero [OF n] by (cases rest) auto
  then have pv: "node_prev m' (desc n) = ?h" using fr(2) [of "desc n"] n lm by simp
  have "linked m' (freelist_handle s i) (map desc (?ys i))" if i: "i \<le> 10" for i
    using m'(2) klist.unlink_keeps_list [OF sep sub ln(1) [OF i] _ lm l [OF i] m'(1)]
      lists_disjoint [OF R m i] x by auto
  moreover have B: "block_ok (take_state m m' s) i a" if a: "i \<le> 10" "a \<in> set (xs i)" for i a
    by (rule block_ok_cong [of s]) (use R a nx listed_limit [OF ok a] in \<open>auto simp: represents_def\<close>)
  ultimately have "represents (take_state m m' s) ?ys"
    using L R x blocks_ok_tl [OF ok m x] m by (auto simp: represents_def)
  moreover have "node_next m' (desc n) = head_of (map desc rest)"
    using nx [OF n] lm by (simp add: linked_next)
  moreover have "head_of (map desc rest) \<in> insert 0 (nodes s)" using sub by (cases rest) auto
  then have "same_off_nodes s (take_state m m' s)"
    using remove_outside [OF m'(1), of s] lm m linked_next [of "mem s" "desc n" "map desc rest"]
    by (auto simp: same_off_nodes_def take_state_def)
  ultimately show ?thesis
    using m'(1) pv apart_tl [OF ok m x] B [OF m, of n] m x by (auto simp: in_hand_def)
qed

lemma first_list_Some:
  "first_list k xs = Some m \<Longrightarrow> k \<le> m \<and> m \<le> 10 \<and> xs m \<noteq> [] \<and> (\<forall>i. k \<le> i \<and> i < m \<longrightarrow> xs i = [])"
proof (induction k xs rule: first_list.induct)
  case (1 k xs)
  from 1(2) have k: "k \<le> 10" by (subst (asm) first_list.simps) (simp split: if_splits)
  show ?case
  proof (cases "xs k = []")
    case True
    then have "first_list (Suc k) xs = Some m" using 1(2) k by (subst (asm) first_list.simps) simp
    then show ?thesis using 1(1) [OF k] True by (metis Suc_leD Suc_leI le_eq_less_or_eq)
  next
    case False
    then show ?thesis using 1(2) k by (subst (asm) first_list.simps) auto
  qed
qed

lemma first_list_None: "first_list k xs = None \<longleftrightarrow> (\<forall>i. k \<le> i \<and> i \<le> 10 \<longrightarrow> xs i = [])"
proof (induction k xs rule: first_list.induct)
  case (1 k xs)
  show ?case
  proof (cases "k \<le> 10 \<and> xs k = []")
    case True
    then show ?thesis using 1 by (subst first_list.simps) (metis Suc_leD Suc_leI le_eq_less_or_eq)
  next
    case False
    then show ?thesis by (subst first_list.simps) auto
  qed
qed

section \<open>Frames of the abstract allocator\<close>

lemma split_block_frames:
  assumes "order + d \<le> 10" and "apart (order + d) n xs"
  shows "free_frames (split_block n order d xs) = free_frames xs \<union> (block (order + d) n - block order n)"
  using assms
proof (induction d arbitrary: xs)
  case 0
  then show ?case by simp
next
  case (Suc d)
  let ?k = "order + d"
  let ?ys = "xs(?k := (n + 2 ^ ?k) # xs ?k)"
  have k: "?k \<le> 10" using Suc.prems by simp
  have "apart ?k n ?ys"
    using apart_cons [OF apart_half(1) [of ?k n xs] k block_halves] Suc.prems by simp
  then have "free_frames (split_block n order (Suc d) xs) = free_frames ?ys \<union> (block ?k n - block order n)"
    using Suc.IH [OF k] by simp
  also have "free_frames ?ys = block ?k (n + 2 ^ ?k) \<union> free_frames xs"
    by (rule free_frames_cons [OF k])
  also have "block ?k (n + 2 ^ ?k) \<inter> block order n = {}"
    using power_increasing [of order ?k "2::nat"] by (auto simp: block_def)
  ultimately show ?case using block_Suc [of ?k n] by auto
qed

lemma buddy_alloc_frames:
  assumes ok: "blocks_ok xs" and a: "buddy_alloc order xs = Some (n, ys)"
  shows "2 ^ order dvd n" and "block order n \<subseteq> free_frames xs"
    and "free_frames ys = free_frames xs - block order n" and "n + 2 ^ order \<le> frame_limit"
proof -
  obtain m where m: "first_list order xs = Some m"
    using a by (auto simp: buddy_alloc_def split: option.splits)
  then have mo: "order \<le> m" "m \<le> 10" and x: "xs m = n # tl (xs m)"
    using first_list_Some [OF m] a by (auto simp: buddy_alloc_def)
  let ?xs = "xs(m := tl (xs m))"
  note ap = apart_tl [OF ok mo(2) x] and tl = free_frames_tl [OF ok mo(2) x]
  have ys: "ys = split_block n order (m - order) ?xs"
    using a m x by (auto simp: buddy_alloc_def)
  have dv: "(2::nat) ^ order dvd 2 ^ m" using mo(1) by (rule le_imp_power_dvd)
  have le: "(2::nat) ^ order \<le> 2 ^ m" using mo(1) by (simp add: power_increasing)
  then have sub: "block order n \<subseteq> block m n" by (auto simp: block_def)
  have m_in: "block m n \<subseteq> free_frames xs"
    using in_free_frames [OF mo(2), of n xs] x by (metis list.set_intros(1) subsetI)
  show "2 ^ order dvd n" using ap dv by (auto simp: apart_def intro: dvd_trans)
  show "n + 2 ^ order \<le> frame_limit" using ap le unfolding apart_def by linarith
  show "block order n \<subseteq> free_frames xs" using sub m_in by blast
  show "free_frames ys = free_frames xs - block order n"
    using split_block_frames [of order "m - order" n ?xs] mo ap tl ys sub m_in by auto
qed

lemma split_block_ok:
  "order + d \<le> 10 \<Longrightarrow> blocks_ok xs \<Longrightarrow> apart (order + d) n xs \<Longrightarrow> blocks_ok (split_block n order d xs)"
proof (induction d arbitrary: xs)
  case (Suc d)
  let ?k = "order + d"
  have k: "?k \<le> 10" using Suc.prems by simp
  note h = apart_half [of ?k n xs]
  have "apart ?k n (xs(?k := (n + 2 ^ ?k) # xs ?k))"
    using apart_cons [OF h(1) k block_halves] Suc.prems by simp
  moreover have "blocks_ok (xs(?k := (n + 2 ^ ?k) # xs ?k))"
    using blocks_ok_cons [OF Suc.prems(2) k h(2)] Suc.prems by simp
  ultimately show ?case using Suc.IH [OF k] by simp
qed simp

lemma buddy_alloc_ok:
  assumes "blocks_ok xs" and "buddy_alloc k xs = Some (n, ys)"
  shows "blocks_ok ys"
proof -
  obtain m where m: "first_list k xs = Some m" "k \<le> m" "m \<le> 10" "xs m = n # tl (xs m)"
    using assms(2) first_list_Some [of k xs] by (auto simp: buddy_alloc_def split: option.splits)
  then show ?thesis
    using split_block_ok [of k "m - k" "xs(m := tl (xs m))" n] blocks_ok_tl [OF assms(1) m(3,4)] apart_tl [OF assms(1) m(3,4)] assms(2)
    by (auto simp: buddy_alloc_def)
qed

section \<open>Refinement\<close>

text \<open>What a caller gets: the descriptor of the block's first frame, marked as in use.\<close>

definition handed_out :: "'a pm_state_scheme \<Rightarrow> nat \<Rightarrow> nat \<Rightarrow> bool" where
  "handed_out s order n \<longleftrightarrow> (case frames s (desc n) of None \<Rightarrow> False | Some f \<Rightarrow>
     pf_order f = of_nat order \<and> \<not> pf_free f \<and> pf_lock f = 0 \<and> pf_addr f = of_nat (4096 * n))"

text \<open>Its node is in no list, but its pointers still lead to nodes.\<close>

definition loose :: "'a pm_state_scheme \<Rightarrow> nat \<Rightarrow> bool" where
  "loose s n \<longleftrightarrow> node_prev (mem s) (desc n) \<in> nodes s \<and> node_next (mem s) (desc n) \<in> insert 0 (nodes s)"

lemma in_hand_loose: "in_hand s xs n k m \<Longrightarrow> loose s n"
  using head_node [of s xs m] linked_next [of "mem s" "freelist_handle s m" "map desc (xs m)"]
  by (auto simp: loose_def in_hand_def represents_def)

lemma in_hand_finish:
  assumes H: "in_hand s xs n k m"
  shows "\<exists>f. load_frame (desc n) s = Inr f \<and>
     (let s' = store_frame (desc n) (f\<lparr>pf_free := False\<rparr>) s in represents s' xs \<and> handed_out s' k n \<and> loose s' n)"
proof -
  have R: "represents s xs" and ap: "apart k n xs" and B: "head_ok s k n"
    using H by (auto simp: in_hand_def block_ok_def)
  have n: "n < frame_limit" using apart_limit [OF ap head_in_block] .
  obtain f where f: "frames s (desc n) = Some f" "pf_order f = of_nat k" "pf_lock f = 0" "pf_addr f = of_nat (4096 * n)"
    using B by (auto simp: head_ok_def split: option.splits)
  define s' where "s' = store_frame (desc n) (f\<lparr>pf_free := False\<rparr>) s"
  have flds: "mem s' = mem s" "freelist_count s' = freelist_count s" "layout_ok s' = layout_ok s"
      "freelist_handle s' i = freelist_handle s i" "frames s' = (frames s)(desc n \<mapsto> f\<lparr>pf_free := False\<rparr>)" for i
    by (simp_all add: s'_def store_frame_def layout_ok_def freelist_handle_def)
  have "block_ok s' i a" if a: "i \<le> 10" "a \<in> set (xs i)" for i a
  proof (rule block_ok_cong)
    show "block_ok s i a" using R a by (simp add: represents_def)
    have out: "n \<notin> block i a"
      using ap a in_free_frames [of i a xs n] head_in_block [of n k] unfolding apart_def by blast
    show "frames s' (desc j) = frames s (desc j)" if "j \<in> block i a" for j
      using out that n listed_limit [of xs i a j] a R by (auto simp: flds represents_def)
  qed (simp add: flds)
  then have "represents s' xs" using R by (simp add: represents_def flds)
  moreover have "handed_out s' k n" using f by (simp add: handed_out_def flds)
  moreover have "loose s' n" using in_hand_loose [OF H] by (simp add: loose_def nodes_def flds)
  ultimately show ?thesis
    using f n by (auto simp: load_frame_def desc_nonzero s'_def Let_def)
qed

lemma PM_AllocatePages_Some:
  assumes R: "represents s xs" and o: "order \<le> 10" and a: "buddy_alloc (unat order) xs = Some (n, ys)"
  shows "\<exists>s'. PM_AllocatePages (Suc fuel) order s = Inr (desc n, s') \<and>
     represents s' ys \<and> handed_out s' (unat order) n \<and> loose s' n \<and> same_off_nodes s s'"
proof -
  obtain m where m: "first_list (unat order) xs = Some m"
    using a by (auto simp: buddy_alloc_def split: option.splits)
  then have mo: "unat order \<le> m" "m \<le> 10" and x: "xs m = n # tl (xs m)"
    using first_list_Some [OF m] a by (auto simp: buddy_alloc_def)
  have ys: "ys = split_block n (unat order) (m - unat order) (xs(m := tl (xs m)))"
    using a m x by (auto simp: buddy_alloc_def)
  obtain m' where m': "LinkedListRemove (desc n) (mem s) = Inr m'"
      "in_hand (take_state m m' s) (xs(m := tl (xs m))) n m m" "same_off_nodes s (take_state m m' s)"
    using take_in_hand [OF R mo(2) x] by blast
  obtain s5 where s5: "expand_loop (m - unat order) (desc n) (take_state m m' s) = Inr (desc n, s5)"
      "in_hand s5 ys n (unat order) m" "same_off_nodes (take_state m m' s) s5"
    using expand_loop_in_hand [of "take_state m m' s" _ n "unat order" "m - unat order" m] m'(2) mo ys
    by auto
  obtain f where f: "load_frame (desc n) s5 = Inr f"
      "let s' = store_frame (desc n) (f\<lparr>pf_free := False\<rparr>) s5 in represents s' ys \<and> handed_out s' (unat order) n \<and> loose s' n"
    using in_hand_finish [OF s5(2)] by blast
  moreover obtain f0 where "frames s (desc n) = Some f0" "pf_free f0" "pf_lock f0 = 0" "desc n \<noteq> 0"
    using listed_head [OF R mo(2), of n] x by (metis list.set_intros(1))
  moreover have "node_next (mem s) (freelist_handle s m) = desc n"
    using R mo(2) x by (metis (no_types, lifting) linked.simps(2) list.simps(9) represents_def)
  ultimately show ?thesis
    using PM_AllocatePages_take [of order s m "desc n" f0 m' fuel] scan_lists_first [OF R] m o m'(1) s5(1)
      same_off_nodes_store [OF same_off_nodes_trans [OF m'(3) s5(3)]]
    by (simp add: Let_def)
qed

lemma PM_AllocatePages_None:
  assumes "represents s xs" and "buddy_alloc (unat order) xs = None"
  shows "PM_AllocatePages fuel order s = Inr (0, s)"
  using assms scan_lists_first [of s xs "unat order"]
  by (simp add: PM_AllocatePages_def buddy_alloc_def split: option.splits)

lemma PM_AllocatePages_order:
  "order > 10 \<Longrightarrow> PM_AllocatePages fuel order s = Inr (0, s)"
  by (simp add: PM_AllocatePages_def layout_simps)

section \<open>What users of physical memory rely on\<close>

definition frame_no :: "u64 \<Rightarrow> nat" where
  "frame_no p = (unat p - unat KERNEL_PHYSICAL_PAGES) div unat sizeof_pageframe"

text \<open>The frames behind an answer of the allocator: none for NULL.\<close>

definition owned :: "u8 \<times> u64 \<Rightarrow> nat set" where
  "owned a = (if snd a = 0 then {} else block (unat (fst a)) (frame_no (snd a)))"

text \<open>The frames that can still be handed out.\<close>

definition available :: "'a pm_state_scheme \<Rightarrow> nat set \<Rightarrow> bool" where
  "available s A \<longleftrightarrow> (\<exists>xs. represents s xs \<and> free_frames xs = A)"

text \<open>A sequence of requests, answered one after the other.\<close>

fun serve :: "(u8 \<Rightarrow> 's \<Rightarrow> (u64 \<times> 's) res) \<Rightarrow> u8 list \<Rightarrow> 's \<Rightarrow> ((u8 \<times> u64) list \<times> 's) res" where
  "serve alloc [] s = Inr ([], s)"
| "serve alloc (r # rs) s =
     bind_res (alloc r s) (\<lambda>(p, s1).
     bind_res (serve alloc rs s1) (\<lambda>(ps, s2). Inr ((r, p) # ps, s2)))"

locale frame_allocator =
  fixes alloc :: "u8 \<Rightarrow> 's \<Rightarrow> (u64 \<times> 's) res"
    and avail :: "'s \<Rightarrow> nat set \<Rightarrow> bool"
    and frames_of :: "u8 \<times> u64 \<Rightarrow> nat set"
  assumes alloc_takes: "avail s A \<Longrightarrow>
     \<exists>p s'. alloc r s = Inr (p, s') \<and> frames_of (r, p) \<subseteq> A \<and> avail s' (A - frames_of (r, p))"
begin

lemma serve_disjoint:
  "avail s A \<Longrightarrow>
   \<exists>ps s'. serve alloc rs s = Inr (ps, s') \<and> map fst ps = rs \<and>
     (\<Union>a\<in>set ps. frames_of a) \<subseteq> A \<and> avail s' (A - (\<Union>a\<in>set ps. frames_of a)) \<and>
     (\<forall>i j. i < j \<and> j < length ps \<longrightarrow> frames_of (ps ! i) \<inter> frames_of (ps ! j) = {})"
proof (induction rs arbitrary: s A)
  case Nil
  then show ?case by simp
next
  case (Cons r rs)
  obtain p s1 where p: "alloc r s = Inr (p, s1)" "frames_of (r, p) \<subseteq> A" "avail s1 (A - frames_of (r, p))"
    using alloc_takes [OF Cons.prems] by blast
  obtain ps s2 where ps: "serve alloc rs s1 = Inr (ps, s2)" "map fst ps = rs"
      "(\<Union>a\<in>set ps. frames_of a) \<subseteq> A - frames_of (r, p)"
      "avail s2 (A - frames_of (r, p) - (\<Union>a\<in>set ps. frames_of a))"
      "\<forall>i j. i < j \<and> j < length ps \<longrightarrow> frames_of (ps ! i) \<inter> frames_of (ps ! j) = {}"
    using Cons.IH [OF p(3)] by blast
  have "frames_of (((r, p) # ps) ! i) \<inter> frames_of (((r, p) # ps) ! j) = {}"
    if "i < j" "j < length ((r, p) # ps)" for i j
  proof -
    obtain j' where j: "j = Suc j'" "j' < length ps" using \<open>i < j\<close> \<open>j < _\<close> by (cases j) auto
    then have "frames_of (r, p) \<inter> frames_of (ps ! j') = {}" using ps(3) nth_mem by blast
    then show ?thesis using ps(5) j that(1) by (cases i) auto
  qed
  then show ?case
    using p ps by (auto simp: Diff_eq Int_assoc)
qed

end

lemma frame_no_desc: "n < frame_limit \<Longrightarrow> frame_no (desc n) = n"
  using unat_desc [of n] by (simp add: frame_no_def layout_simps)

lemma alloc_available:
  assumes "available s A"
  shows "\<exists>p s'. PM_AllocatePages (Suc fuel) r s = Inr (p, s') \<and> owned (r, p) \<subseteq> A \<and>
     available s' (A - owned (r, p))"
proof -
  obtain xs where R: "represents s xs" and A: "free_frames xs = A"
    using assms by (auto simp: available_def)
  have ok: "blocks_ok xs" using R by (simp add: represents_def)
  show ?thesis
  proof (cases "r \<le> 10 \<and> buddy_alloc (unat r) xs \<noteq> None")
    case True
    then obtain n ys where a: "buddy_alloc (unat r) xs = Some (n, ys)" by auto
    note fr = buddy_alloc_frames [OF ok a]
    have n: "n < frame_limit" by (rule less_le_trans [OF _ fr(4)]) simp
    obtain s' where "PM_AllocatePages (Suc fuel) r s = Inr (desc n, s')" "represents s' ys"
      using PM_AllocatePages_Some [OF R _ a, of fuel] True by blast
    moreover have "owned (r, desc n) = block (unat r) n"
      using desc_nonzero [OF n] frame_no_desc [OF n] by (simp add: owned_def)
    ultimately show ?thesis using fr(2,3) A by (auto simp: available_def)
  next
    case False
    then have "PM_AllocatePages (Suc fuel) r s = Inr (0, s)"
      using PM_AllocatePages_None [OF R, of r "Suc fuel"] PM_AllocatePages_order [of r "Suc fuel" s]
      by (meson not_le)
    then show ?thesis using assms by (simp add: owned_def)
  qed
qed

interpretation pm: frame_allocator "PM_AllocatePages (Suc fuel)" available owned for fuel
  by unfold_locales (rule alloc_available)

section \<open>A small memory\<close>

text \<open>
  One free block of four frames at 1 MiB; the list heads are where a kernel linked at the top of
  the address space has them.
\<close>

definition demo_xs :: buddy where "demo_xs = (\<lambda>_. [])(2 := [256])"

definition demo_frame :: pageframe where
  "demo_frame = \<lparr>pf_order = 2, pf_free = True, pf_kmem = False, pf_ign = 0, slab_inuse = 0,
     slab_objects = 0, slab_frozen = False, slabCache = 0, pf_objects = 0, pf_lock = 0, pf_addr = 0x100000\<rparr>"

definition demo_pm :: pm_state where
  "demo_pm = \<lparr>
     mem = (\<lambda>_. 0)(0xFFFFFFFF80200038 := desc 256, desc 256 := 0xFFFFFFFF80200030),
     frames = (\<lambda>_. Some demo_frame),
     freelist_count = (\<lambda>_. 0)(2 := 1),
     pf_freelist_at = 0xFFFFFFFF80200000\<rparr>"

lemma blocks_ok_demo: "blocks_ok demo_xs"
  by (simp add: blocks_ok_def demo_xs_def frame_limit_def)

lemma represents_demo: "represents demo_pm demo_xs"
proof -
  have L: "layout_ok demo_pm" by (simp add: layout_ok_def demo_pm_def)
  have h: "freelist_handle demo_pm i + 8 \<noteq> desc 256" if "i \<le> 10" for i
    using separate_nodes [OF L] that separateD(2) [of "nodes demo_pm"]
    by (simp add: frame_limit_def)
  have n: "node_next (mem demo_pm) (freelist_handle demo_pm i) = (if i = 2 then desc 256 else 0)"
    if i: "i \<le> 10" for i
  proof -
    have "freelist_handle demo_pm i + 8 = 0xFFFFFFFF80200038 \<longleftrightarrow> i = 2"
      using handle_eq [OF L i, of 2] by (auto simp: freelist_handle_def demo_pm_def layout_simps)
    then show ?thesis using h [OF i] by (simp add: node_next_def demo_pm_def)
  qed
  have inner: "interior_ok demo_pm j" if "j \<in> block 2 256" "j \<noteq> 256" for j
  proof -
    have "j \<in> {257, 258, 259}" using that by (auto simp: block_def)
    then show ?thesis
      by (auto simp: interior_ok_def node_next_def demo_pm_def demo_frame_def desc_def layout_simps)
  qed
  have "block_ok demo_pm 2 256"
    using inner by (simp add: block_ok_def head_ok_def demo_pm_def demo_frame_def)
  moreover have "linked (mem demo_pm) (freelist_handle demo_pm 2) [desc 256]"
    using n [of 2] by (simp add: node_prev_def node_next_def demo_pm_def freelist_handle_def desc_def layout_simps)
  ultimately show ?thesis
    using L blocks_ok_demo n by (auto simp: represents_def demo_xs_def demo_pm_def)
qed

section \<open>Properties\<close>

text \<open>
  C1. \<^verbatim>\<open>PM_AllocatePages\<close> implements the abstract buddy allocator: on a state that
  represents the block lists \<open>xs\<close>, with one pass of its selection loop, it returns the
  descriptor of the block the abstract allocator chooses, marked as used, with the requested
  order and the right physical address, in a state that represents the abstract allocator's new
  lists; where the abstract allocator has no block it returns NULL and changes nothing.
\<close>

theorem allocate_refines_buddy:
  assumes "represents s xs" and "order \<le> 10"
  shows "case buddy_alloc (unat order) xs of
      None \<Rightarrow> PM_AllocatePages (Suc fuel) order s = Inr (0, s)
    | Some (n, ys) \<Rightarrow> \<exists>s'. PM_AllocatePages (Suc fuel) order s = Inr (desc n, s') \<and>
        represents s' ys \<and> handed_out s' (unat order) n"
  using PM_AllocatePages_None [OF assms(1), of order "Suc fuel"] PM_AllocatePages_Some [OF assms, of _ _ fuel]
  by (fastforce split: option.splits)

theorem allocate_refines_buddy_witness:
  "\<exists>s'. PM_AllocatePages 1 0 demo_pm = Inr (desc 256, s') \<and> handed_out s' 0 256"
proof -
  have "first_list 0 demo_xs = Some 2"
    by (simp add: first_list.simps demo_xs_def)
  then have "\<exists>ys. buddy_alloc 0 demo_xs = Some (256, ys)"
    by (simp add: buddy_alloc_def demo_xs_def)
  then show ?thesis
    using allocate_refines_buddy [OF represents_demo, of 0 0] by auto
qed



text \<open>
  C14. The block handed out for an order starts at a frame number that is a multiple of its size,
  and it is taken from the smallest order at or above the requested one that has a block.
\<close>

theorem allocate_aligned_best_fit:
  assumes "represents s xs" and "order \<le> 10"
    and "PM_AllocatePages (Suc fuel) order s = Inr (p, s')" and "p \<noteq> 0"
  shows "\<exists>n m. p = desc n \<and> 2 ^ unat order dvd n \<and> unat order \<le> m \<and> m \<le> 10 \<and> n = hd (xs m) \<and>
     xs m \<noteq> [] \<and> (\<forall>i. unat order \<le> i \<and> i < m \<longrightarrow> xs i = [])"
proof -
  have ok: "blocks_ok xs" using assms(1) by (simp add: represents_def)
  obtain n ys where a: "buddy_alloc (unat order) xs = Some (n, ys)"
    using PM_AllocatePages_None [OF assms(1), of order "Suc fuel"] assms(3,4) by fastforce
  then obtain m where m: "first_list (unat order) xs = Some m" "n = hd (xs m)"
    by (auto simp: buddy_alloc_def split: option.splits)
  have "p = desc n" using PM_AllocatePages_Some [OF assms(1,2) a, of fuel] assms(3) by auto
  then show ?thesis
    using first_list_Some [OF m(1)] m(2) buddy_alloc_frames(1) [OF ok a] by blast
qed

theorem allocate_aligned_best_fit_witness:
  "\<exists>p s' n. PM_AllocatePages 1 1 demo_pm = Inr (p, s') \<and> p = desc n \<and> (2::nat) dvd n"
proof -
  have f: "first_list 1 demo_xs = Some 2" by (simp add: first_list.simps demo_xs_def)
  have a: "\<exists>ys. buddy_alloc (unat (1::u8)) demo_xs = Some (256, ys)"
    using f by (simp add: buddy_alloc_def) (simp add: demo_xs_def)
  then obtain s' where s': "PM_AllocatePages (Suc 0) 1 demo_pm = Inr (desc 256, s')"
    using PM_AllocatePages_Some [OF represents_demo, of 1 256 _ 0] by auto
  show ?thesis
    using allocate_aligned_best_fit [OF represents_demo _ s' desc_nonzero] s' by (auto simp: frame_limit_def)
qed

end
