(* ===== verification/Kernel_Pages.thy ===== *)
theory Kernel_Pages
  imports Page_Zone Buddy_Refinement
begin

text \<open>
  The three layers under \<^verbatim>\<open>AllocatePages\<close> put together for a request of the kernel: the frame
  allocator hands out a block, the search for virtual addresses finds the first run of clear marks
  and the page table entries are written.
\<close>

section \<open>Representation and memory outside of the lists\<close>

lemma represents_cong:
  assumes R: "represents s xs" and f: "frames s' = frames s" "freelist_count s' = freelist_count s"
      "pf_freelist_at s' = pf_freelist_at s"
    and m: "\<And>q. q \<in> nodes s \<Longrightarrow> mem s' q = mem s q \<and> mem s' (q + 8) = mem s (q + 8)"
  shows "represents s' xs"
proof -
  have h: "freelist_handle s' = freelist_handle s" "layout_ok s' = layout_ok s"
    using f by (simp_all add: freelist_handle_def layout_ok_def fun_eq_iff)
  have "linked (mem s') (freelist_handle s i) (map desc (xs i)) = linked (mem s) (freelist_handle s i) (map desc (xs i))"
    if "i \<le> 10" for i
    using list_nodes(1) [OF R that] m by (intro linked_cong) (auto simp: node_next_def node_prev_def)
  moreover have "block_ok s' i n" if "i \<le> 10" "n \<in> set (xs i)" for i n
  proof (rule block_ok_cong)
    show "block_ok s i n" using R that by (simp add: represents_def)
    show "node_next (mem s') (desc j) = node_next (mem s) (desc j)" if "j \<in> block i n" for j
      using listed_limit [of xs i n j] R that \<open>i \<le> 10\<close> \<open>n \<in> set (xs i)\<close> m by (simp add: node_next_def represents_def)
  qed (simp add: f)
  ultimately show ?thesis using R f h by (simp add: represents_def)
qed

text \<open>A block of frames together with what the request leaves alone.\<close>

lemma PM_AllocatePages_block:
  assumes R: "represents s xs" and k: "k \<le> 10" and a: "buddy_alloc k xs = Some (n, ys)"
  shows "\<exists>s' f. PM_AllocatePages (Suc fuel) (of_nat k) s = Inr (desc n, s') \<and> represents s' ys \<and> handed_out s' k n \<and>
    loose s' n \<and> same_off_nodes s s' \<and> load_frame (desc n) s' = Inr f \<and> pf_addr f = of_nat (4096 * n)"
proof -
  have u: "unat (of_nat k :: u8) = k" using k by (simp add: unat_of_nat)
  then have "of_nat k \<le> (10 :: u8)" using k by (simp add: word_le_nat_alt)
  then obtain s' where s': "PM_AllocatePages (Suc fuel) (of_nat k) s = Inr (desc n, s')" "represents s' ys" "handed_out s' k n"
      "loose s' n" "same_off_nodes s s'"
    using PM_AllocatePages_Some [OF R, of "of_nat k" n ys fuel] a u by auto
  moreover have "n < frame_limit"
    using buddy_alloc_frames(4) [OF _ a] R by (auto simp: represents_def intro: less_le_trans [rotated])
  ultimately show ?thesis using desc_nonzero [of n] by (auto simp: handed_out_def load_frame_def split: option.splits)
qed

lemma first_mark_cong:
  assumes F: "first_mark s p B sub w" and m: "pm_state.more s' = pm_state.more s"
    and a: "mem s' (m_VirtuaPagesBitmap p) = mem s (m_VirtuaPagesBitmap p)"
      "\<And>j. j \<le> sub \<Longrightarrow> mem s' (B + 8 * of_nat j) = mem s (B + 8 * of_nat j)"
  shows "first_mark s' p B sub w" and "PR_GetKernelProcess s' = PR_GetKernelProcess s"
    and "table_of s' = table_of s" and "links s' = links s"
proof -
  have e: "procs s' = procs s" "links s' = links s" "kernelPageTablePointers s' = kernelPageTablePointers s"
    using m by (cases s; cases s'; simp)+
  then show "PR_GetKernelProcess s' = PR_GetKernelProcess s" "table_of s' = table_of s" "links s' = links s"
    by (simp_all add: PR_GetKernelProcess_def table_of_def fun_eq_iff)
  with e F a show "first_mark s' p B sub w" by (simp add: first_mark_def)
qed

section \<open>A block of pages for the kernel\<close>

text \<open>The virtual address that belongs to a mark.\<close>

definition mark_address :: "nat \<Rightarrow> nat \<Rightarrow> u64" where
  "mark_address sub b = KERNEL_VIRTUAL_BASE + of_nat (64 * sub + b) * 4096"

lemma mark_address_unat:
  assumes "sub < 512" and "b < 64"
  shows "unat (mark_address sub b) = 0xFFFFFFFF80000000 + (64 * sub + b) * 4096"
    and "kernel_addr (mark_address sub b)"
proof -
  have "mark_address sub b = of_nat (0xFFFFFFFF80000000 + (64 * sub + b) * 4096)"
    by (simp add: mark_address_def KERNEL_VIRTUAL_BASE_def)
  then show "unat (mark_address sub b) = 0xFFFFFFFF80000000 + (64 * sub + b) * 4096"
    using assms by (simp only: unat_of_nat) simp
  then show "kernel_addr (mark_address sub b)" by (simp add: kernel_addr_def)
qed

text \<open>
  What has to hold for \<open>2 ^ k\<close> pages: there is a block of frames, a run of clear marks, and every page of
  the run has a page table.
\<close>

definition pages_ready ::
  "'a vm_state_scheme \<Rightarrow> nat \<Rightarrow> buddy \<Rightarrow> nat \<Rightarrow> buddy \<Rightarrow> process \<Rightarrow> u64 \<Rightarrow> nat \<Rightarrow> nat \<Rightarrow> bool" where
  "pages_ready s k xs n ys p B sub b \<longleftrightarrow>
     represents s xs \<and> buddy_alloc k xs = Some (n, ys) \<and> n + 2 ^ k \<le> 2 ^ 24 \<and>
     first_mark s p B sub (mem s (B + 8 * of_nat sub)) \<and> b + 2 ^ k \<le> 31 \<and>
     first_fit (seen_marks sub (2 ^ k) (mem s (B + 8 * of_nat sub))) (2 ^ k) b \<and>
     (k = 0 \<or> B + 8 * of_nat sub \<noteq> m_VirtuaPagesBitmap p) \<and>
     off_nodes s (m_VirtuaPagesBitmap p) \<and> (\<forall>j \<le> sub. off_nodes s (B + 8 * of_nat j)) \<and>
     distinct_tables s \<and> (\<forall>j<2 ^ k. table_of s (mark_address sub (b + j)) \<noteq> 0)"

lemma pages_ready_order:
  assumes "pages_ready s k xs n ys p B sub b"
  shows "k \<le> 4" and "page_size_order (2 ^ k) = of_nat k" and "unat ((2 :: u64) ^ k) = 2 ^ k"
proof -
  have "(2 :: nat) ^ k < 2 ^ 5" using assms unfolding pages_ready_def by simp
  then show k: "k \<le> 4" using power_less_imp_less_exp [of "2 :: nat" k 5] by simp
  then show u: "unat ((2 :: u64) ^ k) = 2 ^ k" by simp
  have "(2 :: nat) ^ k \<le> 2 ^ 4" using k by (intro power_increasing) auto
  then have "0 < unat ((2 :: u64) ^ k)" "unat ((2 :: u64) ^ k) < 2048" unfolding u by simp_all
  from page_size_order_log [OF this] obtain j where j: "page_size_order (2 ^ k) = of_nat j" "(2 :: nat) ^ j \<le> 2 ^ k"
      "(2 :: nat) ^ k < 2 ^ Suc j"
    unfolding u by blast
  have "j \<le> k" using j(2) by simp
  moreover have "k < Suc j" using j(3) by (rule power_less_imp_less_exp [rotated]) simp
  ultimately have "j = k" by simp
  with j(1) show "page_size_order (2 ^ k) = of_nat k" by simp
qed

lemma mark_address_add: "mark_address sub (b + j) = mark_address sub b + 4096 * of_nat j"
  by (simp add: mark_address_def distrib_left distrib_right)

lemma run_mappable:
  assumes "pages_ready s k xs n ys p B sub b" and t: "table_of t = table_of s" "distinct_tables t"
  shows "mappable t (of_nat (4096 * n)) (mark_address sub b) (2 ^ k)"
proof -
  have r: "n + 2 ^ k \<le> 2 ^ 24" "b + 2 ^ k \<le> 31" "sub < 512"
    using assms(1) by (auto simp: pages_ready_def first_mark_def)
  have ph: "unat (of_nat (4096 * n) :: u64) = 4096 * n" using r(1) by (simp only: unat_of_nat) simp
  note va = mark_address_unat [OF r(3)]
  have v: "vpn (mark_address sub j) = 0xFFFFFFFF80000 + (64 * sub + j)" if "j < 64" for j
    using va(1) [OF that] by (simp add: vpn_def)
  have "table_of t a \<noteq> 0"
    if "kernel_addr a" "vpn (mark_address sub b) \<le> vpn a" "vpn a < vpn (mark_address sub b) + 2 ^ k" for a
  proof -
    define j where "j = vpn a - vpn (mark_address sub b)"
    have j: "j < 2 ^ k" using that by (simp add: j_def)
    have "b < 64" "b + j < 64" using r(2) j by linarith+
    then have "vpn (mark_address sub (b + j)) = vpn a" using v [of b] v [of "b + j"] that(2) j_def by linarith
    note ix = vpn_indexes [OF this]
    have "table_of s (mark_address sub (b + j)) = table_of s a" by (simp add: table_of_def ix)
    moreover have "table_of s (mark_address sub (b + j)) \<noteq> 0" using assms(1) j by (simp add: pages_ready_def)
    ultimately show ?thesis using t(1) by simp
  qed
  then show ?thesis using t(2) va [of b] r ph by (simp add: mappable_def)
qed

lemma AllocatePages_kernel_pages:
  assumes "pages_ready s k xs n ys p B sub b" and am: "page_size_align amount = 2 ^ k"
  shows "\<exists>s'. AllocatePages (Suc fuel) (PR_GetKernelProcess s) amount s = Inr (mark_address sub b, s') \<and>
    (\<forall>i<2 ^ k. \<forall>off<4096.
       ConvertVirtToPhys pmap (mark_address sub b + 4096 * of_nat i + of_nat off) s' =
         of_nat (4096 * n) + 4096 * of_nat i + of_nat off \<and>
       IsPagePresent pmap (mark_address sub b + 4096 * of_nat i + of_nat off) s' = Inr True) \<and>
    represents s' ys \<and> handed_out s' k n \<and> loose s' n \<and> nodes s' = nodes s \<and>
    (\<forall>a. off_nodes s a \<longrightarrow> a \<noteq> B + 8 * of_nat sub \<longrightarrow> mem s' a = mem s a) \<and>
    core_id s' = core_id s \<and> links s' = links s \<and> table_of s' = table_of s \<and> vm_state.more s' = vm_state.more s \<and>
    (\<forall>a. kernel_addr a \<and> \<not> (vpn (mark_address sub b) \<le> vpn a \<and> vpn a < vpn (mark_address sub b) + 2 ^ k) \<longrightarrow>
       entry_of s' a = entry_of s a) \<and>
    procs s' (PR_GetKernelProcess s) = Some (p\<lparr>m_MemoryAllocated := m_MemoryAllocated p + 2 ^ k * ARCH_PAGE_SIZE,
      m_Pages := m_Pages p + ucast (2 ^ k :: u64)\<rparr>) \<and>
    mem s' (B + 8 * of_nat sub) = mem s (B + 8 * of_nat sub) OR run_marks b (2 ^ k) \<and> distinct_tables s'"
proof -
  let ?w = "mem s (B + 8 * of_nat sub)" and ?k = "PR_GetKernelProcess s" and ?v = "mark_address sub b"
  let ?c = "B + 8 * of_nat sub" and ?ph = "of_nat (4096 * n) :: u64"
  note P = assms(1) [unfolded pages_ready_def] and ord = pages_ready_order [OF assms(1)]
  have F: "first_mark s p B sub ?w" using P by blast
  obtain s1 f where s1: "PM_AllocatePages (Suc fuel) (of_nat k) s = Inr (desc n, s1)" "represents s1 ys" "handed_out s1 k n"
      "same_off_nodes s s1" "load_frame (desc n) s1 = Inr f" "pf_addr f = ?ph" "loose s1 n"
    using PM_AllocatePages_block [of s xs k n ys fuel] P ord(1) by auto
  have out: "pm_state.more s1 = pm_state.more s" "pf_freelist_at s1 = pf_freelist_at s"
      "\<And>a. off_nodes s a \<Longrightarrow> mem s1 a = mem s a"
    using s1(4) by (auto simp: same_off_nodes_def)
  have F1: "first_mark s1 p B sub ?w" "PR_GetKernelProcess s1 = ?k" "table_of s1 = table_of s" "links s1 = links s"
    using first_mark_cong [OF F out(1)] out(3) P by auto
  have m1: "core_id s1 = core_id s" "page_tables s1 = page_tables s" "vm_state.more s1 = vm_state.more s"
      "kernelPageTablePointers s1 = kernelPageTablePointers s"
    using out(1) by (cases s; cases s1; simp)+
  define s2 where "s2 = s1\<lparr>mem := (mem s1)(?c := ?w OR run_marks b (2 ^ k))\<rparr>"
  have "page_addr sub b + KERNEL_VIRTUAL_BASE = ?v"
    by (simp add: page_addr_eq mark_address_def ARCH_PAGE_SIZE_def add.commute del: of_nat_add of_nat_mult)
  then have vm: "VM_AllocatePages (AllocatePages fuel) ?k (2 ^ k) s1 = Inr (?v, s2)"
    using VM_AllocatePages_fit [OF F1(1), of "2 ^ k" b "AllocatePages fuel"] P F1(2) by (auto simp: s2_def)
  have pr: "?k \<noteq> 0" "procs s2 ?k = Some p" "table_of s2 = table_of s" "links s2 = links s" "distinct_tables s2"
    using F1 m1(4) P by (simp_all add: first_mark_def s2_def table_of_def distinct_tables_def fun_eq_iff)
  define flags :: u64 where "flags = PAGE_FLAG_PRESENT OR PAGE_FLAG_WRITABLE OR PAGE_FLAG_USER"
  obtain T where T: "MapVirtualAddress (AllocatePages fuel) (m_Pagemap p) ?ph ?v (2 ^ k) flags s2 = Inr (s2\<lparr>page_tables := T\<rparr>)"
      "\<forall>i<2 ^ k. \<forall>off<4096. ConvertVirtToPhys pmap (?v + 4096 * of_nat i + of_nat off) (s2\<lparr>page_tables := T\<rparr>) =
          ?ph + 4096 * of_nat i + of_nat off \<and>
        IsPagePresent pmap (?v + 4096 * of_nat i + of_nat off) (s2\<lparr>page_tables := T\<rparr>) = Inr True"
      "\<forall>a. kernel_addr a \<and> \<not> (vpn ?v \<le> vpn a \<and> vpn a < vpn ?v + 2 ^ k) \<longrightarrow> entry_of (s2\<lparr>page_tables := T\<rparr>) a = entry_of s2 a"
    using map_range [of s2 ?ph ?v "2 ^ k" "AllocatePages fuel" "m_Pagemap p" flags pmap] run_mappable [OF assms(1) pr(3,5)]
    unfolding ord(3) by blast
  define s4 where "s4 = store_proc ?k (p\<lparr>m_MemoryAllocated := m_MemoryAllocated p + 2 ^ k * ARCH_PAGE_SIZE,
      m_Pages := m_Pages p + ucast (2 ^ k :: u64)\<rparr>) (s2\<lparr>page_tables := T\<rparr>)"
  have l3: "load_proc ?k s2 = Inr p" "load_proc ?k (s2\<lparr>page_tables := T\<rparr>) = Inr p" "PR_GetKernelProcess s2 = ?k"
    using pr by (simp_all add: load_proc_def PR_GetKernelProcess_def)
  have run: "AllocatePages (Suc fuel) ?k amount s = Inr (?v, s4)"
    using s1(1,5,6) vm l3 T(1) s1(5)
    by (simp add: am ord(2) flags_def s4_def or.assoc Let_def load_frame_def split: if_splits option.splits)
  have flds: "frames s4 = frames s1" "freelist_count s4 = freelist_count s1" "pf_freelist_at s4 = pf_freelist_at s1"
      "mem s4 = (mem s1)(?c := ?w OR run_marks b (2 ^ k))"
    by (simp_all add: s4_def s2_def store_proc_def)
  have nd: "nodes s1 = nodes s" "nodes s4 = nodes s" using out(2) flds(3) by (simp_all add: nodes_def freelist_handle_def)
  moreover have cn: "?c \<noteq> q \<and> ?c \<noteq> q + 8" if "q \<in> nodes s" for q
    using off_nodesD [of s ?c, OF _ that] P by simp
  ultimately have R4: "represents s4 ys"
    by (intro represents_cong [OF s1(2) flds(1-3)]) (metis flds(4) fun_upd_other)
  have H4: "handed_out s4 k n" using s1(3) by (simp add: handed_out_def flds)
  have "buddy_alloc k xs = Some (n, ys)" "blocks_ok xs" using P by (auto simp: represents_def)
  then have "n < frame_limit" using buddy_alloc_frames(4) [of xs k n ys] by (auto intro: less_le_trans [rotated])
  then have "desc n \<in> nodes s" by simp
  then have L4: "loose s4 n" using s1(7) cn [of "desc n"] by (auto simp: loose_def nd flds(4) node_prev_def node_next_def)
  have core: "core_id s4 = core_id s \<and> links s4 = links s \<and> table_of s4 = table_of s \<and> vm_state.more s4 = vm_state.more s"
    using pr(3) F1(4) m1 by (simp add: s4_def s2_def store_proc_def table_of_def fun_eq_iff)
  have same: "ConvertVirtToPhys pmap a s4 = ConvertVirtToPhys pmap a (s2\<lparr>page_tables := T\<rparr>)"
      "IsPagePresent pmap a s4 = IsPagePresent pmap a (s2\<lparr>page_tables := T\<rparr>)"
      "entry_of s4 a = entry_of (s2\<lparr>page_tables := T\<rparr>) a" "entry_of s2 a = entry_of s a" for a
    using m1 by (simp_all add: s4_def s2_def store_proc_def ConvertVirtToPhys_def IsPagePresent_def VM_GetPage_def
        entry_of_def table_of_def Let_def)
  note T' = T(2,3) [folded same(1,2,3), unfolded same(4)]
  have "\<forall>a. off_nodes s a \<longrightarrow> a \<noteq> ?c \<longrightarrow> mem s4 a = mem s a" using out(3) by (simp add: flds(4))
  moreover have "procs s4 ?k = Some (p\<lparr>m_MemoryAllocated := m_MemoryAllocated p + 2 ^ k * ARCH_PAGE_SIZE,
      m_Pages := m_Pages p + ucast (2 ^ k :: u64)\<rparr>)" "mem s4 ?c = ?w OR run_marks b (2 ^ k)" "distinct_tables s4"
    using pr(5) by (simp_all add: s4_def s2_def store_proc_def distinct_tables_def)
  ultimately show ?thesis using run T' core R4 H4 L4 nd(2) by blast
qed

text \<open>One page, from the list of order 0.\<close>

lemma pages_ready_one:
  assumes "represents s xs" and "xs 0 = n # rest" and "n < 2 ^ 24" and "first_mark s p B sub (mem s (B + 8 * of_nat sub))"
    and "b < 31" and "\<not> bit (mem s (B + 8 * of_nat sub)) b" and "\<forall>j < b. bit (mem s (B + 8 * of_nat sub)) j"
    and "off_nodes s (m_VirtuaPagesBitmap p)" and "\<forall>j \<le> sub. off_nodes s (B + 8 * of_nat j)"
    and "distinct_tables s" and "table_of s (mark_address sub b) \<noteq> 0"
  shows "pages_ready s 0 xs n (xs(0 := rest)) p B sub b"
proof -
  have "buddy_alloc 0 xs = Some (n, xs(0 := rest))" using assms(2) by (simp add: buddy_alloc_def first_list.simps)
  then show ?thesis using assms by (simp add: pages_ready_def first_fit_def seen_marks_def)
qed

section \<open>Properties\<close>

text \<open>
  \<^verbatim>\<open>AllocatePages\<close> for pages of the kernel, through all three layers: the amount is rounded up to a power
  of two; with a block of frames, a run of clear marks and page tables for the pages of the run, the
  call returns the address of the first run that is long enough, every byte of the run is present
  and translates to the block of frames the buddy allocator chooses, and the block is marked
  as handed out and gone from the free lists.
\<close>

theorem allocate_kernel_pages:
  assumes "pages_ready s k xs n ys p B sub b" and "page_size_align amount = 2 ^ k"
  shows "\<exists>s'. AllocatePages (Suc fuel) (PR_GetKernelProcess s) amount s = Inr (mark_address sub b, s') \<and>
    (\<forall>i<2 ^ k. \<forall>off<4096.
       ConvertVirtToPhys pmap (mark_address sub b + 4096 * of_nat i + of_nat off) s' =
         of_nat (4096 * n) + 4096 * of_nat i + of_nat off \<and>
       IsPagePresent pmap (mark_address sub b + 4096 * of_nat i + of_nat off) s' = Inr True) \<and>
    represents s' ys \<and> handed_out s' k n"
  using AllocatePages_kernel_pages [OF assms] by blast

lemma represents_single:
  assumes L: "layout_ok s" and n: "n < frame_limit"
    and f: "frames s (desc n) = Some f" "pf_order f = 0" "pf_free f" "pf_lock f = 0" "pf_addr f = of_nat (4096 * n)"
    and c: "freelist_count s = (\<lambda>_. 0)(0 := 1)"
    and h: "\<And>i. i \<le> 10 \<Longrightarrow> node_next (mem s) (freelist_handle s i) = (if i = 0 then desc n else 0)"
    and d: "node_next (mem s) (desc n) = 0" "node_prev (mem s) (desc n) = freelist_handle s 0"
  shows "represents s ((\<lambda>_. [])(0 := [n]))"
proof -
  have "blocks_ok ((\<lambda>_. [])(0 := [n]))" using n by (simp add: blocks_ok_def block_def)
  moreover have "block_ok s 0 n" using f by (auto simp: block_ok_def head_ok_def block_def)
  ultimately show ?thesis using L c h d by (simp add: represents_def)
qed

text \<open>
  A kernel with one free frame, number 256, and no used virtual page: a cache of objects of 96
  bytes is prepared at \<^verbatim>\<open>0xFFFFFFFF80500000\<close>, the descriptors of the first frames are mapped.
\<close>

definition demo_mem :: wmem where
  "demo_mem = (\<lambda>_. 0)(0xFFFFFFFF80202000 := 0xFFFFFFFF80300000, 0xFFFFFFFF80220008 := 0xFFFFFF8000004000,
     0xFFFFFF8000004000 := 0xFFFFFFFF80220000, 0xFFFFFFFF80502020 := 96, 0xFFFFFFFF80502030 := 0xFFFFFFFF80500000)"

definition demo_page :: vm_state where
  "demo_page = demo_vm\<lparr>mem := demo_mem, frames := (\<lambda>_. Some (demo_frame\<lparr>pf_order := 0\<rparr>)),
     freelist_count := (\<lambda>_. 0)(0 := 1),
     kernelPageTablePointers := (\<lambda>p d. if p = 510 \<and> d = 0 then 0xFFFFFFFF80600000
       else if p = 0 \<and> d = 0 then 0xFFFFFFFF80601000 else 0),
     page_tables := (\<lambda>t i. if t = 0xFFFFFFFF80601000 then (word_page 0)\<lparr>pg_present := True\<rparr> else word_page 0)\<rparr>"

lemma desc_256: "desc 256 = 0xFFFFFF8000004000"
  by (simp add: desc_def layout_simps)

lemma pages_ready_demo:
  fixes s :: "'a vm_state_scheme"
  assumes m: "mem s = demo_mem" and f: "frames s = frames demo_page" "freelist_count s = freelist_count demo_page"
      "pf_freelist_at s = pf_freelist_at demo_page" "kernelPageTablePointers s = kernelPageTablePointers demo_page"
      "procs s = procs demo_page" "links s = links demo_page"
  shows "pages_ready s 0 ((\<lambda>_. [])(0 := [256])) 256 (\<lambda>_. [])
    (zero_process\<lparr>m_VirtuaPagesBitmap := 0xFFFFFFFF80202000\<rparr>) 0xFFFFFFFF80300000 0 0"
proof -
  have p: "pf_freelist_at s = 0xFFFFFFFF80220000" using f by (simp add: demo_page_def demo_vm_def)
  have L: "layout_ok s" by (simp add: layout_ok_def p)
  have hd0: "freelist_handle s 0 = 0xFFFFFFFF80220000" by (simp add: freelist_handle_def p)
  have un: "unat (freelist_handle s i) = 0xFFFFFFFF80220000 + 24 * i" if "i \<le> 10" for i
    using unat_handle [OF L that] p by simp
  have h: "node_next (mem s) (freelist_handle s i) = (if i = 0 then desc 256 else 0)" if i: "i \<le> 10" for i
  proof (cases "i = 0")
    case True
    then show ?thesis by (simp add: node_next_def m demo_mem_def hd0 desc_256)
  next
    case False
    have "unat (freelist_handle s i + 8) = 0xFFFFFFFF80220008 + 24 * i"
      using un [OF i] i by (subst unat_add_lem [THEN iffD1]) simp_all
    then have "freelist_handle s i + 8 \<noteq> a" if "a \<in> {0xFFFFFFFF80202000, 0xFFFFFFFF80220008, 0xFFFFFF8000004000,
        0xFFFFFFFF80502020, 0xFFFFFFFF80502030}" for a
      using that False i by auto
    then show ?thesis using False by (simp add: node_next_def m demo_mem_def)
  qed
  have R: "represents s ((\<lambda>_. [])(0 := [256]))"
    by (rule represents_single [OF L, where f = "demo_frame\<lparr>pf_order := 0\<rparr>", OF _ _ _ _ _ _ _ h])
      (simp_all add: frame_limit_def f demo_page_def demo_frame_def node_next_def node_prev_def m demo_mem_def hd0 desc_256)
  have off: "off_nodes s a" if a: "unat a \<in> {0xFFFFFFFF80202000, 0xFFFFFFFF80300000}" for a
  proof -
    have a8: "unat (a - 8) = unat a - 8" using a by (subst unat_sub) (auto simp: word_le_nat_alt)
    have "a \<noteq> desc j \<and> a - 8 \<noteq> desc j" if "j < frame_limit" for j
      using unat_desc [OF that] that a a8 by (auto simp: frame_limit_def)
    moreover have "a \<noteq> freelist_handle s i \<and> a - 8 \<noteq> freelist_handle s i" if "i \<le> 10" for i
      using un [OF that] that a a8 by auto
    ultimately show ?thesis by (auto simp: off_nodes_def nodes_def)
  qed
  have k: "PR_GetKernelProcess s = 0xFFFFFFFF80212000"
    by (simp add: PR_GetKernelProcess_def f demo_page_def demo_vm_def demo_links_def)
  have "first_mark s (zero_process\<lparr>m_VirtuaPagesBitmap := 0xFFFFFFFF80202000\<rparr>) 0xFFFFFFFF80300000 0 0"
    unfolding first_mark_def k by (simp add: f m demo_page_def demo_vm_def demo_mem_def)
  moreover have "table_of s 0xFFFFFFFF80000000 \<noteq> 0" "distinct_tables s"
    by (auto simp: table_of_def distinct_tables_def f demo_page_def index_unat split: if_splits)
  ultimately show ?thesis
    using R off [of "0xFFFFFFFF80202000"] off [of "0xFFFFFFFF80300000"]
      pages_ready_one [OF R, where n = 256 and rest = "[]" and p = "zero_process\<lparr>m_VirtuaPagesBitmap := 0xFFFFFFFF80202000\<rparr>" and B = "0xFFFFFFFF80300000" and sub = 0 and b = 0]
    by (simp add: m demo_mem_def mark_address_def KERNEL_VIRTUAL_BASE_def fun_upd_idem)
qed

theorem allocate_kernel_pages_witness:
  "\<exists>s'. AllocatePages 1 0xFFFFFFFF80212000 1 demo_page = Inr (0xFFFFFFFF80000000, s') \<and>
     ConvertVirtToPhys 0 0xFFFFFFFF80000123 s' = 0x100123"
proof -
  have k: "PR_GetKernelProcess demo_page = 0xFFFFFFFF80212000"
    by (simp add: PR_GetKernelProcess_def demo_page_def demo_vm_def demo_links_def)
  have a: "mark_address 0 0 = 0xFFFFFFFF80000000" by (simp add: mark_address_def KERNEL_VIRTUAL_BASE_def)
  have "pages_ready demo_page 0 ((\<lambda>_. [])(0 := [256])) 256 (\<lambda>_. [])
      (zero_process\<lparr>m_VirtuaPagesBitmap := 0xFFFFFFFF80202000\<rparr>) 0xFFFFFFFF80300000 0 0"
    by (rule pages_ready_demo) (simp_all add: demo_page_def)
  moreover have "page_size_align 1 = 2 ^ 0" by (simp add: page_size_align_1)
  ultimately obtain s' where s': "AllocatePages (Suc 0) 0xFFFFFFFF80212000 1 demo_page = Inr (0xFFFFFFFF80000000, s')"
      "\<forall>i<2 ^ 0. \<forall>off<4096. ConvertVirtToPhys 0 (0xFFFFFFFF80000000 + 4096 * of_nat i + of_nat off) s' =
         of_nat (4096 * 256) + 4096 * of_nat i + of_nat off"
    using allocate_kernel_pages [of demo_page 0 _ 256 _ _ _ 0 0 1 0 0] unfolding k a by blast
  then show ?thesis using s'(2) [rule_format, of 0 "0x123"] by auto
qed

end
