(* ===== verification/Slub_Laws.thy ===== *)
theory Slub_Laws
  imports Slub Kernel_Pages
begin

text \<open>
  Results on the object allocator: which size class serves a request, the chain of free objects
  in a page, the object that is handed out twice, and the lock that lies on top of a list node.
\<close>

section \<open>Size classes\<close>

lemma find_order_Some:
  assumes "find_order n k sz = Some j" and "k + n \<le> length blockSize"
  shows "k \<le> j \<and> j < k + n \<and> sz < of_nat (blockSize ! j) \<and> (\<forall>i. k \<le> i \<and> i < j \<longrightarrow> of_nat (blockSize ! i) \<le> sz)"
  using assms
proof (induction n arbitrary: k)
  case (Suc n)
  show ?case
  proof (cases "sz < of_nat (blockSize ! k)")
    case True
    then show ?thesis using Suc.prems by auto
  next
    case False
    then have "Suc k \<le> j \<and> j < Suc k + n \<and> sz < of_nat (blockSize ! j) \<and> (\<forall>i. Suc k \<le> i \<and> i < j \<longrightarrow> of_nat (blockSize ! i) \<le> sz)"
      using Suc.IH [of "Suc k"] Suc.prems by simp
    moreover have "of_nat (blockSize ! i) \<le> sz" if "k \<le> i" "i < j" for i
      using calculation False that by (cases "i = k") auto
    ultimately show ?thesis by auto
  qed
qed simp

lemma find_order_None: "find_order n k sz = None \<Longrightarrow> k \<le> i \<Longrightarrow> i < k + n \<Longrightarrow> of_nat (blockSize ! i) \<le> sz"
proof (induction n arbitrary: k)
  case (Suc n)
  then show ?case
    by (cases "i = k") (auto simp: not_less split: if_splits)
qed simp

section \<open>The chain of objects\<close>

lemma link_objects_other:
  "(\<And>i. idx \<le> i \<Longrightarrow> i < idx + n \<Longrightarrow> a \<noteq> virt + of_nat i * sz) \<Longrightarrow>
   mem (link_objects n idx virt sz s) a = mem s a"
proof (induction n arbitrary: idx s)
  case (Suc n)
  have "a \<noteq> virt + of_nat idx * sz" using Suc.prems [of idx] by simp
  then show ?case using Suc.IH [of "Suc idx"] Suc.prems by (simp add: write_mem_def del: of_nat_Suc)
qed simp

lemma link_objects_at:
  assumes "idx \<le> i" and "i < idx + n" and "0 < k" and "(idx + n) * k < 2 ^ 64"
  shows "mem (link_objects n idx virt (of_nat k) s) (virt + of_nat i * of_nat k) = virt + of_nat (Suc i) * of_nat k"
  using assms(1,2,4)
proof (induction n arbitrary: idx s)
  case (Suc n)
  show ?case
  proof (cases "i = idx")
    case True
    have "(of_nat idx * of_nat k :: u64) \<noteq> of_nat j * of_nat k" if "idx < j" "j < Suc idx + n" for j
    proof -
      have "j * k \<le> (idx + Suc n) * k" "idx * k \<le> (idx + Suc n) * k" using that by (intro mult_le_mono1, simp)+
      then have "j * k < 2 ^ 64" "idx * k < 2 ^ 64" using Suc.prems(3) by linarith+
      then have "unat (of_nat (j * k) :: u64) = j * k" "unat (of_nat (idx * k) :: u64) = idx * k"
        by (simp_all only: unat_of_nat) simp_all
      then show ?thesis using that assms(3) by (metis mult_less_mono1 nat_less_le of_nat_mult)
    qed
    then have "virt + of_nat idx * of_nat k \<noteq> virt + of_nat j * (of_nat k :: u64)" if "Suc idx \<le> j" "j < Suc idx + n" for j
      using that by (simp add: Suc_le_eq)
    then show ?thesis by (simp add: True link_objects_other write_mem_def del: of_nat_Suc)
  next
    case False
    then show ?thesis using Suc.IH [of "Suc idx"] Suc.prems by simp
  qed
qed simp

lemma link_objects_fields [simp]:
  "frames (link_objects n idx virt sz s) = frames s"
  by (induction n arbitrary: idx s) (simp_all add: write_mem_def)

lemma scast_of_nat: "k < 2 ^ 31 \<Longrightarrow> (scast (of_nat k :: u32) :: u64) = of_nat k \<and> sint (of_nat k :: u32) = int k"
proof -
  assume k: "k < 2 ^ 31"
  have s: "sint (of_nat k :: u32) = int k"
    using k by (simp add: signed_of_nat signed_take_bit_int_eq_self)
  have "(scast (of_nat k :: u32) :: u64) = word_of_int (sint (of_nat k :: u32))" by simp
  then show ?thesis by (simp only: s of_int_of_nat_eq simp_thms)
qed

lemma objects_per_page:
  assumes "0 < k" and "k \<le> 4096" and "r \<le> 4096"
  shows "sint (4096 - of_nat r :: u32) sdiv sint (of_nat k :: u32) = int ((4096 - r) div k)"
proof -
  have "(4096 - of_nat r :: u32) = of_nat (4096 - r)" using assms(3) by (simp add: of_nat_diff)
  then show ?thesis
    using assms scast_of_nat [of "4096 - r"] scast_of_nat [of k]
    by (simp add: signed_divide_int_def zdiv_int sgn_if)
qed

lemma slab_SetPage_eq:
  assumes f: "load_frame page s = Inr f" and k: "8 \<le> k" "r + k \<le> 4096"
    and c: "load32 (cache_size_of cache) (mem s) = of_nat k" "load32 (cache_reserved_of cache) (mem s) = of_nat r"
  defines "n \<equiv> (4096 - r) div k"
  shows "slab_SetPage cache page virt s = Inr (link_objects (n - 1) 0 virt (of_nat k)
      (store_frame page (f\<lparr>pf_kmem := True, slabCache := cache, pf_objects := virt,
         slab_objects := of_nat n, slab_inuse := 0\<rparr>) s))"
    and "0 < n" and "n \<le> 512" and "n * k \<le> 4096 - r"
proof -
  have "n * k \<le> 4096 - r" by (simp add: n_def)
  moreover have "n * 8 \<le> n * k" using k(1) by simp
  ultimately show n: "n \<le> 512" "n * k \<le> 4096 - r" by linarith+
  show pos: "0 < n" using k by (simp add: n_def div_greater_zero_iff)
  have nz: "(of_nat k :: u32) \<noteq> 0"
  proof
    assume "(of_nat k :: u32) = 0"
    then have "unat (of_nat k :: u32) = 0" by simp
    then show False using k by (simp add: unat_of_nat)
  qed
  have q: "sint (4096 - of_nat r :: u32) sdiv sint (of_nat k :: u32) = int n"
    using objects_per_page [of k r] k by (simp add: n_def)
  have "uint (of_nat n :: 15 word) = int n" using n by (simp add: uint_nat unat_of_nat)
  then have "word_of_int (uint (of_nat n :: 15 word) - 1) = (of_nat (n - 1) :: u64)"
    using pos by (simp add: of_nat_diff)
  moreover have "unat (of_nat (n - 1) :: u64) = n - 1" using n(1) by (simp only: unat_of_nat) simp
  ultimately have "unat (word_of_int (uint (of_nat n :: 15 word) - 1) :: u64) = n - 1" by metis
  then show "slab_SetPage cache page virt s = Inr (link_objects (n - 1) 0 virt (of_nat k)
      (store_frame page (f\<lparr>pf_kmem := True, slabCache := cache, pf_objects := virt,
         slab_objects := of_nat n, slab_inuse := 0\<rparr>) s))"
    using f c nz q scast_of_nat [of k] k by (simp add: slab_SetPage_def Let_def)
qed

section \<open>Registering a cache\<close>

text \<open>An address outside of the four pages of a cache.\<close>

definition off_cache :: "u64 \<Rightarrow> u64 \<Rightarrow> bool" where
  "off_cache cache a \<longleftrightarrow> 16384 \<le> a - cache"

lemma outsideD: "off_cache cache a \<Longrightarrow> k < 16384 \<Longrightarrow> a \<noteq> cache + k"
  by (auto simp: off_cache_def)

lemma fold_write_other:
  "(\<And>i. i \<in> set xs \<Longrightarrow> g i \<noteq> a) \<Longrightarrow> mem (fold (\<lambda>i. write_mem (g i) (h i)) xs s) a = mem s a"
  by (induction xs arbitrary: s) (auto simp: write_mem_def)

lemma fold_write_fields [simp]:
  "g_cacheList_at (fold (\<lambda>i. write_mem (g i) (h i)) xs s) = g_cacheList_at s"
  by (induction xs arbitrary: s) (auto simp: write_mem_def)

lemma store32_other: "b \<noteq> a \<Longrightarrow> b \<noteq> a - 4 \<Longrightarrow> store32 a v m b = m b"
  by (simp add: store32_def)

lemma cpu_slab_small: "i < 256 \<Longrightarrow> (24 + 32 * of_nat i :: u64) < 16384"
proof -
  assume i: "i < 256"
  have "unat (of_nat (24 + 32 * i) :: u64) = 24 + 32 * i" using i by (simp only: unat_of_nat) simp
  then show ?thesis using i by (simp add: word_less_nat_alt)
qed

text \<open>
  After a cache has been registered its first node descriptor is the cache itself, so the lock of
  the node is the lower half of the cache's \<^verbatim>\<open>prev\<close> pointer.
\<close>

lemma slab_SetCache_node:
  assumes r: "slab_SetCache junk cache order flags s = Inr s1"
    and g: "g_cacheList_at s \<noteq> 0"
    and o: "off_cache cache (g_cacheList_at s + 8)" "off_cache cache (node_next (mem s) (g_cacheList_at s))"
  shows "mem s1 (cache_node_of cache 0) = cache" and "mem s1 cache = g_cacheList_at s"
proof -
  let ?g = "g_cacheList_at s"
  define sz where "sz = blockSize ! nat junk"
  define s2 where "s2 = (let s1 = write_mem (cache_flags_of cache) flags (write_mem32 (cache_size_of cache) (of_nat sz) s)
    in if 4096 mod sz \<noteq> 0 then write_mem32 (cache_reserved_of cache) (of_nat (4096 - 4096 div sz * sz)) s1 else s1)"
  define s4 where "s4 = fold (\<lambda>idx. write_mem (cache_node_of cache idx) (cache + of_nat idx * sizeof_KMemoryNode)) [0..<4]
    (fold (\<lambda>idx. write_mem (cpu_freelist_of (cache_cpu_slab cache idx)) 0) [0..<256] s2)"
  have nz: "cache \<noteq> 0" using r by (auto simp: slab_SetCache_def split: if_splits)
  have s1: "mem s1 = LinkedListAppend (g_cacheList_at s4) cache (mem s4)"
    using r by (auto simp: slab_SetCache_def s4_def s2_def sz_def Let_def list_append_def slab_layout bind_res_eq_Inr
        split: if_splits)
  have g4: "g_cacheList_at s4 = ?g"
    by (simp add: s4_def s2_def Let_def write_mem_def write_mem32_def)
  have node0: "mem s4 (cache + 8240) = cache"
    by (simp add: s4_def upt_rec write_mem_def cache_node_of_def)
  have keep: "mem s4 a = mem s a" if a: "off_cache cache a" for a
  proof -
    have f: "a \<noteq> cache + 24 + 32 * of_nat i" if "i < 256" for i
      using outsideD [OF a cpu_slab_small [OF that]] by (simp add: add.assoc)
    have c: "a \<noteq> cache + k" if "k < 16384" for k using outsideD [OF a that] .
    have e: "cache + 8224 - 4 = cache + 8220" "cache + 8280 - 4 = cache + 8276"
      by (simp_all only: add_diff_eq [symmetric]) simp_all
    have "mem s2 a = mem s a"
      using c [of 8216] c [of 8224] c [of 8220] c [of 8280] c [of 8276]
      by (simp add: s2_def Let_def write_mem_def write_mem32_def store32_other e slab_layout)
    moreover have "mem (fold (\<lambda>idx. write_mem (cpu_freelist_of (cache_cpu_slab cache idx)) 0) [0..<256] s2) a = mem s2 a"
      using f by (intro fold_write_other) (auto simp: slab_layout)
    moreover have "cache_node_of cache i \<noteq> a" if "i < 4" for i
    proof -
      have "i = 0 \<or> i = 1 \<or> i = 2 \<or> i = 3" using that by auto
      then show ?thesis using c [of 8240] c [of 8248] c [of 8256] c [of 8264] by (auto simp: cache_node_of_def)
    qed
    ultimately show ?thesis unfolding s4_def by (subst fold_write_other) auto
  qed
  let ?n = "mem s (?g + 8)"
  have n: "mem s4 (?g + 8) = ?n" using keep o(1) by simp
  have d: "?g + 8 \<noteq> cache" "?g + 8 \<noteq> cache + 8240" "?g + 8 \<noteq> cache + 8" "?n \<noteq> cache" "?n \<noteq> cache + 8240"
    using outsideD [OF o(1), of 0] outsideD [OF o(1), of 8240] outsideD [OF o(1), of 8]
      outsideD [OF o(2), of 0] outsideD [OF o(2), of 8240] by (simp_all add: node_next_def)
  show "mem s1 (cache_node_of cache 0) = cache" "mem s1 cache = ?g"
    unfolding s1 g4 using nz g d n node0
    by (simp_all add: LinkedListAppend_def Let_def node_next_def set_prev_def set_next_def cache_node_of_def)
qed

section \<open>Properties\<close>

text \<open>
  A request of less than 8192 bytes is served by the smallest of the sixteen size classes that
  is larger than the request: an object of a class always has room for the request, and a request
  of exactly a class size goes to the next class.
\<close>

theorem find_cache_class:
  assumes "sz < 8192"
  shows "\<exists>order<16. KM_FindCache junk sz s = g_cachePointers s order \<and> sz < of_nat (blockSize ! order) \<and>
    (\<forall>i<order. of_nat (blockSize ! i) \<le> sz)"
proof (cases "find_order 16 0 sz")
  case None
  then have "of_nat (blockSize ! 15) \<le> sz" by (rule find_order_None) simp_all
  then show ?thesis using assms by (simp add: blockSize_def)
next
  case (Some j)
  have "16 \<le> length blockSize" by (simp add: blockSize_def)
  with find_order_Some [OF Some] Some assms show ?thesis
    by (auto simp: KM_FindCache_def SLAB_MAX_SIZE_def)
qed

text \<open>
  \<^verbatim>\<open>__slab_SetPage\<close> cuts the page into as many objects as fit and links each to the next: the
  objects lie in the page without overlapping, the list starts with the first one, and no other
  cell changes.  The last object is not among the cells written, so its link is what the page
  held before.
\<close>

theorem slab_page_chain:
  assumes "load_frame page s = Inr f" and "8 \<le> k" and "r + k \<le> 4096"
    and "load32 (cache_size_of cache) (mem s) = of_nat k" and "load32 (cache_reserved_of cache) (mem s) = of_nat r"
  defines "n \<equiv> (4096 - r) div k"
  shows "\<exists>s' g. slab_SetPage cache page virt s = Inr s' \<and> frames s' page = Some g \<and>
    pf_objects g = virt \<and> unat (slab_objects g) = n \<and> slab_inuse g = 0 \<and> 0 < n \<and> n * k \<le> 4096 - r \<and>
    (\<forall>i. i + 1 < n \<longrightarrow> mem s' (virt + of_nat i * of_nat k) = virt + of_nat (i + 1) * of_nat k) \<and>
    (\<forall>a. (\<forall>i. i + 1 < n \<longrightarrow> a \<noteq> virt + of_nat i * of_nat k) \<longrightarrow> mem s' a = mem s a)"
proof -
  note eq = slab_SetPage_eq [OF assms(1-5), folded n_def]
  let ?g = "f\<lparr>pf_kmem := True, slabCache := cache, pf_objects := virt, slab_objects := of_nat n, slab_inuse := 0\<rparr>"
  let ?s = "link_objects (n - 1) 0 virt (of_nat k) (store_frame page ?g s)"
  have "mem ?s (virt + of_nat i * of_nat k) = virt + of_nat (Suc i) * of_nat k" if "i + 1 < n" for i
    by (rule link_objects_at) (use that assms(2) eq(3,4) in \<open>auto simp: diff_mult_distrib\<close>)
  moreover have "mem ?s a = mem s a" if "\<forall>i. i + 1 < n \<longrightarrow> a \<noteq> virt + of_nat i * of_nat k" for a
    using link_objects_other [of 0 "n - 1" a virt "of_nat k" "store_frame page ?g s"] that by (simp add: store_frame_def)
  moreover have "unat (of_nat n :: 15 word) = n" using eq(3) by (simp add: unat_of_nat)
  ultimately show ?thesis using eq by (auto simp: store_frame_def)
qed

text \<open>
  C40. After a cache has been registered, asking it for a partial page never returns: the node
  descriptor has been put on top of the cache, and its lock is the lower half of the pointer to
  the list of caches, which is not zero.
\<close>

theorem slab_partial_deadlock:
  assumes "slab_SetCache junk cache order flags s = Inr s1"
    and "ucast (g_cacheList_at s) \<noteq> (0 :: u32)" and "cache AND 4 = 0"
    and "off_cache cache (g_cacheList_at s + 8)" and "off_cache cache (node_next (mem s) (g_cacheList_at s))"
  shows "slab_GetPartialPage fuel junk' cache s1 = Inl Deadlock"
proof -
  have "g_cacheList_at s \<noteq> 0" using assms(2) by auto
  note n = slab_SetCache_node [OF assms(1) this assms(4,5)]
  have "cache \<noteq> 0" using assms(1) by (auto simp: slab_SetCache_def split: if_splits)
  then show ?thesis
    using n assms(2,3) by (simp add: slab_GetPartialPage_def Let_def node_lock_of_def load32_def)
qed

text \<open>
  A state with one prepared cache: objects of 64 bytes, frame 256 free, and a list of caches that
  is still empty.
\<close>

definition demo_slab :: slab_state where
  "demo_slab = vm_state.extend demo_page (slab_state.fields (\<lambda>_. 0) 0xFFFFFFFF80700000)"

lemma demo_slab_fields:
  "mem demo_slab = demo_mem" "frames demo_slab = frames demo_page" "g_cacheList_at demo_slab = 0xFFFFFFFF80700000"
  "freelist_count demo_slab = freelist_count demo_page" "pf_freelist_at demo_slab = pf_freelist_at demo_page"
  "kernelPageTablePointers demo_slab = kernelPageTablePointers demo_page" "procs demo_slab = procs demo_page"
  "links demo_slab = links demo_page" "core_id demo_slab = 0" "page_tables demo_slab = page_tables demo_page"
  by (simp_all add: demo_slab_def slab_state.defs vm_state.defs demo_page_def demo_vm_def)

theorem find_cache_class_witness:
  "\<exists>order<16. KM_FindCache 0 64 demo_slab = g_cachePointers demo_slab order \<and> (64 :: u64) < of_nat (blockSize ! order)"
  using find_cache_class [of 64 0 demo_slab] by auto

theorem slab_page_chain_witness:
  "\<exists>s'. slab_SetPage 0xFFFFFFFF80500000 (desc 256) 0xFFFFFFFF80000000 demo_slab = Inr s' \<and>
     mem s' 0xFFFFFFFF80000000 = 0xFFFFFFFF80000060"
proof -
  have c: "load32 (cache_size_of 0xFFFFFFFF80500000) (mem demo_slab) = of_nat 96"
    "load32 (cache_reserved_of 0xFFFFFFFF80500000) (mem demo_slab) = of_nat 0"
    by (simp_all add: load32_def slab_layout demo_slab_fields demo_mem_def)
  have f: "load_frame (desc 256) demo_slab = Inr (demo_frame\<lparr>pf_order := 0\<rparr>)"
    by (simp add: load_frame_def desc_256 demo_slab_fields demo_page_def)
  obtain s' where "slab_SetPage 0xFFFFFFFF80500000 (desc 256) 0xFFFFFFFF80000000 demo_slab = Inr s'"
      "\<forall>i. i + 1 < (4096 - 0) div (96 :: nat) \<longrightarrow>
         mem s' (0xFFFFFFFF80000000 + of_nat i * of_nat 96) = 0xFFFFFFFF80000000 + of_nat (i + 1) * of_nat 96"
    using slab_page_chain [OF f _ _ c, of "0xFFFFFFFF80000000"] by auto
  then show ?thesis by (auto dest: spec [of _ 0])
qed

theorem slab_partial_deadlock_witness:
  "\<exists>s1. slab_SetCache 4 0xFFFFFFFF80500000 4 0 demo_slab = Inr s1 \<and>
     slab_GetPartialPage 1 0 0xFFFFFFFF80500000 s1 = Inl Deadlock"
proof -
  obtain s1 where s1: "slab_SetCache 4 0xFFFFFFFF80500000 4 0 demo_slab = Inr s1"
    by (auto simp: slab_SetCache_def blockSize_def Let_def SLAB_MAX_BLOCK_ORDER_def res_simps)
  moreover have "slab_GetPartialPage 1 0 0xFFFFFFFF80500000 s1 = Inl Deadlock"
    by (rule slab_partial_deadlock [OF s1])
      (simp_all add: demo_slab_fields off_cache_def node_next_def demo_mem_def)
  ultimately show ?thesis by blast
qed

text \<open>After the slow path the object it returned still heads the list of the processor.\<close>

lemma slow_path_leaves_object:
  assumes c: "KM_GetSlabCpu cache s = Inr slabCpu"
    and e: "mem s (cpu_freelist_of slabCpu) = 0" "node_next (mem s) (cpu_partial_of slabCpu) = 0"
    and a: "slab_AllocateObject (Suc jumps) fuel junk cache s = Inr (p, s1)"
  shows "cache \<noteq> 0 \<and> p \<noteq> 0 \<and> mem s1 (cpu_freelist_of slabCpu) = p \<and> mem s1 (cpu_page_of slabCpu) \<noteq> 0 \<and>
    (\<exists>g. frames s1 (mem s1 (cpu_page_of slabCpu)) = Some g)"
proof -
  have nz: "cache \<noteq> 0" using a by (auto simp: slab_AllocateObject_def)
  have "slow_path fuel cache slabCpu s = Inr (p, s1)"
    using a c(1) e nz by (simp add: slab_AllocateObject_def Let_def)
  then obtain page t t2 g where t: "slab_AssignCpuSlab slabCpu page t = Inr t2" "pop_object page t2 = Inr (p, g, s1)"
    by (auto simp: slow_path_def bind_res_eq_Inr)
  from t(1) obtain f t1 where f: "load_frame page t1 = Inr f"
      "t2 = store_frame page (f\<lparr>slab_frozen := True\<rparr>)
        (write_mem (cpu_page_of slabCpu) page (write_mem (cpu_freelist_of slabCpu) (pf_objects f) t1))"
    by (auto simp: slab_AssignCpuSlab_def bind_res_eq_Inr)
  have "page \<noteq> 0" using f(1) by (auto simp: load_frame_def)
  moreover have "mem t2 (cpu_freelist_of slabCpu) = pf_objects f" "mem t2 (cpu_page_of slabCpu) = page"
      "frames t2 page = Some (f\<lparr>slab_frozen := True\<rparr>)"
    by (simp_all add: f(2) store_frame_def write_mem_def slab_layout)
  ultimately show ?thesis
    using t(2) nz by (auto simp: pop_object_def bind_res_eq_Inr load_frame_def deref_def store_frame_def Let_def
        split: if_splits)
qed

text \<open>An object at the head of the list of the processor is what the next call returns.\<close>

lemma fast_path_takes_head:
  assumes "KM_GetSlabCpu cache s = Inr slabCpu" and "cache \<noteq> 0"
    and "mem s (cpu_freelist_of slabCpu) = p" and "p \<noteq> 0" and "mem s (cpu_page_of slabCpu) \<noteq> 0"
    and "frames s (mem s (cpu_page_of slabCpu)) = Some g" and "unat (slab_inuse g + 1) \<noteq> unat (slab_objects g)"
  shows "\<exists>g'. slab_AllocateObject (Suc jumps) fuel junk cache s =
    Inr (p, store_frame (mem s (cpu_page_of slabCpu)) g' (write_mem (cpu_freelist_of slabCpu) (mem s p) s))"
  using assms
  by (auto simp: slab_AllocateObject_def fastest_path_def deref_def Let_def load_frame_def store_frame_def write_mem_def)

text \<open>
  The first object of a new page is handed out twice: the slow path takes it from the list of
  the page but leaves it in the list of the processor, and the next call on that processor finds
  it there.
\<close>

theorem slab_first_object_twice:
  assumes c: "KM_GetSlabCpu cache s = Inr slabCpu" "KM_GetSlabCpu cache s1 = Inr slabCpu"
    and e: "mem s (cpu_freelist_of slabCpu) = 0" "node_next (mem s) (cpu_partial_of slabCpu) = 0"
    and a: "slab_AllocateObject (Suc jumps) fuel junk cache s = Inr (p, s1)"
    and more: "\<And>f. frames s1 (mem s1 (cpu_page_of slabCpu)) = Some f \<Longrightarrow> unat (slab_inuse f + 1) \<noteq> unat (slab_objects f)"
  shows "\<exists>s2. slab_AllocateObject (Suc jumps') fuel' junk' cache s1 = Inr (p, s2)"
  using slow_path_leaves_object [OF c(1) e a] fast_path_takes_head [OF c(2)] more by meson

lemma slow_path_run:
  assumes "mem s (cache_node_of cache 0) \<noteq> 0" and "slab_RequestPage fuel cache s = Inr (page, t)"
    and "page \<noteq> 0" and "frames t page = Some f" and "pf_objects f \<noteq> 0"
  shows "\<exists>s1 g. slow_path fuel cache slabCpu s = Inr (pf_objects f, s1) \<and> frames s1 page = Some g \<and>
    slab_inuse g = slab_inuse f + 1 \<and> slab_objects g = slab_objects f \<and> mem s1 (cpu_page_of slabCpu) = page \<and>
    core_id s1 = core_id t \<and> vm_state.more s1 = vm_state.more t"
proof -
  obtain m where "LinkedListRemove page (mem t) = Inr m" using assms(3) by (simp add: LinkedListRemove_def Let_def)
  then show ?thesis
    using assms by (simp add: slow_path_def deref_def slab_AssignCpuSlab_def list_remove_def pop_object_def load_frame_def
        store_frame_def write_mem_def slab_layout Let_def)
qed

lemma off_nodes_above:
  assumes "layout_ok s" and "unat (pf_freelist_at s) + 272 \<le> unat a"
  shows "off_nodes s a"
proof -
  have a8: "unat (a - 8) = unat a - 8" using assms(2) by (subst unat_sub) (auto simp: word_le_nat_alt)
  have L: "0xFFFFFF9000000000 \<le> unat (pf_freelist_at s)" using assms(1) by (simp add: layout_ok_def)
  have "a \<noteq> desc j \<and> a - 8 \<noteq> desc j" if "j < frame_limit" for j
    using unat_desc [OF that] that assms(2) L a8 by (auto simp: frame_limit_def)
  moreover have "a \<noteq> freelist_handle s i \<and> a - 8 \<noteq> freelist_handle s i" if "i \<le> 10" for i
    using unat_handle [OF assms(1) that] that assms(2) a8 by auto
  ultimately show ?thesis by (auto simp: off_nodes_def nodes_def)
qed

text \<open>The states that look like this kernel, whatever they are extended by.\<close>

definition like_demo :: "'a slab_state_scheme \<Rightarrow> bool" where
  "like_demo s \<longleftrightarrow> mem s = demo_mem \<and> frames s = frames demo_page \<and> freelist_count s = freelist_count demo_page \<and>
     pf_freelist_at s = pf_freelist_at demo_page \<and> kernelPageTablePointers s = kernelPageTablePointers demo_page \<and>
     procs s = procs demo_page \<and> links s = links demo_page \<and> core_id s = 0 \<and> page_tables s = page_tables demo_page"

lemma demo_alloc:
  fixes s :: "'a slab_state_scheme"
  assumes "like_demo s"
  shows "\<exists>t. AllocatePages 1 (PR_GetKernelProcess s) 1 s = Inr (0xFFFFFFFF80000000, t) \<and>
     PM_GetPage (ConvertVirtToPhys (VM_GetKernelPages t) 0xFFFFFFFF80000000 t) t = Inr (desc 256) \<and>
     handed_out t 0 256 \<and> loose t 256 \<and> nodes t = nodes s \<and> core_id t = 0 \<and> vm_state.more t = vm_state.more s \<and>
     load32 (cache_size_of 0xFFFFFFFF80500000) (mem t) = of_nat 96 \<and>
     load32 (cache_reserved_of 0xFFFFFFFF80500000) (mem t) = of_nat 0"
proof -
  let ?C = "0xFFFFFFFF80500000 :: u64" and ?V = "0xFFFFFFFF80000000 :: u64"
  note d = assms [unfolded like_demo_def]
  have L: "layout_ok s" "unat (pf_freelist_at s) = 0xFFFFFFFF80220000"
    using d by (simp_all add: layout_ok_def demo_page_def demo_vm_def)
  have V: "mark_address 0 0 = ?V" by (simp add: mark_address_def KERNEL_VIRTUAL_BASE_def)
  have R: "pages_ready s 0 ((\<lambda>_. [])(0 := [256])) 256 (\<lambda>_. [])
      (zero_process\<lparr>m_VirtuaPagesBitmap := 0xFFFFFFFF80202000\<rparr>) 0xFFFFFFFF80300000 0 0"
    by (rule pages_ready_demo) (use d in simp_all)
  have "page_size_align 1 = 2 ^ 0" by (simp add: page_size_align_1)
  from AllocatePages_kernel_pages [OF R this, of 0 0, unfolded V] obtain t where
    t: "AllocatePages (Suc 0) (PR_GetKernelProcess s) 1 s = Inr (?V, t)" "table_of t = table_of s"
      "\<forall>i<2 ^ 0. \<forall>off<4096. ConvertVirtToPhys 0 (?V + 4096 * of_nat i + of_nat off) t =
         of_nat (4096 * 256) + 4096 * of_nat i + of_nat off"
      "\<forall>a. off_nodes s a \<longrightarrow> a \<noteq> 0xFFFFFFFF80300000 + 8 * of_nat 0 \<longrightarrow> mem t a = mem s a"
      "\<forall>a. kernel_addr a \<and> \<not> (vpn ?V \<le> vpn a \<and> vpn a < vpn ?V + 2 ^ 0) \<longrightarrow> entry_of t a = entry_of s a"
      "handed_out t 0 256 \<and> loose t 256 \<and> nodes t = nodes s \<and> core_id t = core_id s \<and> vm_state.more t = vm_state.more s"
    by auto
  have cv: "ConvertVirtToPhys pm ?V t = 0x100000" for pm
    using t(3) [rule_format, of 0 0] by (simp add: ConvertVirtToPhys_def)
  have tb: "table_of s (desc 256) = 0xFFFFFFFF80601000"
    using d by (simp_all add: table_of_def demo_page_def index_unat desc_256)
  have "entry_of t (desc 256) = entry_of s (desc 256)" using t(5) by (simp add: kernel_addr_def vpn_def desc_256)
  then have "IsPagePresent pm (desc 256) t = Inr (pg_present (entry_of s (desc 256)))" for pm
    using IsPagePresent_entry [of "desc 256" t pm] t(2) tb(1) by (simp add: kernel_addr_def desc_256)
  then have "IsPagePresent pm (desc 256) t = Inr True" for pm
    using tb(1) d by (simp add: entry_of_def demo_page_def)
  then have g: "PM_GetPage 0x100000 t = Inr (desc 256)"
    by (simp add: PM_GetPage_def Let_def ARCH_PAGE_SIZE_def frame_consts desc_256)
  have "mem t (?C + 8224) = 96" "mem t (?C + 8280) = 0"
    using t(4) [rule_format, OF off_nodes_above [OF L(1)], of "?C + 8224"]
      t(4) [rule_format, OF off_nodes_above [OF L(1)], of "?C + 8280"] L(2) d
    by (simp_all add: demo_mem_def)
  then have "load32 (cache_size_of ?C) (mem t) = of_nat 96" "load32 (cache_reserved_of ?C) (mem t) = of_nat 0"
    by (simp_all add: load32_def slab_layout)
  then show ?thesis using t(1,6) g cv d by (simp del: AllocatePages.simps)
qed

lemma link_objects_keeps [simp]:
  "core_id (link_objects n i v z u) = core_id u" "vm_state.more (link_objects n i v z u) = vm_state.more u"
  "pf_freelist_at (link_objects n i v z u) = pf_freelist_at u"
  by (induction n arbitrary: i u) (simp_all add: write_mem_def)

lemma demo_request:
  fixes s :: "'a slab_state_scheme"
  assumes "like_demo s"
  shows "\<exists>t f. slab_RequestPage 1 0xFFFFFFFF80500000 s = Inr (desc 256, t) \<and> frames t (desc 256) = Some f \<and>
     pf_objects f = 0xFFFFFFFF80000000 \<and> slab_inuse f = 0 \<and> slab_objects f = 42 \<and> core_id t = 0 \<and>
     vm_state.more t = vm_state.more s"
proof -
  obtain t where t: "AllocatePages 1 (PR_GetKernelProcess s) 1 s = Inr (0xFFFFFFFF80000000, t)"
     "PM_GetPage (ConvertVirtToPhys (VM_GetKernelPages t) 0xFFFFFFFF80000000 t) t = Inr (desc 256)"
     "handed_out t 0 256" "core_id t = 0" "vm_state.more t = vm_state.more s"
     "load32 (cache_size_of 0xFFFFFFFF80500000) (mem t) = of_nat 96"
     "load32 (cache_reserved_of 0xFFFFFFFF80500000) (mem t) = of_nat 0"
    using demo_alloc [OF assms] by blast
  obtain f where f: "load_frame (desc 256) t = Inr f"
    using t(3) by (auto simp: handed_out_def load_frame_def desc_256 split: option.splits)
  note sp = slab_SetPage_eq(1) [OF f _ _ t(6,7), of "0xFFFFFFFF80000000"]
  show ?thesis
    using t(1,2,4,5) sp by (simp add: slab_RequestPage_def store_frame_def del: AllocatePages.simps)
qed

theorem slab_first_object_twice_witness:
  "\<exists>s1 s2. slab_AllocateObject 1 1 0 0xFFFFFFFF80500000 demo_slab = Inr (0xFFFFFFFF80000000, s1) \<and>
     slab_AllocateObject 1 1 0 0xFFFFFFFF80500000 s1 = Inr (0xFFFFFFFF80000000, s2)"
proof -
  let ?C = "0xFFFFFFFF80500000 :: u64"
  let ?cpu = "cache_cpu_slab ?C 0"
  obtain t f where t: "slab_RequestPage 1 ?C demo_slab = Inr (desc 256, t)" "frames t (desc 256) = Some f"
      "pf_objects f = 0xFFFFFFFF80000000" "slab_inuse f = 0" "slab_objects f = 42" "core_id t = 0"
    using demo_request [of demo_slab] by (auto simp: like_demo_def demo_slab_fields)
  have "mem demo_slab (cache_node_of ?C 0) \<noteq> 0" "desc 256 \<noteq> 0"
    by (simp_all add: demo_slab_fields demo_mem_def slab_layout desc_256)
  with slow_path_run [OF _ t(1) _ t(2), of ?cpu] t(3) obtain s1 g where
    s1: "slow_path 1 ?C ?cpu demo_slab = Inr (0xFFFFFFFF80000000, s1)" "frames s1 (desc 256) = Some g"
      "slab_inuse g = slab_inuse f + 1" "slab_objects g = slab_objects f" "mem s1 (cpu_page_of ?cpu) = desc 256" "core_id s1 = core_id t"
    by auto
  have e: "mem demo_slab (cpu_freelist_of ?cpu) = 0" "node_next (mem demo_slab) (cpu_partial_of ?cpu) = 0"
    by (simp_all add: demo_slab_fields demo_mem_def slab_layout node_next_def)
  have c: "KM_GetSlabCpu ?C demo_slab = Inr ?cpu" "KM_GetSlabCpu ?C s1 = Inr ?cpu"
    using s1(6) t(6) by (simp_all add: KM_GetSlabCpu_def demo_slab_fields MAX_CPU_AMOUNT_def res_simps)
  have run: "slab_AllocateObject (Suc 0) 1 0 ?C demo_slab = Inr (0xFFFFFFFF80000000, s1)"
    using c(1) e s1(1) by (simp add: slab_AllocateObject_def Let_def)
  from slab_first_object_twice [OF c e run, of 0 1 0] s1 t(4,5) run show ?thesis by (auto simp: numeral_One)
qed

end
