(* ===== verification/Smp.thy ===== *)
theory Smp
  imports Apic Kernel_Structs Slub_Laws
begin

text \<open>
  The table of processors: \<^verbatim>\<open>Kernel/arch/x86_64/smp.c\<close>.  A \<^verbatim>\<open>struct CPUCore\<close> is an object of the
  kernel's allocator, so it is written into the word memory at the offsets of its members; the
  typed view of it that the processor model uses is read back from there.
\<close>

record smp_state = apic_state +
  cpus :: "nat \<Rightarrow> u64"

section \<open>Processor descriptors in memory\<close>

definition sizeof_CPUCore :: u64 where "sizeof_CPUCore = 72"

text \<open>The two pointers of ten bytes share the cells at 32 and 40; the upper half of the latter is padding.\<close>

definition core_words :: "CPUCore \<Rightarrow> u64 \<Rightarrow> (u64 \<times> u64) list" where
  "core_words c old =
     [(0, core_self c), (8, core_number c), (16, core_gdt c),
      (24, ucast (dp_size (core_gdtPtr c)) OR push_bit 16 (dp_base (core_gdtPtr c))),
      (32, drop_bit 48 (dp_base (core_gdtPtr c)) OR push_bit 16 (ucast (dp_size (core_idtPtr c))) OR
           push_bit 32 (dp_base (core_idtPtr c))),
      (40, drop_bit 32 (dp_base (core_idtPtr c)) OR (old AND NOT (mask 32))),
      (48, currentThread c), (56, idleThread c), (64, idleProcess c)]"

definition core_image :: "u64 \<Rightarrow> wmem \<Rightarrow> CPUCore" where
  "core_image p m =
     \<lparr>core_self = m p, core_number = m (p + 8), core_gdt = m (p + 16),
      core_gdtPtr = \<lparr>dp_size = ucast (m (p + 24)), dp_base = drop_bit 16 (m (p + 24)) OR push_bit 48 (m (p + 32))\<rparr>,
      core_idtPtr = \<lparr>dp_size = ucast (drop_bit 16 (m (p + 32))),
                     dp_base = drop_bit 32 (m (p + 32)) OR push_bit 32 (m (p + 40))\<rparr>,
      currentThread = m (p + 48), idleThread = m (p + 56), idleProcess = m (p + 64)\<rparr>"

definition sync_core :: "u64 \<Rightarrow> 'a hw_state_scheme \<Rightarrow> 'a hw_state_scheme" where
  "sync_core p s = s\<lparr>cpu := (cpu s)\<lparr>cores := (cores (cpu s))(p \<mapsto> core_image p (mem s))\<rparr>\<rparr>"

definition store_core :: "u64 \<Rightarrow> CPUCore \<Rightarrow> 'a hw_state_scheme \<Rightarrow> 'a hw_state_scheme res" where
  "store_core p c s =
     (if p = 0 then Inl NullDeref
      else Inr (sync_core p (fold (\<lambda>(off, v). write_mem (p + off) v) (core_words c (mem s (p + 40))) s)))"

section \<open>Operations\<close>

definition smp_SetTrampoline :: "'a smp_state_scheme \<Rightarrow> 'a smp_state_scheme" where
  "smp_SetTrampoline s = s"

definition smp_InitializeProcessor ::
  "nat \<Rightarrow> nat \<Rightarrow> u64 \<Rightarrow> u64 \<Rightarrow> u16 \<Rightarrow> 'a smp_state_scheme \<Rightarrow> 'a smp_state_scheme res" where
  "smp_InitializeProcessor jumps fuel junk junk_cache cpuId s =
     bind_res (check_index MAX_CPU_AMOUNT (unat cpuId)) (\<lambda>_.
     bind_res (KernelAllocateObject jumps fuel junk junk_cache sizeof_CPUCore s) (\<lambda>(p, s1).
     let s2 = s1\<lparr>cpus := (cpus s1)(unat cpuId := p)\<rparr> in
     if p = 0 then Inl NullDeref
     else Inr (sync_core p (write_mem (p + 8) (ucast cpuId) s2))))"

text \<open>The members without an initialiser are zero.\<close>

definition boot_core :: "desc_state \<Rightarrow> CPUCore" where
  "boot_core d =
     \<lparr>core_self = 0, core_number = 0, core_gdt = dp_base (g_Gdtr d), core_gdtPtr = g_Gdtr d, core_idtPtr = g_Idtr d,
      currentThread = 0, idleThread = 0, idleProcess = 0\<rparr>"

definition set_local :: "u64 \<Rightarrow> 'a hw_state_scheme \<Rightarrow> 'a hw_state_scheme res" where
  "set_local p s =
     bind_res (SetCPULocal p (cpu s)) (\<lambda>c. Inr (write_mem p p (s\<lparr>cpu := c\<rparr>)))"

definition smp_boot ::
  "nat \<Rightarrow> nat \<Rightarrow> u64 \<Rightarrow> u64 \<Rightarrow> 'a smp_state_scheme \<Rightarrow> 'a smp_state_scheme res" where
  "smp_boot jumps fuel junk junk_cache s =
     bind_res (KernelAllocateObject jumps fuel junk junk_cache sizeof_CPUCore s) (\<lambda>(p, s1).
     let s2 = s1\<lparr>cpus := (cpus s1)(0 := p)\<rparr> in
     bind_res (store_core p (boot_core (descs s2)) s2) (set_local p))"

fun smp_others ::
  "nat \<Rightarrow> nat \<Rightarrow> u64 \<Rightarrow> u64 \<Rightarrow> nat \<Rightarrow> nat \<Rightarrow> 'a smp_state_scheme \<Rightarrow> 'a smp_state_scheme res" where
  "smp_others jumps fuel junk junk_cache 0 i s = Inr s"
| "smp_others jumps fuel junk junk_cache (Suc n) i s =
     bind_res (if g_Processors s i \<noteq> 0
               then smp_InitializeProcessor jumps fuel junk junk_cache (ucast (g_Processors s i)) s else Inr s)
       (smp_others jumps fuel junk junk_cache n (Suc i))"

definition SMP_Initialize ::
  "nat \<Rightarrow> nat \<Rightarrow> u64 \<Rightarrow> u64 \<Rightarrow> 'a smp_state_scheme \<Rightarrow> 'a smp_state_scheme res" where
  "SMP_Initialize jumps fuel junk junk_cache s =
     bind_res (smp_boot jumps fuel junk junk_cache s) (\<lambda>s1.
     smp_others jumps fuel junk junk_cache (g_ProcessorCount s1) 0 s1)"

section \<open>The descriptor of the boot processor\<close>

lemma fold_write_mem:
  "distinct (map fst ws) \<Longrightarrow>
   mem (fold (\<lambda>(off, v). write_mem (p + off) v) ws s) a =
     (case map_of ws (a - p) of Some v \<Rightarrow> v | None \<Rightarrow> mem s a)"
proof (induction ws arbitrary: s)
  case (Cons w ws)
  have "map_of ws (fst w) = None" using Cons.prems by (simp add: map_of_eq_None_iff)
  moreover have "a = p + fst w \<longleftrightarrow> a - p = fst w" by (metis add_diff_cancel_left' diff_add_cancel add.commute)
  ultimately show ?case
    using Cons by (cases w) (auto simp: write_mem_def split: option.splits)
qed simp

lemma fold_write_mem_keeps:
  "cpu (fold (\<lambda>(off, v). write_mem (p + off) v) ws s) = cpu s"
  "descs (fold (\<lambda>(off, v). write_mem (p + off) v) ws s) = descs s" for s :: "'a hw_state_scheme"
  by (induction ws arbitrary: s) (auto simp: write_mem_def)

lemma core_words_fst: "map fst (core_words c old) = [0, 8, 16, 24, 32, 40, 48, 56, 64]"
  by (simp add: core_words_def)

text \<open>The two packed pointers are read back as they were written.\<close>

lemma packed_pointers:
  fixes b1 b2 :: u64 and z1 z2 :: u16
  defines "w24 \<equiv> ucast z1 OR push_bit 16 b1"
    and "w32 \<equiv> drop_bit 48 b1 OR push_bit 16 (ucast z2) OR push_bit 32 b2"
  shows "ucast w24 = z1" "drop_bit 16 w24 OR push_bit 48 w32 = b1"
    "ucast (drop_bit 16 w32) = z2" "drop_bit 32 w32 OR push_bit 32 (drop_bit 32 b2 OR (old AND NOT (mask 32))) = b2"
proof -
  show "ucast w24 = z1" "ucast (drop_bit 16 w32) = z2"
    unfolding w24_def w32_def by (rule bit_word_eqI; auto simp: bit_simps; fail)+
  have "bit (drop_bit 16 w24 OR push_bit 48 w32) n = bit b1 n" if "n < 64" for n
    unfolding w24_def w32_def using that
    by (cases "n < 48") (auto simp: bit_simps dest: bit_imp_le_length)
  then show "drop_bit 16 w24 OR push_bit 48 w32 = b1" by (auto intro: bit_word_eqI)
  have "bit (drop_bit 32 w32 OR push_bit 32 (drop_bit 32 b2 OR (old AND NOT (mask 32)))) n = bit b2 n" if "n < 64" for n
    unfolding w32_def using that
    by (cases "n < 32") (auto simp: bit_simps dest: bit_imp_le_length)
  then show "drop_bit 32 w32 OR push_bit 32 (drop_bit 32 b2 OR (old AND NOT (mask 32))) = b2" by (auto intro: bit_word_eqI)
qed

lemma core_image_words:
  assumes "map (\<lambda>off. m (p + off)) [0, 8, 16, 24, 32, 40, 48, 56, 64] = map snd (core_words c old)"
  shows "core_image p m = c"
  using assms unfolding core_image_def core_words_def
  by (simp only: list.map list.inject snd_conv add_0_right packed_pointers) simp

lemma core_image_stored:
  fixes s :: "'a slab_state_scheme"
  shows "core_image p (mem (fold (\<lambda>(off, v). write_mem (p + off) v) (core_words c old) s)) = c"
proof (rule core_image_words)
  let ?m = "mem (fold (\<lambda>(off, v). write_mem (p + off) v) (core_words c old) s)"
  have d: "distinct (map fst (core_words c old))" by (simp add: core_words_fst)
  show "map (\<lambda>off. ?m (p + off)) [0, 8, 16, 24, 32, 40, 48, 56, 64] = map snd (core_words c old)"
    unfolding fold_write_mem [OF d] by (simp add: core_words_def)
qed

text \<open>
  C21. The descriptor of the boot processor is filled and found: when the first part of
  \<^verbatim>\<open>SMP_Initialize\<close> succeeds, the object it allocated holds the registers of the descriptor tables and
  number 0, it is entry 0 of the table, and \<^verbatim>\<open>GetCPULocal\<close> returns its address.
\<close>

theorem boot_processor_local:
  assumes "smp_boot jumps fuel junk junk_cache s = Inr s'"
  shows "\<exists>c. cores (cpu s') (cpus s' 0) = Some c \<and> c = (boot_core (descs s'))\<lparr>core_self := cpus s' 0\<rparr> \<and>
    core_image (cpus s' 0) (mem s') = c \<and> (\<exists>k. GetCPULocal (cpu s') = Inr (cpus s' 0, k))"
proof -
  obtain p s1 where a: "KernelAllocateObject jumps fuel junk junk_cache sizeof_CPUCore s = Inr (p, s1)"
    and b: "bind_res (store_core p (boot_core (descs s1)) (s1\<lparr>cpus := (cpus s1)(0 := p)\<rparr>)) (set_local p) = Inr s'"
    using assms by (auto simp: smp_boot_def bind_res_eq_Inr Let_def)
  let ?c = "boot_core (descs s1)"
  let ?s2 = "s1\<lparr>cpus := (cpus s1)(0 := p)\<rparr>"
  let ?s3 = "fold (\<lambda>(off, v). write_mem (p + off) v) (core_words ?c (mem s1 (p + 40))) ?s2"
  have p: "p \<noteq> 0" using b by (auto simp: store_core_def)
  have i: "core_image p (mem ?s3) = ?c" by (rule core_image_stored)
  have "cores (cpu (sync_core p ?s3)) p = Some ?c" by (simp add: sync_core_def i)
  then obtain k where k: "SetCPULocal p (cpu (sync_core p ?s3)) = Inr k" "cores k p = Some (?c\<lparr>core_self := p\<rparr>)"
      "msr k MSR_GS_BASE = p" "msr k MSR_KERNEL_GS_BASE = p"
    using p by (auto simp: SetCPULocal_def Let_def wrmsr_halves MSR_GS_BASE_def MSR_KERNEL_GS_BASE_def)
  have s': "s' = write_mem p p ((sync_core p ?s3)\<lparr>cpu := k\<rparr>)"
    using b p k(1) by (simp add: store_core_def set_local_def)
  have keeps: "cpus (fold (\<lambda>(off, v). write_mem (p + off) v) ws t) = cpus t" for ws and t :: "'a smp_state_scheme"
    by (induction ws arbitrary: t) (auto simp: write_mem_def)
  have f: "cpus s' 0 = p" "descs s' = descs s1" "cpu s' = k" "mem s' = (mem ?s3)(p := p)"
    by (simp_all add: s' write_mem_def sync_core_def fold_write_mem_keeps keeps)
  have "core_image p ((mem ?s3)(p := p)) = (core_image p (mem ?s3))\<lparr>core_self := p\<rparr>"
    by (simp add: core_image_def)
  moreover have "\<exists>k'. GetCPULocal k = Inr (p, k')"
    using k by (simp add: GetCPULocal_def swapgs_def DisableInterrupts_def Let_def MSR_GS_BASE_def MSR_KERNEL_GS_BASE_def)
  ultimately show ?thesis using f k(2) i by simp
qed


section \<open>A processor of its own\<close>

lemma find_cache_cong: "g_cachePointers s = g_cachePointers s' \<Longrightarrow> KM_FindCache junk sz s = KM_FindCache junk sz s'"
  by (simp add: KM_FindCache_def split: option.split)

lemma boot_keeps:
  assumes "bind_res (store_core p c t) (set_local p) = Inr (t' :: 'a smp_state_scheme)"
  shows "g_cachePointers t' = g_cachePointers t" "core_id t' = core_id t" "frames t' = frames t" "cpus t' = cpus t"
    "(\<forall>off \<in> {0, 8, 16, 24, 32, 40, 48, 56, 64}. a \<noteq> p + off) \<Longrightarrow> mem t' a = mem t a"
proof -
  have k: "g_cachePointers (fold (\<lambda>(off, v). write_mem (p + off) v) ws u) = g_cachePointers u"
      "core_id (fold (\<lambda>(off, v). write_mem (p + off) v) ws u) = core_id u"
      "frames (fold (\<lambda>(off, v). write_mem (p + off) v) ws u) = frames u"
      "cpus (fold (\<lambda>(off, v). write_mem (p + off) v) ws u) = cpus u" for ws and u :: "'a smp_state_scheme"
    by (induction ws arbitrary: u) (auto simp: write_mem_def)
  show "g_cachePointers t' = g_cachePointers t" "core_id t' = core_id t" "frames t' = frames t" "cpus t' = cpus t"
    using assms by (auto simp: store_core_def set_local_def sync_core_def write_mem_def k bind_res_eq_Inr split: if_splits)
  assume a: "\<forall>off \<in> {0, 8, 16, 24, 32, 40, 48, 56, 64}. a \<noteq> p + off"
  have "a - p \<noteq> off" if "off \<in> {0, 8, 16, 24, 32, 40, 48, 56, 64}" for off
    using a that by (metis add.commute diff_add_cancel)
  then have "map_of (core_words c (mem t (p + 40))) (a - p) = None" "a \<noteq> p"
    using a by (auto simp: core_words_def)
  moreover have "distinct (map fst (core_words c (mem t (p + 40))))" by (simp add: core_words_fst)
  ultimately show "mem t' a = mem t a"
    using assms by (auto simp: store_core_def set_local_def sync_core_def write_mem_def [of p p] fold_write_mem
        bind_res_eq_Inr split: if_splits)
qed

text \<open>
  C13. The second processor gets the descriptor of the first.  When the boot processor's descriptor
  is the first object of a new page, the allocator hands the same object out for the next
  processor, on the same core: both entries of the table point to it, and the number in it becomes that of the second
  processor.
\<close>

theorem processors_share_descriptor:
  assumes cache: "KM_FindCache junk_cache (ucast (ucast sizeof_CPUCore :: u32)) s = cache"
    and cpu: "KM_GetSlabCpu cache s = Inr slabCpu"
    and e: "mem s (cpu_freelist_of slabCpu) = 0" "node_next (mem s) (cpu_partial_of slabCpu) = 0"
    and b: "smp_boot (Suc jumps) fuel junk junk_cache s = Inr s1"
    and cpu1: "core_id s1 = core_id s" "g_cachePointers s1 = g_cachePointers s"
    and away: "\<forall>off \<in> {0, 8, 16, 24, 32, 40, 48, 56, 64}.
      cpu_freelist_of slabCpu \<noteq> cpus s1 0 + off \<and> cpu_page_of slabCpu \<noteq> cpus s1 0 + off"
    and more: "\<And>f. frames s1 (mem s1 (cpu_page_of slabCpu)) = Some f \<Longrightarrow> unat (slab_inuse f + 1) \<noteq> unat (slab_objects f)"
    and n: "unat cpuId < 256"
  shows "\<exists>s2. smp_InitializeProcessor (Suc jumps') fuel' junk' junk_cache cpuId s1 = Inr s2 \<and>
    cpus s2 (unat cpuId) = cpus s1 0 \<and> core_number (core_image (cpus s1 0) (mem s2)) = ucast cpuId"
proof -
  obtain p t where a: "slab_AllocateObject (Suc jumps) fuel junk cache s = Inr (p, t)"
    and st: "bind_res (store_core p (boot_core (descs t)) (t\<lparr>cpus := (cpus t)(0 := p)\<rparr>)) (set_local p) = Inr s1"
    using b cache by (auto simp: smp_boot_def bind_res_eq_Inr Let_def KernelAllocateObject_def KM_Allocate_def)
  note k = boot_keeps [OF st]
  note l = slow_path_leaves_object [OF cpu e a]
  have p: "cpus s1 0 = p" using k(4) by simp
  have m: "mem s1 (cpu_freelist_of slabCpu) = mem t (cpu_freelist_of slabCpu)" "mem s1 (cpu_page_of slabCpu) = mem t (cpu_page_of slabCpu)"
    using k(5) [of "cpu_freelist_of slabCpu"] k(5) [of "cpu_page_of slabCpu"] away p by auto
  have c1: "KM_GetSlabCpu cache s1 = Inr slabCpu" using cpu cpu1 by (simp add: KM_GetSlabCpu_def)
  obtain g where g: "frames s1 (mem s1 (cpu_page_of slabCpu)) = Some g" using l m k(3) by auto
  obtain g' where "slab_AllocateObject (Suc jumps') fuel' junk' cache s1 =
      Inr (p, store_frame (mem s1 (cpu_page_of slabCpu)) g' (write_mem (cpu_freelist_of slabCpu) (mem s1 p) s1))"
    using fast_path_takes_head [OF c1 _ _ _ _ g, of p jumps' fuel' junk'] l m more [OF g] by auto
  moreover have "KM_FindCache junk_cache (ucast (ucast sizeof_CPUCore :: u32)) s1 = cache"
    using cache cpu1(2) find_cache_cong by metis
  ultimately have "KernelAllocateObject (Suc jumps') fuel' junk' junk_cache sizeof_CPUCore s1 =
      Inr (p, store_frame (mem s1 (cpu_page_of slabCpu)) g' (write_mem (cpu_freelist_of slabCpu) (mem s1 p) s1))"
    by (simp add: KernelAllocateObject_def KM_Allocate_def)
  then show ?thesis
    using l n p by (simp add: smp_InitializeProcessor_def res_simps MAX_CPU_AMOUNT_def core_image_def sync_core_def write_mem_def store_frame_def)
qed

section \<open>A machine with one cache\<close>

text \<open>The kernel of the theory \<open>Slub_Laws\<close> with the cache for 96 bytes at hand.\<close>

definition demo_smp :: smp_state where
  "demo_smp =
     apic_state.extend
      (hw_state.extend
        (slab_state.extend (vm_state.extend demo_page (slab_state.fields (\<lambda>_. 0xFFFFFFFF80500000) 0xFFFFFFFF80700000))
          (hw_state.fields (\<lambda>_. 0) \<lparr>port_input = (\<lambda>_ _. 0), port_reads = 0, port_output = []\<rparr> demo_descs
             \<lparr>msr = (\<lambda>_. 0), cores = (\<lambda>_. None), cpu_irq = False\<rparr> ((\<lambda>_. 0)(1 := 1)) 2 0 0 0 0 (\<lambda>_. 0) 0 0 0 0))
        (apic_state.fields 0 0 0 0 0 0 [] (\<lambda>_ _. 0)))
      (smp_state.fields (\<lambda>_. 0))"

lemmas smp_record_defs =
  demo_smp_def smp_state.defs apic_state.defs hw_state.defs slab_state.defs vm_state.defs demo_page_def demo_vm_def

lemma demo_smp_fields:
  "like_demo demo_smp" "g_cachePointers demo_smp = (\<lambda>_. 0xFFFFFFFF80500000)" "mem demo_smp = demo_mem" "core_id demo_smp = 0"
  by (simp_all add: like_demo_def smp_record_defs)

lemma demo_find_cache:
  "KM_FindCache 0 (ucast (ucast sizeof_CPUCore :: u32)) demo_smp = 0xFFFFFFFF80500000"
proof -
  have step: "find_order (numeral k) order sz =
      (if of_nat (blockSize ! order) > sz then Some order else find_order (pred_numeral k) (Suc order) sz)" for k order sz
    by (simp add: numeral_eq_Suc)
  show ?thesis
    by (simp add: KM_FindCache_def sizeof_CPUCore_def SLAB_MAX_SIZE_def step blockSize_def demo_smp_fields)
qed

lemma caches_more:
  fixes s s' :: "'a slab_state_scheme"
  shows "vm_state.more s = vm_state.more s' \<Longrightarrow> g_cachePointers s = g_cachePointers s'"
  by (cases s rule: slab_state.cases_scheme; cases s' rule: slab_state.cases_scheme) simp

lemma demo_smp_alloc:
  "\<exists>s1 g. slab_AllocateObject (Suc 0) 1 0 0xFFFFFFFF80500000 demo_smp = Inr (0xFFFFFFFF80000000, s1) \<and>
     frames s1 (mem s1 (cpu_page_of (cache_cpu_slab 0xFFFFFFFF80500000 0))) = Some g \<and>
     slab_inuse g = 1 \<and> slab_objects g = 42 \<and> core_id s1 = 0 \<and> g_cachePointers s1 = (\<lambda>_. 0xFFFFFFFF80500000)"
proof -
  let ?C = "0xFFFFFFFF80500000 :: u64"
  let ?cpu = "cache_cpu_slab ?C 0"
  obtain t f where t: "slab_RequestPage 1 ?C demo_smp = Inr (desc 256, t)" "frames t (desc 256) = Some f"
      "pf_objects f = 0xFFFFFFFF80000000" "slab_inuse f = 0" "slab_objects f = 42" "core_id t = 0"
      "vm_state.more t = vm_state.more demo_smp"
    using demo_request [OF demo_smp_fields(1)] by blast
  have "mem demo_smp (cache_node_of ?C 0) \<noteq> 0" "desc 256 \<noteq> 0"
    by (simp_all add: demo_smp_fields demo_mem_def slab_layout desc_256)
  with slow_path_run [OF _ t(1) _ t(2), of ?cpu] t(3) obtain s1 g where
    s1: "slow_path 1 ?C ?cpu demo_smp = Inr (0xFFFFFFFF80000000, s1)" "frames s1 (desc 256) = Some g"
      "slab_inuse g = slab_inuse f + 1" "slab_objects g = slab_objects f" "mem s1 (cpu_page_of ?cpu) = desc 256"
      "core_id s1 = core_id t" "vm_state.more s1 = vm_state.more t"
    by auto
  have e: "mem demo_smp (cpu_freelist_of ?cpu) = 0" "node_next (mem demo_smp) (cpu_partial_of ?cpu) = 0"
    by (simp_all add: demo_smp_fields demo_mem_def slab_layout node_next_def)
  have "KM_GetSlabCpu ?C demo_smp = Inr ?cpu"
    by (simp add: KM_GetSlabCpu_def demo_smp_fields MAX_CPU_AMOUNT_def res_simps)
  then have "slab_AllocateObject (Suc 0) 1 0 ?C demo_smp = Inr (0xFFFFFFFF80000000, s1)"
    using e s1(1) by (simp add: slab_AllocateObject_def Let_def)
  moreover have "g_cachePointers s1 = g_cachePointers demo_smp" by (rule caches_more) (simp only: s1(7) t(7))
  ultimately show ?thesis using s1 t by (simp add: demo_smp_fields)
qed

lemma demo_smp_boot:
  "\<exists>s1. smp_boot (Suc 0) 1 0 0 demo_smp = Inr s1 \<and> cpus s1 0 = 0xFFFFFFFF80000000 \<and> core_id s1 = 0 \<and>
     g_cachePointers s1 = (\<lambda>_. 0xFFFFFFFF80500000) \<and>
     (\<exists>g. frames s1 (mem s1 (cpu_page_of (cache_cpu_slab 0xFFFFFFFF80500000 0))) = Some g \<and> slab_inuse g = 1 \<and> slab_objects g = 42)"
proof -
  let ?V = "0xFFFFFFFF80000000 :: u64"
  obtain t g where t: "slab_AllocateObject (Suc 0) 1 0 0xFFFFFFFF80500000 demo_smp = Inr (?V, t)"
      "frames t (mem t (cpu_page_of (cache_cpu_slab 0xFFFFFFFF80500000 0))) = Some g" "slab_inuse g = 1" "slab_objects g = 42"
      "core_id t = 0" "g_cachePointers t = (\<lambda>_. 0xFFFFFFFF80500000)"
    using demo_smp_alloc by blast
  obtain s1 where s1: "bind_res (store_core ?V (boot_core (descs t)) (t\<lparr>cpus := (cpus t)(0 := ?V)\<rparr>)) (set_local ?V) = Inr s1"
    by (simp add: store_core_def set_local_def sync_core_def SetCPULocal_def Let_def)
  then have "smp_boot (Suc 0) 1 0 0 demo_smp = Inr s1"
    using t(1) by (simp add: smp_boot_def KernelAllocateObject_def KM_Allocate_def demo_find_cache Let_def)
  moreover note k = boot_keeps [OF s1]
  have "mem s1 (cpu_page_of (cache_cpu_slab 0xFFFFFFFF80500000 0)) = mem t (cpu_page_of (cache_cpu_slab 0xFFFFFFFF80500000 0))"
    using k(5) [of "cpu_page_of (cache_cpu_slab 0xFFFFFFFF80500000 0)"] by (simp add: slab_layout)
  ultimately show ?thesis using t k by auto
qed

theorem boot_processor_local_witness:
  "\<exists>s1 k. smp_boot (Suc 0) 1 0 0 demo_smp = Inr s1 \<and> GetCPULocal (cpu s1) = Inr (0xFFFFFFFF80000000, k)"
proof -
  obtain s1 where s1: "smp_boot (Suc 0) 1 0 0 demo_smp = Inr s1" "cpus s1 0 = 0xFFFFFFFF80000000" using demo_smp_boot by blast
  from boot_processor_local [OF s1(1)] s1 show ?thesis by auto
qed

theorem processors_share_descriptor_witness:
  "\<exists>s1 s2. smp_boot (Suc 0) 1 0 0 demo_smp = Inr s1 \<and> smp_InitializeProcessor (Suc 0) 1 0 0 1 s1 = Inr s2 \<and>
     cpus s2 1 = 0xFFFFFFFF80000000 \<and> cpus s1 0 = 0xFFFFFFFF80000000"
proof -
  obtain s1 g where s1: "smp_boot (Suc 0) 1 0 0 demo_smp = Inr s1" "cpus s1 0 = 0xFFFFFFFF80000000" "core_id s1 = 0"
      "g_cachePointers s1 = (\<lambda>_. 0xFFFFFFFF80500000)"
      "frames s1 (mem s1 (cpu_page_of (cache_cpu_slab 0xFFFFFFFF80500000 0))) = Some g" "slab_inuse g = 1" "slab_objects g = 42"
    using demo_smp_boot by blast
  let ?C = "0xFFFFFFFF80500000 :: u64"
  let ?cpu = "cache_cpu_slab ?C 0"
  have e: "mem demo_smp (cpu_freelist_of ?cpu) = 0" "node_next (mem demo_smp) (cpu_partial_of ?cpu) = 0"
    by (simp_all add: demo_smp_fields demo_mem_def slab_layout node_next_def)
  have c: "KM_GetSlabCpu ?C demo_smp = Inr ?cpu" by (simp add: KM_GetSlabCpu_def demo_smp_fields MAX_CPU_AMOUNT_def res_simps)
  have "\<exists>s2. smp_InitializeProcessor (Suc 0) 1 0 0 (1 :: u16) s1 = Inr s2 \<and> cpus s2 (unat (1 :: u16)) = cpus s1 0 \<and>
      core_number (core_image (cpus s1 0) (mem s2)) = ucast (1 :: u16)"
    by (rule processors_share_descriptor [OF demo_find_cache c e s1(1)])
      (use s1 in \<open>auto simp: demo_smp_fields slab_layout\<close>)
  then show ?thesis using s1(1,2) by auto
qed

end
