(* ===== verification/Process.thy ===== *)
theory Process
  imports Smp
begin

text \<open>
  Processes, threads and activities: \<^verbatim>\<open>Kernel/src/proc/proc.c\<close>, \<^verbatim>\<open>sched.c\<close>, \<^verbatim>\<open>activity.c\<close> and
  \<^verbatim>\<open>Kernel/src/sys/kernel.c\<close>.  Objects are typed: each kind has its own map from addresses.  Strings
  are in the byte memory; a string function that does not return counts as a loop that has not
  ended.  The value of a function that ends without \<^verbatim>\<open>return\<close> is not defined, and using it is an
  outcome of its own.
\<close>

section \<open>State\<close>

record proc_state = smp_state +
  currentProcessId :: u16
  processListByPid :: "nat \<Rightarrow> u64"
  threads :: "u64 \<rightharpoonup> thread"
  activities :: "u64 \<rightharpoonup> activity"

definition of_loop :: "'b option \<Rightarrow> 'b res" where
  "of_loop r = (case r of None \<Rightarrow> Inl OutOfFuel | Some x \<Rightarrow> Inr x)"

text \<open>The parameters of the allocator, the contents of its uninitialised variables among them.\<close>

record alloc_env =
  env_jumps :: nat
  env_fuel :: nat
  env_junk :: u64
  env_cache :: u64

definition new_object :: "alloc_env \<Rightarrow> u64 \<Rightarrow> 'a proc_state_scheme \<Rightarrow> (u64 \<times> 'a proc_state_scheme) res" where
  "new_object env sz s = KernelAllocateObject (env_jumps env) (env_fuel env) (env_junk env) (env_cache env) sz s"

section \<open>Scheduler\<close>

definition GetNextPID :: "'a proc_state_scheme \<Rightarrow> u16 \<times> 'a proc_state_scheme" where
  "GetNextPID s = (currentProcessId s, s\<lparr>currentProcessId := currentProcessId s + 1\<rparr>)"

text \<open>The comparison is one of \<^verbatim>\<open>int\<close>.\<close>

definition GetProcessByPID :: "u16 \<Rightarrow> 'a proc_state_scheme \<Rightarrow> u64 res" where
  "GetProcessByPID pid s =
     (if uint pid > 65535 then Inr 0
      else bind_res (check_index 65536 (unat pid)) (\<lambda>_. Inr (processListByPid s (unat pid))))"

definition SchedulerInitialize :: "'a proc_state_scheme \<Rightarrow> 'a proc_state_scheme res" where
  "SchedulerInitialize s =
     bind_res (check_index MAX_CPU_AMOUNT (unat (GetCpuNum s))) (\<lambda>_.
     Inr (s\<lparr>g_currentProcess := (g_currentProcess s)(unat (GetCpuNum s) := g_kernelProcess_at (links s))\<rparr>))"

definition Schedule :: "'a proc_state_scheme \<Rightarrow> 'a proc_state_scheme" where
  "Schedule s = s"

definition KernelInitialize :: "'a proc_state_scheme \<Rightarrow> 'a proc_state_scheme res" where
  "KernelInitialize s = SchedulerInitialize s"

fun KernelProcess :: "nat \<Rightarrow> 's \<Rightarrow> 's res" where
  "KernelProcess 0 s = Inl OutOfFuel"
| "KernelProcess (Suc fuel) s = KernelProcess fuel s"

section \<open>Activities, threads and processes\<close>

definition NewActivity :: "alloc_env \<Rightarrow> u64 \<Rightarrow> 'a proc_state_scheme \<Rightarrow> (u64 \<times> 'a proc_state_scheme) res" where
  "NewActivity env nm s =
     bind_res (new_object env (of_nat (sizeof struct_Activity)) s) (\<lambda>(newActivity, s1).
     bind_res (of_loop (strlen nm (bytes s1))) (\<lambda>n.
     bind_res (new_object env n s1) (\<lambda>(buf, s2).
     if newActivity = 0 then Inl NullDeref
     else
       let s3 = s2\<lparr>activities := (activities s2)(newActivity \<mapsto>
                  \<lparr>a_Name = buf, m_ProcessCount = 0, a_listnode_prev = 0, a_listnode_next = 0\<rparr>)\<rparr> in
       bind_res (of_loop (strcpy buf nm (bytes s3))) (\<lambda>b. Inr (newActivity, s3\<lparr>bytes := b\<rparr>)))))"

text \<open>
  \<^verbatim>\<open>m_NextThreadId\<close> is read and advanced twice.  The function has no \<^verbatim>\<open>return\<close> for a process;
  what it leaves behind is the state of the second component.
\<close>

definition thread_work :: "alloc_env \<Rightarrow> u64 \<Rightarrow> 'a proc_state_scheme \<Rightarrow> 'a proc_state_scheme res" where
  "thread_work env proc s =
     bind_res (KernelAllocateStruct (env_jumps env) (env_fuel env) (env_junk env) KernelStructThread s) (\<lambda>(newThread, s1).
     bind_res (load_proc proc s1) (\<lambda>p.
     let tid = m_NextThreadId p;
         s2 = store_proc proc (p\<lparr>m_NextThreadId := tid + 1\<rparr>) s1
     in
     if newThread = 0 then Inl NullDeref
     else
       let s3 = s2\<lparr>threads := (threads s2)(newThread \<mapsto>
                  zero_thread\<lparr>m_ThreadId := tid, m_ThreadPriority := of_int (priority_value PriorityNormal),
                    m_ThreadState := task_state_value TaskStateIdle\<rparr>)\<rparr>
       in
       bind_res (load_proc proc s3) (\<lambda>p.
       Inr ((store_proc proc (p\<lparr>m_NextThreadId := m_NextThreadId p + 1\<rparr>) s3)
              \<lparr>threads := (threads s3)(newThread \<mapsto> (the (threads s3 newThread))\<lparr>m_ThreadId := m_NextThreadId p\<rparr>)\<rparr>))))"

definition CreateThread :: "alloc_env \<Rightarrow> u64 \<Rightarrow> 'a proc_state_scheme \<Rightarrow> (u64 \<times> 'a proc_state_scheme) res" where
  "CreateThread env proc s =
     (if proc = 0 then Inr (0, s) else bind_res (thread_work env proc s) (\<lambda>_. Inl MissingReturn))"

definition CreateProcess :: "u64 res" where
  "CreateProcess = Inl MissingReturn"

text \<open>The operands of the initialiser in the order of the source.\<close>

definition process_object ::
  "alloc_env \<Rightarrow> u64 \<Rightarrow> TaskType \<Rightarrow> u64 \<Rightarrow> u64 \<Rightarrow> 'a proc_state_scheme \<Rightarrow> (process \<times> 'a proc_state_scheme) res" where
  "process_object env activity ty file nm s =
     bind_res (of_loop (strlen nm (bytes s))) (\<lambda>n.
     bind_res (new_object env n s) (\<lambda>(buf, s1).
     let (pid, s2) = GetNextPID s1 in
     bind_res VM_CreatePagemap (\<lambda>pmap.
     Inr (zero_process\<lparr>m_Name := buf, m_ProcessId := pid, m_Type := task_type_value ty, m_FilePtr := file,
            m_Activity := activity, m_IsIdle := True, m_Threads := 1, m_Pagemap := pmap\<rparr>, s2))))"

definition CreateProcessEx ::
  "alloc_env \<Rightarrow> u64 \<Rightarrow> TaskType \<Rightarrow> u64 \<Rightarrow> u64 \<Rightarrow> 'a proc_state_scheme \<Rightarrow> (u64 \<times> 'a proc_state_scheme) res" where
  "CreateProcessEx env activity ty file nm s =
     bind_res (new_object env (of_nat (sizeof struct_Process)) s) (\<lambda>(newProc, s1).
     bind_res (process_object env activity ty file nm s1) (\<lambda>(q, s2).
     if newProc = 0 then Inl NullDeref
     else
       let s3 = store_proc newProc q s2 in
       bind_res (of_loop (strcpy (m_Name q) nm (bytes s3))) (\<lambda>b.
       let s4 = s3\<lparr>bytes := b\<rparr> in
       bind_res (if activity = 0
                 then bind_res (NewActivity env (m_Name q) s4) (\<lambda>(a, s5).
                      bind_res (load_proc newProc s5) (\<lambda>p. Inr (store_proc newProc (p\<lparr>m_Activity := a\<rparr>) s5)))
                 else Inr s4) (\<lambda>s6.
       bind_res (CreateThread env newProc s6) (\<lambda>(t, s7).
       bind_res (load_proc newProc s7) (\<lambda>p.
       let s8 = store_proc newProc (p\<lparr>m_ChildrenThreadList := t, m_MainThread := t\<rparr>) s7 in
       Inl MissingReturn))))))"

text \<open>\<^verbatim>\<open>file->m_Name\<close> is the first word of the file object.\<close>

definition CreateELFProcess :: "alloc_env \<Rightarrow> u64 \<Rightarrow> 'a proc_state_scheme \<Rightarrow> (u64 \<times> 'a proc_state_scheme) res" where
  "CreateELFProcess env file s =
     bind_res (deref file s) (\<lambda>nm. CreateProcessEx env 0 TaskTypeBackground file nm s)"

section \<open>Properties\<close>


text \<open>The numbers that \<open>n\<close> calls in a row hand out.\<close>

fun next_pids :: "nat \<Rightarrow> 'a proc_state_scheme \<Rightarrow> u16 list" where
  "next_pids 0 s = []"
| "next_pids (Suc n) s = (let (pid, s1) = GetNextPID s in pid # next_pids n s1)"

lemma next_pids_eq: "next_pids n s = map (\<lambda>i. currentProcessId s + of_nat i) [0..<n]"
proof (induction n arbitrary: s)
  case (Suc n)
  have "[0..<Suc n] = 0 # map Suc [0..<n]" by (simp add: map_Suc_upt upt_conv_Cons del: upt_Suc)
  then show ?case using Suc by (simp add: GetNextPID_def add.assoc comp_def del: upt_Suc)
qed simp


text \<open>
  The scheduler starts on every processor: the number of the processor is always inside the
  table, afterwards the current process of this processor is the kernel process, and the other processors keep
  theirs.  Looking a process up by its number stays inside its table as well.
\<close>

theorem scheduler_starts:
  "\<exists>s'. KernelInitialize s = Inr s' \<and>
     PR_GetCurrentProcess (s'\<lparr>core_id := unat (GetCpuNum s)\<rparr>) = PR_GetKernelProcess s' \<and>
     (\<forall>c. c = unat (GetCpuNum s) \<or> g_currentProcess s' c = g_currentProcess s c) \<and>
     GetProcessByPID pid s' = Inr (processListByPid s (unat pid))"
proof -
  have "unat (GetCpuNum s) < 256"
  proof (cases "apicLocalPtr s = 0")
    case False
    have "unat (drop_bit 24 (w :: u32)) < 256" for w
      using unsigned_less [of w, where ?'a = nat] by (simp add: drop_bit_eq_div unat_div_distrib less_mult_imp_div_less)
    then show ?thesis using False by (simp add: GetCpuNum_def)
  qed (simp add: GetCpuNum_def)
  moreover have "unat pid < 65536" using unsigned_less [of pid, where ?'a = nat] by simp
  moreover from this have "uint pid \<le> 65535" by (simp add: uint_nat del: of_nat_unat)
  ultimately show ?thesis
    by (simp add: KernelInitialize_def SchedulerInitialize_def MAX_CPU_AMOUNT_def res_simps PR_GetCurrentProcess_def
        PR_GetKernelProcess_def GetProcessByPID_def)
qed

text \<open>The idle loop of the kernel never ends.\<close>

lemma kernel_process_runs_forever: "KernelProcess fuel s = Inl OutOfFuel"
  by (induction fuel) simp_all

end
