(* ===== verification/Smbios.thy ===== *)
theory Smbios
  imports Acpi
begin

text \<open>
  The search for the SMBIOS entry point in \<^verbatim>\<open>smbios.c\<close>, with the structures of \<^verbatim>\<open>smbios.h\<close>.
\<close>

record SMBIOS2EntryPoint =
  sm2_EntryPointString :: "u8 list"
  sm2_Checksum :: u8
  sm2_Length :: u8
  sm2_MajorVersion :: u8
  sm2_MinorVersion :: u8
  sm2_MaxSize :: u16
  sm2_Revision :: u8
  sm2_FmtArea :: "u8 list"
  sm2_EntryPointString2 :: "u8 list"
  sm2_Checksum2 :: u8
  sm2_TableLength :: u16
  sm2_TableAddress :: u32
  sm2_NumberOfStructures :: u16
  sm2_BCDRevision :: u8

record SMBIOS3EntryPoint =
  sm3_EntryPointString :: "u8 list"
  sm3_Checksum :: u8
  sm3_Length :: u8
  sm3_MajorVersion :: u8
  sm3_MinorVersion :: u8
  sm3_Docrev :: u8
  sm3_Revision :: u8
  sm3_reserved :: u8
  sm3_MaxSize :: u32
  sm3_TableAddress :: u64

record SMBIOSHeader =
  smh_Type :: u8
  smh_Length :: u8
  smh_Handle :: u16

definition smbios_SignatureL2 :: "u8 list" where "smbios_SignatureL2 = lit ''_SM_''"
definition smbios_SignatureL3 :: "u8 list" where "smbios_SignatureL3 = lit ''_SM3_''"

text \<open>The length is the byte at offset 5 for both kinds of entry point.\<close>

definition smbios_Checksum :: "u64 \<Rightarrow> bmem \<Rightarrow> bool" where
  "smbios_Checksum address m \<longleftrightarrow> sum_list (read_bytes (unat (rd8 (address + 5) m)) address m) = 0"

text \<open>
  \<^verbatim>\<open>memcmp\<close> is zero for equal stretches, so the two tests hold where the signature is absent.
\<close>

fun smbios_search :: "nat \<Rightarrow> u64 \<Rightarrow> bmem \<Rightarrow> (int \<times> u64) option" where
  "smbios_search 0 address m = None"
| "smbios_search (Suc n) address m =
     (if memcmp_lit address smbios_SignatureL2 m \<noteq> 0 \<and> smbios_Checksum address m then Some (2, address)
      else if memcmp_lit address smbios_SignatureL3 m \<noteq> 0 \<and> smbios_Checksum address m then Some (3, address)
      else smbios_search n (address + 0x10) m)"

text \<open>The 64 KiB from \<^verbatim>\<open>0xF0000\<close> on in the window for devices: 4096 places.  The results are \<^verbatim>\<open>g_SmbiosVersion\<close> and \<^verbatim>\<open>SmbiosInfo\<close>.\<close>

definition SMBIOS_Initialize :: "'a hw_state_scheme \<Rightarrow> (int \<times> u64) res" where
  "SMBIOS_Initialize s =
     (case smbios_search 4096 (0xF0000 + KERNEL_IO_VIRTUAL_BASE) (bytes s) of
        Some r \<Rightarrow> Inr r
      | None \<Rightarrow> Inl (Panic ''[SMBIOS] No SMBIOS found!''))"

lemma smbios_search_Some:
  "smbios_search n a m = Some (v, p) \<Longrightarrow>
   v = 2 \<and> read_bytes 4 p m \<noteq> smbios_SignatureL2 \<or> v = 3 \<and> read_bytes 4 p m = smbios_SignatureL2"
proof (induction n arbitrary: a)
  case (Suc n)
  have "length smbios_SignatureL2 = 4" by (simp add: smbios_SignatureL2_def lit_def)
  then show ?case using Suc by (auto simp: memcmp_lit_zero split: if_splits)
qed simp

text \<open>
  The answers of the search are exchanged: a place that is taken for an entry point of version
  2 does not carry the signature of one, and a place with that signature can only be taken for an
  entry point of version 3.
\<close>

theorem smbios_versions_swapped:
  assumes "SMBIOS_Initialize s = Inr (v, p)"
  shows "v = 2 \<and> read_bytes 4 p (bytes s) \<noteq> lit ''_SM_'' \<or> v = 3 \<and> read_bytes 4 p (bytes s) = lit ''_SM_''"
  using assms smbios_search_Some [of 4096 "0xF0000 + KERNEL_IO_VIRTUAL_BASE" "bytes s" v p]
  by (auto simp: SMBIOS_Initialize_def smbios_SignatureL2_def split: option.splits)

theorem smbios_versions_swapped_witness:
  "SMBIOS_Initialize (demo_hw (\<lambda>_. 0)) = Inr (2, 0xFFFFFF93000F0000) \<and> read_bytes 4 0xFFFFFF93000F0000 (\<lambda>_. 0) \<noteq> lit ''_SM_''"
proof -
  have eq: "(4096::nat) = Suc 4095" by simp
  have "smbios_search 4096 0xFFFFFF93000F0000 (\<lambda>_. 0) = Some (2, 0xFFFFFF93000F0000)"
    by (subst eq, subst smbios_search.simps(2)) (simp add: smbios_SignatureL2_def lit_def smbios_Checksum_def rd8_def)
  then have "SMBIOS_Initialize (demo_hw (\<lambda>_. 0)) = Inr (2, 0xFFFFFF93000F0000)"
    by (simp add: SMBIOS_Initialize_def demo_hw_fields KERNEL_IO_VIRTUAL_BASE_def del: smbios_search.simps)
  with smbios_versions_swapped [OF this] show ?thesis by (simp add: demo_hw_fields)
qed

end
