(* ===== verification/Legacy_Devices.thy ===== *)
theory Legacy_Devices
  imports Ports
begin

text \<open>
  What the devices behind the ports make of the writes that \<^verbatim>\<open>pic.c\<close> and \<^verbatim>\<open>pit.c\<close> send them.  A
  device is a state and a function that receives one write; the locale \<open>port_device\<close> states that it
  looks at its own ports only, and is interpreted for the two interrupt controllers and the timer.
\<close>

section \<open>Devices on the bus\<close>

fun written_port :: "port_write \<Rightarrow> u16" where
  "written_port (Out8 p v) = p"
| "written_port (Out16 p v) = p"
| "written_port (Out32 p v) = p"

definition device_after :: "(port_write \<Rightarrow> 'd \<Rightarrow> 'd) \<Rightarrow> port_write list \<Rightarrow> 'd \<Rightarrow> 'd" where
  "device_after receive ws d = fold receive ws d"

lemma device_after_simps [simp]:
  "device_after receive [] d = d"
  "device_after receive (w # ws) d = device_after receive ws (receive w d)"
  "device_after receive (ws @ ws') d = device_after receive ws' (device_after receive ws d)"
  by (simp_all add: device_after_def)

locale port_device =
  fixes listens :: "u16 set" and receive :: "port_write \<Rightarrow> 'd \<Rightarrow> 'd"
  assumes ignores: "written_port w \<notin> listens \<Longrightarrow> receive w d = d"
begin

text \<open>Only the writes to the ports of the device count.\<close>

lemma after_own: "device_after receive ws d = device_after receive (filter (\<lambda>w. written_port w \<in> listens) ws) d"
  by (induction ws arbitrary: d) (auto simp: ignores)

lemma after_foreign: "written_port ` set ws \<inter> listens = {} \<Longrightarrow> device_after receive ws d = d"
  by (induction ws arbitrary: d) (auto simp: ignores)

end

section \<open>The interrupt controllers\<close>

text \<open>
  The 8259 controller as its data sheet describes it: a byte with bit 4 set on the command port
  starts the initialisation, the next three bytes on the data port are the vector offset, the
  cascade and the mode, and any later byte on the data port is the mask of interrupts.  The byte
  \<^verbatim>\<open>0x20\<close> on the command port ends the interrupt of highest priority that is in service; the other
  operation commands, which the kernel never sends, are left out.
\<close>

datatype pic_phase = Operating | WantOffset | WantCascade | WantMode

record pic_chip =
  pic_phase :: pic_phase
  pic_offset :: u8
  pic_cascade :: u8
  pic_mode :: u8
  pic_mask :: u8
  pic_service :: u8

definition clear_highest :: "u8 \<Rightarrow> u8" where
  "clear_highest x = (case find (bit x) [0..<8] of None \<Rightarrow> x | Some j \<Rightarrow> unset_bit j x)"

definition pic_receive :: "u16 \<Rightarrow> port_write \<Rightarrow> pic_chip \<Rightarrow> pic_chip" where
  "pic_receive command w c =
     (case w of
        Out8 p v \<Rightarrow>
          if p = command then
            (if bit v 4 then c\<lparr>pic_phase := WantOffset, pic_mask := 0\<rparr>
             else if v = 0x20 then c\<lparr>pic_service := clear_highest (pic_service c)\<rparr> else c)
          else if p = command + 1 then
            (case pic_phase c of
               WantOffset \<Rightarrow> c\<lparr>pic_offset := v, pic_phase := WantCascade\<rparr>
             | WantCascade \<Rightarrow> c\<lparr>pic_cascade := v, pic_phase := WantMode\<rparr>
             | WantMode \<Rightarrow> c\<lparr>pic_mode := v, pic_phase := Operating\<rparr>
             | Operating \<Rightarrow> c\<lparr>pic_mask := v\<rparr>)
          else c
      | _ \<Rightarrow> c)"

interpretation pic: port_device "{command, command + 1}" "pic_receive command" for command
  by unfold_locales (auto simp: pic_receive_def split: port_write.split)

text \<open>The primary and the secondary controller, at the ports the kernel uses.\<close>

abbreviation primary_after :: "port_write list \<Rightarrow> pic_chip \<Rightarrow> pic_chip" where
  "primary_after \<equiv> device_after (pic_receive 0x20)"

abbreviation secondary_after :: "port_write list \<Rightarrow> pic_chip \<Rightarrow> pic_chip" where
  "secondary_after \<equiv> device_after (pic_receive 0xA0)"

text \<open>The vector of an interrupt line: lines 8 to 15 belong to the second controller.\<close>

definition irq_vector :: "pic_chip \<Rightarrow> pic_chip \<Rightarrow> nat \<Rightarrow> nat" where
  "irq_vector p q i = (if i < 8 then unat (pic_offset p) + i else unat (pic_offset q) + (i - 8))"

text \<open>
  A controller passes a line on when the line is not masked and neither it nor one of higher
  priority is in service; then the line is in service.  The second controller is behind line 2
  of the first.
\<close>

definition pic_accepts :: "nat \<Rightarrow> pic_chip \<Rightarrow> bool" where
  "pic_accepts n c \<longleftrightarrow> pic_phase c = Operating \<and> n < 8 \<and> \<not> bit (pic_mask c) n \<and> (\<forall>j\<in>{0..n}. \<not> bit (pic_service c) j)"

definition pic_serve :: "nat \<Rightarrow> pic_chip \<Rightarrow> pic_chip" where
  "pic_serve n c = c\<lparr>pic_service := Bit_Operations.set_bit n (pic_service c)\<rparr>"

definition irq_accepted :: "nat \<Rightarrow> pic_chip \<times> pic_chip \<Rightarrow> bool" where
  "irq_accepted i c \<longleftrightarrow> (if i < 8 then pic_accepts i (fst c) else pic_accepts 2 (fst c) \<and> pic_accepts (i - 8) (snd c))"

definition irq_deliver :: "nat \<Rightarrow> pic_chip \<times> pic_chip \<Rightarrow> pic_chip \<times> pic_chip" where
  "irq_deliver i c = (if i < 8 then (pic_serve i (fst c), snd c) else (pic_serve 2 (fst c), pic_serve (i - 8) (snd c)))"

definition controllers_after :: "port_write list \<Rightarrow> pic_chip \<times> pic_chip \<Rightarrow> pic_chip \<times> pic_chip" where
  "controllers_after ws c = (primary_after ws (fst c), secondary_after ws (snd c))"

section \<open>The timer\<close>

text \<open>
  Channel 0 of the 8254 timer: a control byte selects how the count is loaded (low byte, high
  byte, or both, the low one first) and the mode; the channel has no count until it has received
  the bytes it waits for.  A count of zero stands for 65536.
\<close>

record pit_chip =
  pit_access :: nat
  pit_mode :: nat
  pit_low :: "u8 option"
  pit_reload :: "nat option"

definition pit_load :: "u8 \<Rightarrow> pit_chip \<Rightarrow> pit_chip" where
  "pit_load v c =
     (if pit_access c = 1 then c\<lparr>pit_reload := Some (unat v)\<rparr>
      else if pit_access c = 2 then c\<lparr>pit_reload := Some (256 * unat v)\<rparr>
      else if pit_access c = 3 then
        (case pit_low c of
           None \<Rightarrow> c\<lparr>pit_low := Some v\<rparr>
         | Some l \<Rightarrow> c\<lparr>pit_low := None, pit_reload := Some (unat l + 256 * unat v)\<rparr>)
      else c)"

definition pit_receive :: "port_write \<Rightarrow> pit_chip \<Rightarrow> pit_chip" where
  "pit_receive w c =
     (case w of
        Out8 p v \<Rightarrow>
          if p = 0x43 then
            (if drop_bit 6 v \<noteq> 0 \<or> drop_bit 4 v AND 3 = 0 then c
             else c\<lparr>pit_access := unat (drop_bit 4 v AND 3), pit_mode := unat (drop_bit 1 v AND 7),
                    pit_low := None, pit_reload := None\<rparr>)
          else if p = 0x40 then pit_load v c else c
      | _ \<Rightarrow> c)"

interpretation pit: port_device "{0x40, 0x43}" pit_receive
  by unfold_locales (auto simp: pit_receive_def split: port_write.split)

definition pit_divisor :: "pit_chip \<Rightarrow> nat option" where
  "pit_divisor c = map_option (\<lambda>d. if d = 0 then 65536 else d) (pit_reload c)"

section \<open>What the code sends\<close>

lemma PIC_Initialize_output:
  "port_output (PIC_Initialize s) = port_output s @
     [Out8 0x20 0x11, Out8 0xA0 0x11, Out8 0x21 0x20, Out8 0xA1 0x28, Out8 0x21 0x04, Out8 0xA1 0x02,
      Out8 0x21 0x01, Out8 0xA1 0x01, Out8 0x21 0x00, Out8 0xA1 0x00]"
  by (simp add: PIC_Initialize_def port_writes)

lemma PIC_Disable_output: "port_output (PIC_Disable s) = port_output s @ [Out8 0xA1 0xFF, Out8 0x21 0xFF]"
  by (simp add: PIC_Disable_def port_writes)

lemma RestoreInterrupts_output:
  "port_output (RestoreInterrupts i s) = port_output s @ (if i \<ge> 40 then [Out8 0xA0 0x20] else []) @ [Out8 0x20 0x20]"
  by (simp add: RestoreInterrupts_def port_writes)

lemma bytes_of_divisor: "unat (ucast (d AND 0xFF) :: u8) + 256 * unat (ucast (drop_bit 8 d AND 0xFF) :: u8) = unat (d :: u16)"
proof -
  have l: "unat (ucast (x AND 0xFF) :: u8) = unat x mod 256" for x :: u16
  proof -
    have "(0xFF :: u16) = mask 8" by (simp add: mask_eq_exp_minus_1)
    then have "unat (x AND 0xFF) = unat x mod 256" by (simp only: unat_and_mask_mod) simp
    then show ?thesis by (simp add: unsigned_ucast_eq take_bit_eq_mod)
  qed
  have "unat (drop_bit 8 d) = unat d div 256" by (simp add: drop_bit_eq_div unat_div)
  moreover have "unat d div 256 < 256" using unsigned_less [of d, where ?'a = nat] by simp
  ultimately show ?thesis by (simp add: l)
qed

lemma pit_quotient: "unat (ucast (PIT_FREQUENCY div f) :: u16) = 1193182 div unat f mod 65536"
  by (simp add: unsigned_ucast_eq take_bit_eq_mod PIT_FREQUENCY_def unat_div)

lemma PIT_Initialize_output:
  "freq \<noteq> 0 \<Longrightarrow> \<exists>s'. PIT_Initialize freq s = Inr s' \<and> port_output s' = port_output s @
     (let d = ucast (PIT_FREQUENCY div freq) :: u16
      in [Out8 0x43 0x36, Out8 0x40 (ucast (d AND 0xFF)), Out8 0x40 (ucast (drop_bit 8 d AND 0xFF))])"
  by (simp add: PIT_Initialize_def port_writes Let_def)

section \<open>Acknowledging\<close>

lemma clear_set_highest:
  assumes "n < 8" and "\<forall>j\<in>{0..n}. \<not> bit x j"
  shows "clear_highest (Bit_Operations.set_bit n x) = x"
proof -
  have "find (bit (Bit_Operations.set_bit n x)) [0..<8] = Some n"
    unfolding find_Some_iff using assms by (intro exI [of _ n]) (auto simp: bit_set_bit_iff nth_append)
  moreover have "unset_bit n (Bit_Operations.set_bit n x) = x"
    using assms(2) by (intro bit_eqI) (auto simp: bit_simps)
  ultimately show ?thesis by (simp add: clear_highest_def)
qed

lemma serve_then_end:
  "pic_accepts n c \<Longrightarrow> pic_receive p (Out8 p 0x20) (pic_serve n c) = c"
  by (simp add: pic_receive_def pic_serve_def pic_accepts_def clear_set_highest bit_simps)

text \<open>
  The bytes of \<^verbatim>\<open>RestoreInterrupts\<close> take the line out of service: both controllers are as they
  were before the interrupt.
\<close>

lemma deliver_then_restore:
  assumes "i < 16" and "irq_accepted i c"
  shows "controllers_after ((if i \<ge> 8 then [Out8 0xA0 0x20] else []) @ [Out8 0x20 0x20]) (irq_deliver i c) = c"
  using assms serve_then_end [of _ _ "0x20"] serve_then_end [of _ _ "0xA0"]
    pic.ignores [of "Out8 0x20 0x20" "0xA0"] pic.ignores [of "Out8 0xA0 0x20" "0x20"]
  by (cases c) (auto simp: controllers_after_def irq_accepted_def irq_deliver_def)

section \<open>Programming\<close>

definition programmed :: "u8 \<Rightarrow> u8 \<Rightarrow> pic_chip \<Rightarrow> bool" where
  "programmed offset msk c \<longleftrightarrow> pic_phase c = Operating \<and> pic_offset c = offset \<and> pic_mask c = msk"

lemma initialized_primary: "programmed 0x20 0 (primary_after (port_output (PIC_Initialize s)) c)"
  by (simp add: PIC_Initialize_output pic_receive_def programmed_def bit_simps)

lemma initialized_secondary: "programmed 0x28 0 (secondary_after (port_output (PIC_Initialize s)) c)"
  by (simp add: PIC_Initialize_output pic_receive_def programmed_def bit_simps)

text \<open>Ending an interrupt keeps the programming.\<close>

lemma restores_keep_programmed:
  assumes "\<forall>w\<in>set ws. w = Out8 0x20 0x20 \<or> w = Out8 0xA0 0x20" and "p \<in> {0x20, 0xA0}"
  shows "programmed v m c \<Longrightarrow> programmed v m (device_after (pic_receive p) ws c)"
  using assms
  by (induction ws arbitrary: c) (auto simp: pic_receive_def programmed_def bit_simps)

lemma restores_output:
  "\<exists>ws. port_output (fold RestoreInterrupts vs s) = port_output s @ ws \<and>
     (\<forall>w\<in>set ws. w = Out8 0x20 0x20 \<or> w = Out8 0xA0 0x20)"
proof (induction vs arbitrary: s)
  case (Cons v vs)
  then obtain ws where "port_output (fold RestoreInterrupts vs (RestoreInterrupts v s)) = port_output (RestoreInterrupts v s) @ ws"
      "\<forall>w\<in>set ws. w = Out8 0x20 0x20 \<or> w = Out8 0xA0 0x20" by blast
  then show ?case by (auto simp: RestoreInterrupts_output)
qed simp

lemma irq_vector_programmed:
  "programmed 0x20 m p \<Longrightarrow> programmed 0x28 m' q \<Longrightarrow> irq_vector p q i = 32 + i"
  by (simp add: irq_vector_def programmed_def)

lemma vectors_programmed:
  "programmed 0x20 m p \<Longrightarrow> programmed 0x28 m' q \<Longrightarrow> map (irq_vector p q) [0..<16] = [32..<48]"
  by (simp add: irq_vector_programmed upt_rec)

lemma timer_programmed:
  assumes "19 \<le> unat freq" and "unat freq \<le> 1193182" and "PIT_Initialize freq s = Inr s'"
  shows "pit_divisor (device_after pit_receive (port_output s') t) = Some (1193182 div unat freq) \<and>
    pit_mode (device_after pit_receive (port_output s') t) = 3"
proof -
  have "1193182 div unat freq \<le> 1193182 div 19" using assms(1) by (intro div_le_mono2) auto
  moreover have "0 < 1193182 div unat freq" using assms by (simp add: div_greater_zero_iff)
  moreover have "freq \<noteq> 0" using assms(1) by auto
  moreover note pit_quotient [of freq] bytes_of_divisor [of "ucast (PIT_FREQUENCY div freq)"]
    PIT_Initialize_output [of freq s] assms(3)
  ultimately show ?thesis
    by (auto simp: Let_def pit_receive_def pit_load_def pit_divisor_def)
qed

text \<open>
  C34. The devices after the part of the start-up that programs them, whatever state they were in
  and whatever interrupts are ended on the way: both controllers operate, the sixteen lines have
  the vectors 32 to 47 (none collides with an exception), every line is masked exactly when the
  kernel has gone over to the APIC, and the timer counts down from the quotient of its base
  frequency and the rate, for every rate of 19 Hz to 1193182 Hz.
\<close>

theorem devices_programmed:
  assumes "19 \<le> unat freq" and "unat freq \<le> 1193182"
  shows "\<exists>s1. PIT_Initialize freq (PIC_Initialize s) = Inr s1 \<and>
    (let s2 = fold RestoreInterrupts vs s1;
         ws = port_output (if apic then PIC_Disable s2 else s2);
         p = primary_after ws c; q = secondary_after ws d; t = device_after pit_receive ws e;
         m = (if apic then 0xFF else 0)
     in pic_phase p = Operating \<and> pic_phase q = Operating \<and> pic_mask p = m \<and> pic_mask q = m \<and>
        map (irq_vector p q) [0..<16] = [32..<48] \<and>
        pit_mode t = 3 \<and> pit_divisor t = Some (1193182 div unat freq))"
proof -
  have "freq \<noteq> 0" using assms(1) by auto
  from PIT_Initialize_output [OF this, of "PIC_Initialize s"] obtain s1 ts
    where s1: "PIT_Initialize freq (PIC_Initialize s) = Inr s1"
      and ts: "port_output s1 = port_output (PIC_Initialize s) @ ts" "written_port ` set ts \<subseteq> {0x40, 0x43}"
    by (auto simp: Let_def)
  obtain es where es: "port_output (fold RestoreInterrupts vs s1) = port_output s1 @ es"
      "\<forall>w\<in>set es. w = Out8 0x20 0x20 \<or> w = Out8 0xA0 0x20" using restores_output by blast
  have quiet: "device_after (pic_receive p) ts x = x" if "p \<in> {0x20, 0xA0}" for p x
    using ts(2) that by (intro pic.after_foreign) auto
  have pp: "programmed 0x20 0 (primary_after (port_output (fold RestoreInterrupts vs s1)) c)"
    and qq: "programmed 0x28 0 (secondary_after (port_output (fold RestoreInterrupts vs s1)) d)"
    using restores_keep_programmed [OF es(2)] initialized_primary initialized_secondary quiet
    by (simp_all add: es(1) ts(1))
  have tt: "device_after pit_receive (es @ us) x = x" if "us \<in> {[], [Out8 0xA1 0xFF, Out8 0x21 0xFF]}" for us x
    using es(2) that by (intro pit.after_foreign) auto
  note tp = timer_programmed [OF assms s1, of e]
  let ?us = "if apic then [Out8 0xA1 0xFF, Out8 0x21 0xFF] else [] :: port_write list"
  let ?m = "if apic then 0xFF else 0"
  define ws where "ws = port_output (if apic then PIC_Disable (fold RestoreInterrupts vs s1) else fold RestoreInterrupts vs s1)"
  have ws: "ws = port_output (fold RestoreInterrupts vs s1) @ ?us"
    by (simp add: ws_def PIC_Disable_output)
  have p: "programmed 0x20 ?m (primary_after ws c)" and q: "programmed 0x28 ?m (secondary_after ws d)"
    using pp qq by (simp_all add: ws programmed_def pic_receive_def)
  have t: "device_after pit_receive ws e = device_after pit_receive (port_output s1) e"
    using tt [of ?us] by (simp add: ws es(1))
  show ?thesis
    using s1 p q t tp vectors_programmed [OF p q] by (simp add: ws_def [symmetric] Let_def programmed_def)
qed

theorem devices_programmed_witness:
  "\<exists>s1. PIT_Initialize 1000 (PIC_Initialize \<lparr>port_input = (\<lambda>_ _. 0), port_reads = 0, port_output = []\<rparr>) = Inr s1 \<and>
     pit_divisor (device_after pit_receive (port_output (PIC_Disable (fold RestoreInterrupts [32, 40] s1)))
       \<lparr>pit_access = 0, pit_mode = 0, pit_low = None, pit_reload = None\<rparr>) = Some 1193"
  using devices_programmed [of 1000 "\<lparr>port_input = (\<lambda>_ _. 0), port_reads = 0, port_output = []\<rparr>" "[32, 40]" True
      undefined undefined "\<lparr>pit_access = 0, pit_mode = 0, pit_low = None, pit_reload = None\<rparr>"]
  by (auto simp: Let_def)

end
