(* ===== verification/Interrupts.thy ===== *)
theory Interrupts
  imports Acpi Legacy_Devices
begin

text \<open>
  The common interrupt handler of \<^verbatim>\<open>Kernel/arch/x86_64/interrupts.c\<close>.  The register frame is in
  the byte memory at the stack pointer the assembly stub passes.  The code behind a function pointer
  is the parameter \<open>run\<close>, a function of the pointer, the frame and the state;
  \<open>run_kernel\<close> knows the one handler the kernel registers itself.
\<close>

section \<open>Dispatch\<close>

definition context_intno :: "u64 \<Rightarrow> bmem \<Rightarrow> u64" where
  "context_intno context m = rd64 (context + 120) m"

text \<open>The number is read again after the handler, and passed on as an \<^verbatim>\<open>int\<close>.\<close>

definition DispatchInterrupts ::
  "(u64 \<Rightarrow> u64 \<Rightarrow> 'a hw_state_scheme \<Rightarrow> 'a hw_state_scheme res) \<Rightarrow> u64 \<Rightarrow> 'a hw_state_scheme \<Rightarrow> (u64 \<times> 'a hw_state_scheme) res" where
  "DispatchInterrupts run rsp s =
     (let intno = context_intno rsp (bytes s) in
      bind_res (check_index 256 (unat intno)) (\<lambda>_.
      bind_res
        (if intr_handler s (unat intno) \<noteq> 0 then run (intr_handler s (unat intno)) rsp s
         else if intno < 32 then Inl (fst (CallPanic ''System Interrupt'' (WriteLong intno (tty s))))
         else if intno < 48 then Inr s
         else Inr s) (\<lambda>s1.
      Inr (rsp, on_ports (RestoreInterrupts (sint (ucast (context_intno rsp (bytes s1)) :: u32))) s1))))"

definition run_kernel ::
  "(u64 \<Rightarrow> u64 \<Rightarrow> 'a hw_state_scheme \<Rightarrow> 'a hw_state_scheme res) \<Rightarrow> u64 \<Rightarrow> u64 \<Rightarrow> 'a hw_state_scheme \<Rightarrow> 'a hw_state_scheme res" where
  "run_kernel other h context s =
     (if h = PageFaultHandler_at (links s) then Interrupts_PageFaultHandler s else other h context s)"

section \<open>Results\<close>

text \<open>The bytes that end an interrupt: one for the master controller, before it one for the slave.\<close>

definition end_of_interrupt :: "u64 \<Rightarrow> port_write list" where
  "end_of_interrupt v = (if 40 \<le> unat v then [Out8 0xA0 0x20, Out8 0x20 0x20] else [Out8 0x20 0x20])"

lemma vector_as_int:
  assumes "unat (v :: u64) < 256"
  shows "sint (ucast v :: u32) = int (unat v)"
proof -
  have "unat (ucast v :: u32) = unat v" using assms by (simp add: unsigned_ucast_eq take_bit_nat_eq_self)
  then have u: "uint (ucast v :: u32) = int (unat v)" by (simp only: uint_nat)
  moreover have "sint (ucast v :: u32) = uint (ucast v :: u32)"
    unfolding sint_uint u using assms by (intro signed_take_bit_int_eq_self) (simp_all del: of_nat_unat)
  ultimately show ?thesis by simp
qed

lemma restore_output:
  assumes "unat (v :: u64) < 256"
  shows "RestoreInterrupts (sint (ucast v :: u32)) d = d\<lparr>port_output := port_output d @ end_of_interrupt v\<rparr>"
  unfolding vector_as_int [OF assms] RestoreInterrupts_def end_of_interrupt_def
  by (simp add: IoPorts_WriteByte8_def io_write_def del: of_nat_unat)

text \<open>
  C20. Interrupts nobody has registered for: a vector outside the table leaves the array, an exception
  ends in the panic, and a device interrupt changes nothing but acknowledges itself, to the slave
  controller first when it came from there.
\<close>

theorem unhandled_interrupts:
  assumes "intr_handler s (unat (context_intno rsp (bytes s))) = 0"
  shows "DispatchInterrupts run rsp s =
    (let v = context_intno rsp (bytes s)
     in if 256 \<le> unat v then Inl OutOfBounds
        else if unat v < 32 then Inl (Panic ''System Interrupt'')
        else Inr (rsp, s\<lparr>ports := (ports s)\<lparr>port_output := port_output (ports s) @ end_of_interrupt v\<rparr>\<rparr>))"
  using assms
  by (auto simp: DispatchInterrupts_def Let_def res_simps CallPanic_def word_less_nat_alt on_ports_def restore_output)

theorem unhandled_interrupts_witness:
  "DispatchInterrupts (\<lambda>_ _. Inr) 0x1000 (demo_hw ((\<lambda>_. 0)(0x1078 := 13))) = Inl (Panic ''System Interrupt'')"
proof -
  let ?s = "demo_hw ((\<lambda>_. 0)(0x1078 := 13))"
  have v: "context_intno 0x1000 (bytes ?s) = 13" by (simp add: context_intno_def rd_defs demo_hw_fields)
  have "intr_handler ?s 13 = 0"
    by (simp add: demo_hw_def hw_state.defs slab_state.defs vm_state.defs demo_vm_def)
  with unhandled_interrupts [of ?s "0x1000" "\<lambda>_ _. Inr"] v show ?thesis by (simp add: Let_def)
qed

lemma dispatch_handled:
  assumes "intr_handler s (unat (context_intno rsp (bytes s))) = h" and "h \<noteq> 0"
    and "unat (context_intno rsp (bytes s)) < 256"
  shows "DispatchInterrupts run rsp s =
    bind_res (run h rsp s) (\<lambda>s1. Inr (rsp, on_ports (RestoreInterrupts (sint (ucast (context_intno rsp (bytes s1)) :: u32))) s1))"
  using assms by (simp add: DispatchInterrupts_def Let_def res_simps)

text \<open>
  C18. A handler that has been registered for a vector is the code that runs when that vector
  arrives, on the frame of the interrupt; when it returns with the frame's vector in place, the
  interrupt is acknowledged and the stack pointer handed back.
\<close>

theorem registered_handler_runs:
  assumes "RegisterInterruptHandler num h s = Inr s1" and "h \<noteq> 0"
    and "context_intno rsp (bytes s1) = of_nat num"
    and "run h rsp s1 = Inr s2" and "context_intno rsp (bytes s2) = of_nat num"
  shows "DispatchInterrupts run rsp s1 =
    Inr (rsp, s2\<lparr>ports := (ports s2)\<lparr>port_output := port_output (ports s2) @ end_of_interrupt (of_nat num)\<rparr>\<rparr>)"
proof -
  have n: "num < 256" and s1: "intr_handler s1 num = h"
    using assms(1) by (auto simp: RegisterInterruptHandler_def bind_res_eq_Inr)
  have u: "unat (of_nat num :: u64) = num" using n by (simp only: unat_of_nat) simp
  show ?thesis
    using dispatch_handled [of s1 rsp h run] assms s1 n u by (simp add: on_ports_def restore_output)
qed

theorem registered_handler_runs_witness:
  "\<exists>s1 s2. RegisterInterruptHandler 33 0xFFFFFFFF80100000 (demo_hw ((\<lambda>_. 0)(0x1078 := 33))) = Inr s1 \<and>
     DispatchInterrupts (\<lambda>_ _. Inr) 0x1000 s1 = Inr (0x1000, s2) \<and> port_output (ports s2) = [Out8 0x20 0x20]"
proof -
  let ?s = "demo_hw ((\<lambda>_. 0)(0x1078 := 33))"
  let ?s1 = "?s\<lparr>intr_handler := (intr_handler ?s)(33 := 0xFFFFFFFF80100000)\<rparr>"
  have r: "RegisterInterruptHandler 33 0xFFFFFFFF80100000 ?s = Inr ?s1"
    by (simp add: RegisterInterruptHandler_def res_simps)
  have v: "context_intno 0x1000 (bytes ?s1) = of_nat 33" by (simp add: context_intno_def rd_defs demo_hw_fields)
  have "port_output (ports ?s1) = []" by (simp add: demo_hw_def hw_state.defs slab_state.defs vm_state.defs demo_vm_def)
  with registered_handler_runs [OF r _ v _ v, of "\<lambda>_ _. Inr"] r show ?thesis by (auto simp: end_of_interrupt_def)
qed

text \<open>
  A page fault never returns to the program: the handler that the memory manager registers for
  vector 14 prints its line and halts, and behind an interrupt gate interrupts are off, so the
  processor stays halted.
\<close>

theorem page_fault_halts:
  assumes "RegisterInterruptHandler 14 (PageFaultHandler_at (links s)) s = Inr s1"
    and "PageFaultHandler_at (links s) \<noteq> 0"
    and "context_intno rsp (bytes s1) = 14" and "\<not> irq_on s1"
  shows "DispatchInterrupts (run_kernel other) rsp s1 = Inl CpuHalt"
proof -
  have "intr_handler s1 14 = PageFaultHandler_at (links s1)" "links s1 = links s"
    using assms(1) by (auto simp: RegisterInterruptHandler_def bind_res_eq_Inr)
  then show ?thesis
    using dispatch_handled [of s1 rsp "PageFaultHandler_at (links s)" "run_kernel other"] assms
    by (simp add: run_kernel_def Interrupts_PageFaultHandler_def hlt_def say_def)
qed

theorem page_fault_halts_witness:
  "\<exists>s1. RegisterInterruptHandler 14 (PageFaultHandler_at (links (demo_hw (\<lambda>_. 14)))) (demo_hw ((\<lambda>_. 0)(0x1078 := 14))) = Inr s1 \<and>
     DispatchInterrupts (run_kernel (\<lambda>_ _. Inr)) 0x1000 s1 = Inl CpuHalt"
proof -
  let ?s = "demo_hw ((\<lambda>_. 0)(0x1078 := 14))"
  let ?h = "PageFaultHandler_at (links ?s)"
  let ?s1 = "?s\<lparr>intr_handler := (intr_handler ?s)(14 := ?h)\<rparr>"
  have r: "RegisterInterruptHandler 14 ?h ?s = Inr ?s1"
    by (simp add: RegisterInterruptHandler_def res_simps)
  have v: "context_intno 0x1000 (bytes ?s1) = 14" by (simp add: context_intno_def rd_defs demo_hw_fields)
  have f: "?h \<noteq> 0" "\<not> irq_on ?s1" "links (demo_hw (\<lambda>_. 14)) = links ?s"
    by (simp_all add: demo_hw_def hw_state.defs slab_state.defs vm_state.defs demo_vm_def demo_links_def)
  from page_fault_halts [OF r f(1) v f(2)] r f(3) show ?thesis by auto
qed

text \<open>Vector \<open>32 + i\<close> has been delivered from line \<open>i\<close>, and what runs for it leaves the ports and the frame's vector alone.\<close>

definition quiet_handler ::
  "(u64 \<Rightarrow> u64 \<Rightarrow> 'a hw_state_scheme \<Rightarrow> 'a hw_state_scheme res) \<Rightarrow> u64 \<Rightarrow> u64 \<Rightarrow> 'a hw_state_scheme \<Rightarrow> bool" where
  "quiet_handler run h rsp s \<longleftrightarrow> h = 0 \<or>
     (case run h rsp s of
        Inl e \<Rightarrow> False
      | Inr s1 \<Rightarrow> ports s1 = ports s \<and> context_intno rsp (bytes s1) = context_intno rsp (bytes s))"

lemma dispatch_device:
  assumes "context_intno rsp (bytes s) = of_nat (32 + i)" and "i < 16"
    and "quiet_handler run (intr_handler s (32 + i)) rsp s"
  shows "\<exists>s'. DispatchInterrupts run rsp s = Inr (rsp, s') \<and>
    port_output (ports s') = port_output (ports s) @ end_of_interrupt (of_nat (32 + i))"
proof -
  have u: "unat (of_nat (32 + i) :: u64) = 32 + i" using assms(2) by (simp only: unat_of_nat) simp
  then have n: "\<not> of_nat (32 + i) < (32 :: u64)" "unat (of_nat (32 + i) :: u64) < 256"
    using assms(2) by (simp_all add: word_less_nat_alt del: of_nat_add)
  show ?thesis
    using assms(1,3) u n restore_output [OF n(2)] assms(2)
    by (auto simp: DispatchInterrupts_def quiet_handler_def Let_def res_simps on_ports_def split: sum.splits simp del: of_nat_add)
qed

text \<open>
  C19. An interrupt of one of the sixteen lines is ended for the controllers that have it in
  service: whatever was in service before with lower priority is in service again, and nothing else
  about the two controllers has changed.
\<close>

theorem interrupt_acknowledged:
  assumes "i < 16" and "irq_accepted i c" and "programmed 0x20 m (fst c)" and "programmed 0x28 m' (snd c)"
    and "context_intno rsp (bytes s) = of_nat (irq_vector (fst c) (snd c) i)"
    and "quiet_handler run (intr_handler s (irq_vector (fst c) (snd c) i)) rsp s"
  shows "\<exists>s' ws. DispatchInterrupts run rsp s = Inr (rsp, s') \<and> port_output (ports s') = port_output (ports s) @ ws \<and>
    controllers_after ws (irq_deliver i c) = c"
proof -
  have u: "unat (of_nat (32 + i) :: u64) = 32 + i" using assms(1) by (simp only: unat_of_nat) simp
  have "end_of_interrupt (of_nat (32 + i)) = (if i \<ge> 8 then [Out8 0xA0 0x20] else []) @ [Out8 0x20 0x20]"
    unfolding end_of_interrupt_def u by simp
  moreover have "irq_vector (fst c) (snd c) i = 32 + i" by (rule irq_vector_programmed [OF assms(3,4)])
  ultimately show ?thesis
    using deliver_then_restore [OF assms(1,2)] dispatch_device [of rsp s i run] assms(1,5,6) by (metis (no_types))
qed

theorem interrupt_acknowledged_witness:
  "\<exists>s' ws. DispatchInterrupts (\<lambda>_ _. Inr) 0x1000 (demo_hw ((\<lambda>_. 0)(0x1078 := 44))) = Inr (0x1000, s') \<and>
     controllers_after ws (irq_deliver 12
       (\<lparr>pic_phase = Operating, pic_offset = 0x20, pic_cascade = 4, pic_mode = 1, pic_mask = 0, pic_service = 0x80\<rparr>,
        \<lparr>pic_phase = Operating, pic_offset = 0x28, pic_cascade = 2, pic_mode = 1, pic_mask = 0, pic_service = 0\<rparr>)) =
       (\<lparr>pic_phase = Operating, pic_offset = 0x20, pic_cascade = 4, pic_mode = 1, pic_mask = 0, pic_service = 0x80\<rparr>,
        \<lparr>pic_phase = Operating, pic_offset = 0x28, pic_cascade = 2, pic_mode = 1, pic_mask = 0, pic_service = 0\<rparr>)"
proof -
  let ?s = "demo_hw ((\<lambda>_. 0)(0x1078 := 44))"
  let ?c = "(\<lparr>pic_phase = Operating, pic_offset = 0x20, pic_cascade = 4, pic_mode = 1, pic_mask = 0, pic_service = 0x80\<rparr>,
        \<lparr>pic_phase = Operating, pic_offset = 0x28, pic_cascade = 2, pic_mode = 1, pic_mask = 0, pic_service = 0\<rparr>)"
  have "context_intno 0x1000 (bytes ?s) = of_nat (irq_vector (fst ?c) (snd ?c) 12)"
    by (simp add: context_intno_def rd_defs demo_hw_fields irq_vector_def)
  moreover have "quiet_handler (\<lambda>_ _. Inr) (intr_handler ?s (irq_vector (fst ?c) (snd ?c) 12)) 0x1000 ?s"
    by (simp add: quiet_handler_def)
  moreover have "programmed 0x20 0 (fst ?c)" "programmed 0x28 0 (snd ?c)" by (simp_all add: programmed_def)
  moreover have "irq_accepted 12 ?c"
    by (simp add: irq_accepted_def pic_accepts_def atLeastAtMost_upt upt_rec bit_simps)
  ultimately have "\<exists>s' ws. DispatchInterrupts (\<lambda>_ _. Inr) 0x1000 ?s = Inr (0x1000, s') \<and>
      port_output (ports s') = port_output (ports ?s) @ ws \<and> controllers_after ws (irq_deliver 12 ?c) = ?c"
    by (intro interrupt_acknowledged [where m = 0 and m' = 0]) simp_all
  then show ?thesis by blast
qed

end
