(* ===== verification/Boot_Info.thy ===== *)
theory Boot_Info
  imports Byte_Memory
begin

text \<open>
  What the boot loader hands over: the structures of \<^verbatim>\<open>Kernel/include/boot/bootinfo.h\<close> and the
  reader of the stivale2 tag list in \<^verbatim>\<open>Kernel/arch/x86_64/bootx64.h\<close>.  The tag list is read from
  byte memory at the offsets of the packed structures; the walk along it has fuel, and the results
  say for which lists it returns and what it has collected then.
\<close>

section \<open>Data\<close>

definition MEMORY_MAP_LIMIT :: nat where "MEMORY_MAP_LIMIT = 64"

datatype memory_map_entry_type =
    MemoryMapEntryTypeAvailable
  | MemoryMapEntryTypeReserved
  | MemoryMapEntryTypeAcpiReclaimable
  | MemoryMapEntryTypeNvs
  | MemoryMapEntryTypeBadRam
  | MemoryMapEntryTypeKernel

primrec entry_type_value :: "memory_map_entry_type \<Rightarrow> nat" where
  "entry_type_value MemoryMapEntryTypeAvailable = 0"
| "entry_type_value MemoryMapEntryTypeReserved = 1"
| "entry_type_value MemoryMapEntryTypeAcpiReclaimable = 2"
| "entry_type_value MemoryMapEntryTypeNvs = 3"
| "entry_type_value MemoryMapEntryTypeBadRam = 4"
| "entry_type_value MemoryMapEntryTypeKernel = 5"

record memory_map_entry =
  entry_range :: range_t
  entry_type :: memory_map_entry_type

record boot_mem =
  total_size :: u64
  usable :: u64
  map_size :: u64
  map_entries :: "nat \<Rightarrow> memory_map_entry"

record boot_graphic =
  fb_width :: u16
  fb_height :: u16
  buffer_address :: u64
  fb_pitch :: u16
  bytes_per_pixel :: u16

record boot_info =
  boot_check :: u64
  bl_name :: u64
  boot_memory :: boot_mem
  boot_graphics :: boot_graphic

text \<open>Identifiers and memory types of the stivale2 protocol.\<close>

definition STIVALE2_STRUCT_TAG_MEMMAP_ID :: u64 where "STIVALE2_STRUCT_TAG_MEMMAP_ID = 0x2187f79e8612de07"
definition STIVALE2_STRUCT_TAG_FRAMEBUFFER_ID :: u64 where "STIVALE2_STRUCT_TAG_FRAMEBUFFER_ID = 0x506461d2950408fa"
definition STIVALE2_STRUCT_TAG_MODULES_ID :: u64 where "STIVALE2_STRUCT_TAG_MODULES_ID = 0x4b6fe466aade04ce"
definition STIVALE2_STRUCT_TAG_RSDP_ID :: u64 where "STIVALE2_STRUCT_TAG_RSDP_ID = 0x9e1786930a375e78"

definition STIVALE2_MMAP_USABLE :: u32 where "STIVALE2_MMAP_USABLE = 1"
definition STIVALE2_MMAP_RESERVED :: u32 where "STIVALE2_MMAP_RESERVED = 2"
definition STIVALE2_MMAP_ACPI_RECLAIMABLE :: u32 where "STIVALE2_MMAP_ACPI_RECLAIMABLE = 3"
definition STIVALE2_MMAP_ACPI_NVS :: u32 where "STIVALE2_MMAP_ACPI_NVS = 4"
definition STIVALE2_MMAP_BAD_MEMORY :: u32 where "STIVALE2_MMAP_BAD_MEMORY = 5"
definition STIVALE2_MMAP_BOOTLOADER_RECLAIMABLE :: u32 where "STIVALE2_MMAP_BOOTLOADER_RECLAIMABLE = 0x1000"
definition STIVALE2_MMAP_KERNEL_AND_MODULES :: u32 where "STIVALE2_MMAP_KERNEL_AND_MODULES = 0x1001"
definition STIVALE2_MMAP_FRAMEBUFFER :: u32 where "STIVALE2_MMAP_FRAMEBUFFER = 0x1002"

lemmas stivale2_ids = STIVALE2_STRUCT_TAG_MEMMAP_ID_def STIVALE2_STRUCT_TAG_FRAMEBUFFER_ID_def
  STIVALE2_STRUCT_TAG_MODULES_ID_def STIVALE2_STRUCT_TAG_RSDP_ID_def

lemmas stivale2_types = STIVALE2_MMAP_USABLE_def STIVALE2_MMAP_ACPI_RECLAIMABLE_def STIVALE2_MMAP_ACPI_NVS_def
  STIVALE2_MMAP_BAD_MEMORY_def STIVALE2_MMAP_KERNEL_AND_MODULES_def

text \<open>Members of the structures the loader writes.\<close>

definition struct_tags :: "u64 \<Rightarrow> bmem \<Rightarrow> u64" where "struct_tags st_info m = rd64 (st_info + 128) m"
definition tag_identifier :: "u64 \<Rightarrow> bmem \<Rightarrow> u64" where "tag_identifier tag m = rd64 tag m"
definition tag_next :: "bmem \<Rightarrow> u64 \<Rightarrow> u64" where "tag_next m tag = rd64 (tag + 8) m"
definition memmap_entries :: "u64 \<Rightarrow> bmem \<Rightarrow> u64" where "memmap_entries tag m = rd64 (tag + 16) m"
definition memmap_at :: "u64 \<Rightarrow> nat \<Rightarrow> u64" where "memmap_at tag idx = tag + 24 + 24 * of_nat idx"
definition mmap_base :: "u64 \<Rightarrow> bmem \<Rightarrow> u64" where "mmap_base e m = rd64 e m"
definition mmap_length :: "u64 \<Rightarrow> bmem \<Rightarrow> u64" where "mmap_length e m = rd64 (e + 8) m"
definition mmap_type :: "u64 \<Rightarrow> bmem \<Rightarrow> u32" where "mmap_type e m = rd32 (e + 16) m"

section \<open>Reading the tags\<close>

definition convert_type :: "u32 \<Rightarrow> memory_map_entry_type" where
  "convert_type ty =
     (if ty = STIVALE2_MMAP_USABLE then MemoryMapEntryTypeAvailable
      else if ty = STIVALE2_MMAP_KERNEL_AND_MODULES then MemoryMapEntryTypeKernel
      else if ty = STIVALE2_MMAP_ACPI_RECLAIMABLE then MemoryMapEntryTypeAcpiReclaimable
      else if ty = STIVALE2_MMAP_ACPI_NVS then MemoryMapEntryTypeNvs
      else if ty = STIVALE2_MMAP_BAD_MEMORY then MemoryMapEntryTypeBadRam
      else MemoryMapEntryTypeReserved)"

text \<open>
  One entry of the memory map.  The two comparisons with the largest pointer are those of the
  source; on 64-bit numbers they never hold, because the sum has wrapped before.  The array has
  64 elements.
\<close>

definition UINTPTR_MAX :: u64 where "UINTPTR_MAX = 0xFFFFFFFFFFFFFFFF"

definition parse_entry :: "bmem \<Rightarrow> u64 \<Rightarrow> boot_mem \<Rightarrow> boot_mem res" where
  "parse_entry m e mem_info =
     (if mmap_base e m > UINTPTR_MAX \<or> mmap_base e m + mmap_length e m > UINTPTR_MAX then Inr mem_info
      else
        bind_res (check_index MEMORY_MAP_LIMIT (unat (map_size mem_info))) (\<lambda>_.
        Inr (mem_info\<lparr>
          total_size := total_size mem_info + mmap_length e m,
          usable := (if mmap_type e m = STIVALE2_MMAP_USABLE then usable mem_info + mmap_length e m else usable mem_info),
          map_entries := (map_entries mem_info)(unat (map_size mem_info) :=
            \<lparr>entry_range = \<lparr>range_start = mmap_base e m, range_end = mmap_base e m + mmap_length e m\<rparr>,
             entry_type = convert_type (mmap_type e m)\<rparr>),
          map_size := map_size mem_info + 1\<rparr>)))"

fun parse_entries :: "nat \<Rightarrow> nat \<Rightarrow> bmem \<Rightarrow> u64 \<Rightarrow> boot_mem \<Rightarrow> boot_mem res" where
  "parse_entries 0 idx m tag mem_info = Inr mem_info"
| "parse_entries (Suc n) idx m tag mem_info =
     bind_res (parse_entry m (memmap_at tag idx) mem_info) (parse_entries n (Suc idx) m tag)"

definition parse_framebuffer :: "bmem \<Rightarrow> u64 \<Rightarrow> boot_graphic \<Rightarrow> boot_graphic" where
  "parse_framebuffer m tag graphic =
     graphic\<lparr>fb_width := rd16 (tag + 24) m, fb_height := rd16 (tag + 26) m, buffer_address := rd64 (tag + 16) m,
       fb_pitch := rd16 (tag + 28) m, bytes_per_pixel := rd16 (tag + 30) m\<rparr>"

definition parse_tag :: "bmem \<Rightarrow> u64 \<Rightarrow> boot_info \<Rightarrow> boot_info res" where
  "parse_tag m tag info =
     (if tag_identifier tag m = STIVALE2_STRUCT_TAG_MEMMAP_ID
      then bind_res (parse_entries (unat (memmap_entries tag m)) 0 m tag (boot_memory info))
             (\<lambda>mem_info. Inr (info\<lparr>boot_memory := mem_info\<rparr>))
      else if tag_identifier tag m = STIVALE2_STRUCT_TAG_FRAMEBUFFER_ID
      then Inr (info\<lparr>boot_graphics := parse_framebuffer m tag (boot_graphics info)\<rparr>)
      else if tag_identifier tag m = STIVALE2_STRUCT_TAG_MODULES_ID then Inr info
      else if tag_identifier tag m = STIVALE2_STRUCT_TAG_RSDP_ID then Inr info
      else Inr info)"

fun parse_tags :: "nat \<Rightarrow> bmem \<Rightarrow> u64 \<Rightarrow> boot_info \<Rightarrow> boot_info res" where
  "parse_tags 0 m tag info = Inl OutOfFuel"
| "parse_tags (Suc fuel) m tag info =
     (if tag \<noteq> 0 then bind_res (parse_tag m tag info) (parse_tags fuel m (tag_next m tag)) else Inr info)"

definition ParseStivale2Info :: "nat \<Rightarrow> u64 \<Rightarrow> bmem \<Rightarrow> boot_info \<Rightarrow> boot_info res" where
  "ParseStivale2Info fuel st_info m info =
     (if st_info = 0 then Inl NullDeref
      else bind_res (parse_tags fuel m (struct_tags st_info m) info)
             (\<lambda>info. Inr (info\<lparr>boot_check := 0xDEADC0DE\<rparr>)))"

definition ParseMultiboot2Info :: "u64 \<Rightarrow> boot_info \<Rightarrow> boot_info" where
  "ParseMultiboot2Info mb_info info = info"

section \<open>What the walk should collect\<close>

text \<open>The tags of a list that ends, and the entries of all its memory maps in order.\<close>

fun tag_chain :: "bmem \<Rightarrow> u64 \<Rightarrow> u64 list \<Rightarrow> bool" where
  "tag_chain m a [] \<longleftrightarrow> a = 0"
| "tag_chain m a (t # ts) \<longleftrightarrow> a = t \<and> t \<noteq> 0 \<and> tag_chain m (tag_next m t) ts"

definition tag_entries :: "bmem \<Rightarrow> u64 \<Rightarrow> u64 list" where
  "tag_entries m t =
     (if tag_identifier t m = STIVALE2_STRUCT_TAG_MEMMAP_ID then map (memmap_at t) [0..<unat (memmap_entries t m)] else [])"

definition all_entries :: "bmem \<Rightarrow> u64 list \<Rightarrow> u64 list" where
  "all_entries m ts = concat (map (tag_entries m) ts)"

definition decode_entry :: "bmem \<Rightarrow> u64 \<Rightarrow> memory_map_entry" where
  "decode_entry m e =
     \<lparr>entry_range = \<lparr>range_start = mmap_base e m, range_end = mmap_base e m + mmap_length e m\<rparr>,
      entry_type = convert_type (mmap_type e m)\<rparr>"

definition collected :: "boot_mem \<Rightarrow> memory_map_entry list" where
  "collected b = map (map_entries b) [0..<unat (map_size b)]"

text \<open>A memory map after the entries \<open>es\<close> have been added.\<close>

definition extends_by :: "bmem \<Rightarrow> u64 list \<Rightarrow> boot_mem \<Rightarrow> boot_mem \<Rightarrow> bool" where
  "extends_by m es b b' \<longleftrightarrow>
     collected b' = collected b @ map (decode_entry m) es \<and>
     total_size b' = total_size b + sum_list (map (\<lambda>e. mmap_length e m) es) \<and>
     usable b' = usable b + sum_list (map (\<lambda>e. mmap_length e m) (filter (\<lambda>e. mmap_type e m = STIVALE2_MMAP_USABLE) es)) \<and>
     unat (map_size b') = unat (map_size b) + length es"

section \<open>Results\<close>

lemma pointer_max [simp]: "\<not> x > UINTPTR_MAX"
proof -
  have "UINTPTR_MAX = - 1" by (simp add: UINTPTR_MAX_def)
  then show ?thesis by (metis not_less word_order.extremum)
qed

lemma parse_entry_room:
  assumes "unat (map_size b) < 64"
  shows "\<exists>b'. parse_entry m e b = Inr b' \<and> extends_by m [e] b b'"
proof -
  have "unat (map_size b + 1) = unat (map_size b) + 1"
    using assms by (intro unat_plus_one) simp
  then show ?thesis
    using assms by (simp add: parse_entry_def MEMORY_MAP_LIMIT_def res_simps extends_by_def collected_def decode_entry_def)
qed

lemma extends_by_Nil [simp]: "extends_by m [] b b"
  by (simp add: extends_by_def)

lemma extends_by_trans: "extends_by m es b b' \<Longrightarrow> extends_by m es' b' b'' \<Longrightarrow> extends_by m (es @ es') b b''"
  by (simp add: extends_by_def add.assoc)

lemma parse_entries_run:
  assumes "unat (map_size b) \<le> 64"
  shows "if unat (map_size b) + n \<le> 64
    then \<exists>b'. parse_entries n idx m tag b = Inr b' \<and> extends_by m (map (memmap_at tag) [idx..<idx + n]) b b'
    else parse_entries n idx m tag b = Inl OutOfBounds"
  using assms
proof (induction n arbitrary: idx b)
  case (Suc n)
  show ?case
  proof (cases "unat (map_size b) < 64")
    case True
    obtain b1 where b1: "parse_entry m (memmap_at tag idx) b = Inr b1" "extends_by m [memmap_at tag idx] b b1"
      using parse_entry_room [OF True] by blast
    have sz: "unat (map_size b1) = unat (map_size b) + 1" using b1(2) by (simp add: extends_by_def)
    show ?thesis
    proof (cases "unat (map_size b) + Suc n \<le> 64")
      case fits: True
      obtain b2 where "parse_entries n (Suc idx) m tag b1 = Inr b2"
          "extends_by m (map (memmap_at tag) [Suc idx..<Suc idx + n]) b1 b2"
        using Suc.IH [of b1 "Suc idx"] sz True fits by auto
      moreover have "[idx..<idx + Suc n] = idx # [Suc idx..<Suc idx + n]" by (simp add: upt_conv_Cons del: upt_Suc)
      ultimately show ?thesis
        using b1 extends_by_trans [OF b1(2)] fits by (simp del: upt_Suc)
    next
      case False
      then have "parse_entries n (Suc idx) m tag b1 = Inl OutOfBounds"
        using Suc.IH [of b1 "Suc idx"] sz True by (simp split: if_splits)
      then show ?thesis using False b1(1) by simp
    qed
  next
    case False
    then show ?thesis
      using Suc.prems by (simp add: parse_entry_def MEMORY_MAP_LIMIT_def res_simps)
  qed
qed simp

lemma tag_entries_length: "length (tag_entries m t) =
   (if tag_identifier t m = STIVALE2_STRUCT_TAG_MEMMAP_ID then unat (memmap_entries t m) else 0)"
  by (simp add: tag_entries_def)

lemma parse_tag_run:
  assumes "unat (map_size (boot_memory info)) \<le> 64"
  shows "if unat (map_size (boot_memory info)) + length (tag_entries m t) \<le> 64
    then \<exists>info'. parse_tag m t info = Inr info' \<and> extends_by m (tag_entries m t) (boot_memory info) (boot_memory info')
    else parse_tag m t info = Inl OutOfBounds"
proof (cases "tag_identifier t m = STIVALE2_STRUCT_TAG_MEMMAP_ID")
  case True
  then show ?thesis
    using parse_entries_run [OF assms, of "unat (memmap_entries t m)" 0 m t]
    by (auto simp: parse_tag_def tag_entries_def split: if_splits)
next
  case False
  then show ?thesis using assms by (auto simp: parse_tag_def tag_entries_def)
qed

lemma parse_tags_run:
  assumes "tag_chain m a ts" and "length ts < fuel" and "unat (map_size (boot_memory info)) \<le> 64"
  shows "if unat (map_size (boot_memory info)) + length (all_entries m ts) \<le> 64
    then \<exists>info'. parse_tags fuel m a info = Inr info' \<and> extends_by m (all_entries m ts) (boot_memory info) (boot_memory info')
    else parse_tags fuel m a info = Inl OutOfBounds"
  using assms
proof (induction ts arbitrary: a fuel info)
  case Nil
  then show ?case by (cases fuel) (simp_all add: all_entries_def)
next
  case (Cons t ts)
  obtain k where k: "fuel = Suc k" using Cons.prems(2) by (cases fuel) simp_all
  have t: "a = t" "t \<noteq> 0" "tag_chain m (tag_next m t) ts" using Cons.prems(1) by simp_all
  have all: "all_entries m (t # ts) = tag_entries m t @ all_entries m ts" by (simp add: all_entries_def)
  show ?case
  proof (cases "unat (map_size (boot_memory info)) + length (tag_entries m t) \<le> 64")
    case True
    obtain info1 where i1: "parse_tag m t info = Inr info1"
        "extends_by m (tag_entries m t) (boot_memory info) (boot_memory info1)"
      using parse_tag_run [OF Cons.prems(3), of m t] True by auto
    have sz: "unat (map_size (boot_memory info1)) = unat (map_size (boot_memory info)) + length (tag_entries m t)"
      using i1(2) by (simp add: extends_by_def)
    show ?thesis
      using Cons.IH [OF t(3), of k info1] Cons.prems(2) k True sz i1 t extends_by_trans [OF i1(2)]
      by (auto simp: all add.assoc split: if_splits)
  next
    case False
    then show ?thesis using parse_tag_run [OF Cons.prems(3), of m t] t k by (simp add: all)
  qed
qed

section \<open>Properties\<close>


text \<open>A memory map with a single entry: 64 MiB of usable memory from 1 MiB on.\<close>

definition demo_boot :: bmem where
  "demo_boot = (\<lambda>_. 0)(0x1081 := 0x20, 0x2000 := 0x07, 0x2001 := 0xde, 0x2002 := 0x12, 0x2003 := 0x86,
     0x2004 := 0x9e, 0x2005 := 0xf7, 0x2006 := 0x87, 0x2007 := 0x21, 0x2010 := 1, 0x201a := 0x10, 0x2023 := 4, 0x2028 := 1)"

definition zero_boot :: boot_info where
  "zero_boot = \<lparr>boot_check = 0, bl_name = 0,
     boot_memory = \<lparr>total_size = 0, usable = 0, map_size = 0,
       map_entries = (\<lambda>_. \<lparr>entry_range = \<lparr>range_start = 0, range_end = 0\<rparr>, entry_type = MemoryMapEntryTypeAvailable\<rparr>)\<rparr>,
     boot_graphics = \<lparr>fb_width = 0, fb_height = 0, buffer_address = 0, fb_pitch = 0, bytes_per_pixel = 0\<rparr>\<rparr>"

lemma demo_boot_tags:
  "struct_tags 0x1000 demo_boot = 0x2000" "tag_next demo_boot 0x2000 = 0" "memmap_entries 0x2000 demo_boot = 1"
  "tag_identifier 0x2000 demo_boot = STIVALE2_STRUCT_TAG_MEMMAP_ID"
  by (simp_all add: demo_boot_def struct_tags_def tag_next_def memmap_entries_def tag_identifier_def rd_defs stivale2_ids)


text \<open>
  A tag list that never reaches a NULL pointer, for example one with a cycle, keeps the reader
  going for ever.
\<close>

theorem stivale2_endless_list:
  assumes "\<And>k. (tag_next m ^^ k) (struct_tags st_info m) \<noteq> 0"
  shows "\<nexists>info'. ParseStivale2Info fuel st_info m info = Inr info'"
proof -
  have "parse_tags fuel m a info \<noteq> Inr info'" if "\<And>k. (tag_next m ^^ k) a \<noteq> 0" for a info'
    using that
  proof (induction fuel arbitrary: a info)
    case (Suc fuel)
    have "a \<noteq> 0" using Suc.prems [of 0] by simp
    moreover have "(tag_next m ^^ k) (tag_next m a) \<noteq> 0" for k
      using Suc.prems [of "Suc k"] by (simp add: funpow_swap1)
    ultimately show ?case using Suc.IH by (auto simp: bind_res_eq_Inr)
  qed simp
  then show ?thesis using assms by (auto simp: ParseStivale2Info_def bind_res_eq_Inr)
qed

theorem stivale2_endless_list_witness:
  "\<nexists>info'. ParseStivale2Info 1000 0x1000 ((\<lambda>_. 0)(0x1081 := 0x20, 0x2009 := 0x20)) zero_boot = Inr info'"
proof -
  let ?m = "(\<lambda>_. 0)(0x1081 := 0x20, 0x2009 := 0x20) :: bmem"
  have "(tag_next ?m ^^ k) 0x2000 = 0x2000" for k
    by (induction k) (simp_all add: tag_next_def rd_defs)
  then have "(tag_next ?m ^^ k) (struct_tags 0x1000 ?m) \<noteq> 0" for k
    by (simp add: struct_tags_def rd_defs)
  then show ?thesis by (rule stivale2_endless_list)
qed

end
