(* ===== verification/Kernel_Init.thy ===== *)
theory Kernel_Init
  imports Process Smbios Interrupts Boot_Info "HOL-Library.Multiset"
begin

text \<open>
  Start-up: \<^verbatim>\<open>MemoryInitialize\<close> of \<^verbatim>\<open>Kernel/src/mm/memory.c\<close> and the entry points of
  \<^verbatim>\<open>Kernel/arch/x86_64/bootx64.c\<close>, which call the operations of all other components in the order
  of the source.  The results are about the treatment of the memory map: the six passes over it
  amount to one pass over the entries sorted by their type, and the statistics are the sums of the
  sizes.
\<close>

section \<open>State\<close>

record mem_stats =
  ms_total :: u64
  ms_available :: u64
  ms_present :: u64
  ms_swapped :: u64
  ms_inuse :: u64
  ms_standby :: u64
  ms_cached :: u64
  ms_allocated :: u64

definition zero_stats :: mem_stats where
  "zero_stats = \<lparr>ms_total = 0, ms_available = 0, ms_present = 0, ms_swapped = 0, ms_inuse = 0, ms_standby = 0,
     ms_cached = 0, ms_allocated = 0\<rparr>"

record init_state = proc_state +
  bootInfo :: boot_info
  g_mem_stats :: mem_stats

text \<open>
  What the code takes from its surroundings: the memory behind the descriptors of frames, the
  contents of uninitialised variables, the interrupt stubs, the \<^verbatim>\<open>cpuid\<close> instruction, and the fuel of
  the loops.
\<close>

record boot_env = alloc_env +
  env_chunks :: nat
  env_ram :: "u64 \<Rightarrow> pageframe"
  env_current :: u64
  env_sizes :: "nat \<Rightarrow> int"
  env_first :: u64
  env_stubs :: "nat \<Rightarrow> u64"
  env_cpuid :: "u32 \<Rightarrow> u32 \<times> u32 \<times> u32"
  env_walk :: nat

definition GetBootInfo :: "'a init_state_scheme \<Rightarrow> boot_info" where
  "GetBootInfo s = bootInfo s"

section \<open>The memory map\<close>

definition entry_size :: "memory_map_entry \<Rightarrow> u64" where
  "entry_size e = range_end (entry_range e) - range_start (entry_range e)"

definition memory_entry ::
  "'e boot_env_scheme \<Rightarrow> memory_map_entry \<Rightarrow> mem_stats \<times> 'a vm_state_scheme \<Rightarrow> (mem_stats \<times> 'a vm_state_scheme) res" where
  "memory_entry env e x =
     (let (st, s) = x in
      case entry_type e of
        MemoryMapEntryTypeAvailable \<Rightarrow>
          let st1 = st\<lparr>ms_available := ms_available st + entry_size e\<rparr> in
          bind_res (PM_LoadZoneRange (env_chunks env) (env_fuel env) (env_ram env) (entry_range e)
                      (say ''[MEMORY] Load memory free entry.'' s)) (\<lambda>s1. Inr (st1, s1))
      | MemoryMapEntryTypeReserved \<Rightarrow> Inr (st, s)
      | MemoryMapEntryTypeAcpiReclaimable \<Rightarrow> Inr (st, s)
      | MemoryMapEntryTypeNvs \<Rightarrow> Inr (st, s)
      | MemoryMapEntryTypeBadRam \<Rightarrow> Inr (st, s)
      | MemoryMapEntryTypeKernel \<Rightarrow>
          bind_res (PM_MarkPagesUsed (env_fuel env) (env_current env)
                      \<lparr>range_start = ALIGN_DOWN (range_start (entry_range e)) ARCH_PAGE_SIZE,
                       range_end = ALIGN_UP (range_end (entry_range e)) ARCH_PAGE_SIZE\<rparr>
                      (say ''[MEMORY] Load memory kernel or module entry.'' s)) (\<lambda>s1.
          Inr (st\<lparr>ms_allocated := ms_allocated st + entry_size e, ms_inuse := ms_inuse st + entry_size e\<rparr>, s1)))"

text \<open>One pass: the entries from \<open>idx\<close> on, those of another type are skipped.\<close>

fun memory_pass ::
  "(memory_map_entry \<Rightarrow> 'x \<Rightarrow> 'x res) \<Rightarrow> boot_mem \<Rightarrow> nat \<Rightarrow> nat \<Rightarrow> nat \<Rightarrow> 'x \<Rightarrow> 'x res" where
  "memory_pass step bm ty 0 idx x = Inr x"
| "memory_pass step bm ty (Suc n) idx x =
     bind_res (check_index MEMORY_MAP_LIMIT idx) (\<lambda>_.
     let e = map_entries bm idx in
     bind_res (if entry_type_value (entry_type e) \<noteq> ty then Inr x else step e x) (memory_pass step bm ty n (Suc idx)))"

fun memory_passes ::
  "(memory_map_entry \<Rightarrow> 'x \<Rightarrow> 'x res) \<Rightarrow> boot_mem \<Rightarrow> nat \<Rightarrow> nat \<Rightarrow> 'x \<Rightarrow> 'x res" where
  "memory_passes step bm 0 ty x = Inr x"
| "memory_passes step bm (Suc n) ty x =
     bind_res (memory_pass step bm ty (unat (map_size bm)) 0 x) (memory_passes step bm n (ty + 1))"

fun count_available :: "boot_mem \<Rightarrow> nat \<Rightarrow> nat \<Rightarrow> nat \<Rightarrow> nat res" where
  "count_available bm 0 i cnt = Inr cnt"
| "count_available bm (Suc n) i cnt =
     bind_res (check_index MEMORY_MAP_LIMIT i) (\<lambda>_.
     count_available bm n (Suc i)
       (if entry_type_value (entry_type (map_entries bm i)) = 0 then cnt + 1 else cnt))"

definition MemoryInitialize :: "'e boot_env_scheme \<Rightarrow> 'a init_state_scheme \<Rightarrow> 'a init_state_scheme res" where
  "MemoryInitialize env s =
     (let alloc = AllocatePages (env_fuel env) in
      bind_res (LoadVirtualMemory (env_fuel env) s) (\<lambda>s1.
      bind_res (VM_AllocatePages alloc (PR_GetKernelProcess s1) 1 s1) (\<lambda>(t_addr, s2).
      bind_res (MapVirtualAddress alloc (VM_GetKernelPages s2) 0xb8000 t_addr 1 PAGE_FLAG_WRITABLE s2) (\<lambda>s3.
      let s4 = s3\<lparr>tty := set_t_buffer t_addr (tty s3)\<rparr>;
          s5 = VM_SwitchPageTable (VM_GetKernelPages s4) s4;
          bm = boot_memory (GetBootInfo s5);
          st = zero_stats\<lparr>ms_total := total_size bm\<rparr>
      in
      bind_res (count_available bm (unat (map_size bm)) 0 0) (\<lambda>_.
      bind_res (memory_passes (memory_entry env) bm 6 0 (st, s5)) (\<lambda>(st1, s6).
      let s7 = s6\<lparr>g_mem_stats := st1\<rparr> in
      bind_res (MapVirtualAddress alloc (VM_GetKernelPages s7) 0 KERNEL_LOW_4GB 0x100000
                  (PAGE_FLAG_PRESENT OR PAGE_FLAG_WRITABLE) s7) (\<lambda>s8.
      bind_res (KM_Initialize (env_fuel env) (env_sizes env) (env_first env) s8) (\<lambda>s9.
      Inr (say ''[MEMORY] OK!'' s9)))))))))"

section \<open>Entry points\<close>

text \<open>The test of \<^verbatim>\<open>bootInfo.check\<close> has an empty body.\<close>

definition ArchitectureInitialize :: "'e boot_env_scheme \<Rightarrow> 'a init_state_scheme \<Rightarrow> 'a init_state_scheme res" where
  "ArchitectureInitialize env s =
     (let s1 = on_cpu DisableInterrupts s;
          s2 = say ''[GDT] OK!'' (s1\<lparr>descs := LoadGlobalDescTable (descs s1)\<rparr>);
          s3 = say ''[IDT] OK!'' (s2\<lparr>descs := LoadInterruptDescTable (env_stubs env) (descs s2)\<rparr>)
      in
      bind_res (MemoryInitialize env s3) (\<lambda>s4.
      let s5 = say ''[PIC] OK!'' (on_ports PIC_Initialize s4) in
      bind_res (PIT_Initialize 1000 (ports s5)) (\<lambda>io.
      let s6 = on_cpu EnableInterrupts (say ''[PIT] OK!'' (s5\<lparr>ports := io\<rparr>));
          cpuid = CPUID (env_cpuid env)
      in
      bind_res (ACPI_Initialize (env_walk env) s6) (\<lambda>s7.
      let s8 = say ''[ACPI] OK!'' s7 in
      bind_res
        (if info_edx cpuid AND CPUID_EDX_APIC \<noteq> 0
         then
           let s9 = say ''[Local APIC] OK!'' (LAPIC_Initialize (on_ports PIC_Disable s8)) in
           bind_res (IOAPIC_Initialize s9) (\<lambda>s10. Inr (say ''[I/O APIC] OK!'' s10))
         else Inr (say ''[APIC] Not Present.'' s8)) (\<lambda>s11.
      bind_res (SMBIOS_Initialize s11) (\<lambda>_.
      let s12 = say ''[SMBIOS] OK!'' s11 in
      bind_res (SMP_Initialize (env_jumps env) (env_fuel env) (env_junk env) (env_cache env) s12) (\<lambda>s13.
      let s14 = say ''[KRNL] Start to load generic kernel components.'' (say ''[SMP] OK!'' s13) in
      bind_res (KernelInitialize s14) hlt)))))))"

definition kload_multiboot2 :: "u64 \<Rightarrow> 'a init_state_scheme \<Rightarrow> 'a init_state_scheme res" where
  "kload_multiboot2 addr s = Inl CpuHalt"

definition kload_stivale2 :: "'e boot_env_scheme \<Rightarrow> u64 \<Rightarrow> 'a init_state_scheme \<Rightarrow> 'a init_state_scheme res" where
  "kload_stivale2 env addr s =
     bind_res (ParseStivale2Info (env_walk env) addr (bytes s) (bootInfo s)) (\<lambda>info.
     bind_res (ArchitectureInitialize env (s\<lparr>bootInfo := info\<rparr>)) (\<lambda>_. Inl CpuHalt))"

section \<open>The passes as one pass over a sorted list\<close>

text \<open>The types of entries in the order of the enumeration.\<close>

lemma entry_type_value_inject: "entry_type_value a = entry_type_value b \<longleftrightarrow> a = b"
  by (cases a; cases b) simp_all

instantiation memory_map_entry_type :: linorder
begin

definition less_eq_memory_map_entry_type :: "memory_map_entry_type \<Rightarrow> memory_map_entry_type \<Rightarrow> bool" where
  "a \<le> b \<longleftrightarrow> entry_type_value a \<le> entry_type_value b"

definition less_memory_map_entry_type :: "memory_map_entry_type \<Rightarrow> memory_map_entry_type \<Rightarrow> bool" where
  "a < b \<longleftrightarrow> entry_type_value a < entry_type_value b"

instance
  by intro_classes
    (auto simp: less_eq_memory_map_entry_type_def less_memory_map_entry_type_def entry_type_value_inject)

end

fun run_list :: "('e \<Rightarrow> 'x \<Rightarrow> 'x res) \<Rightarrow> 'e list \<Rightarrow> 'x \<Rightarrow> 'x res" where
  "run_list step [] x = Inr x"
| "run_list step (e # es) x = bind_res (step e x) (run_list step es)"

lemma run_list_append: "run_list step (xs @ ys) x = bind_res (run_list step xs x) (run_list step ys)"
proof (induction xs arbitrary: x)
  case (Cons a xs)
  have "run_list step (xs @ ys) = (\<lambda>x. bind_res (run_list step xs x) (run_list step ys))" using Cons.IH by (intro ext)
  then show ?case by (simp add: bind_res_assoc)
qed simp

lemma memory_pass_run:
  "idx + n \<le> 64 \<Longrightarrow> memory_pass step bm ty n idx x =
     run_list step (filter (\<lambda>e. entry_type_value (entry_type e) = ty) (map (map_entries bm) [idx..<idx + n])) x"
proof (induction n arbitrary: idx x)
  case (Suc n)
  have "[idx..<idx + Suc n] = idx # [Suc idx..<Suc idx + n]" by (simp add: upt_rec)
  moreover have "memory_pass step bm ty n (Suc idx) =
      run_list step (filter (\<lambda>e. entry_type_value (entry_type e) = ty) (map (map_entries bm) [Suc idx..<Suc idx + n]))"
    using Suc by (intro ext) simp
  ultimately show ?case using Suc.prems by (simp add: res_simps MEMORY_MAP_LIMIT_def Let_def del: upt_Suc)
qed simp

definition entry_rank :: "memory_map_entry \<Rightarrow> nat" where
  "entry_rank e = entry_type_value (entry_type e)"

lemma entry_rank_less: "entry_rank e < 6"
  by (cases "entry_type e") (simp_all add: entry_rank_def)

lemma memory_passes_run:
  assumes "unat (map_size bm) \<le> 64" and "k + n \<le> 6"
  shows "memory_passes step bm n k x =
    run_list step (concat (map (\<lambda>t. filter (\<lambda>e. entry_rank e = t) (collected bm)) [k..<k + n])) x"
  using assms(2)
proof (induction n arbitrary: k x)
  case (Suc n)
  have "entry_type_value (entry_type e) = k \<longleftrightarrow> entry_rank e = k" for e by (simp add: entry_rank_def)
  moreover have "[k..<k + Suc n] = k # [Suc k..<Suc k + n]" by (simp add: upt_rec)
  moreover have "memory_passes step bm n (Suc k) =
      run_list step (concat (map (\<lambda>t. filter (\<lambda>e. entry_rank e = t) (collected bm)) [Suc k..<Suc k + n]))"
    using Suc.IH [of "Suc k"] Suc.prems by (intro ext) simp
  ultimately show ?case
    using memory_pass_run [of 0 "unat (map_size bm)" step bm k x] assms(1)
    by (simp add: run_list_append collected_def del: upt_Suc)
qed simp

lemma sort_by_rank:
  assumes "\<And>x. x \<in> set xs \<Longrightarrow> f x < (n :: nat)"
  shows "concat (map (\<lambda>t. filter (\<lambda>x. f x = t) xs) [0..<n]) = sort_key f xs"
proof (rule sym, rule properties_for_sort_key)
  let ?ys = "concat (map (\<lambda>t. filter (\<lambda>x. f x = t) xs) [0..<n])"
  have part: "filter (\<lambda>x. f x = k) (concat (map (\<lambda>t. filter (\<lambda>x. f x = t) xs) [0..<m])) =
      (if k < m then filter (\<lambda>x. f x = k) xs else [])" for k m
    by (induction m) (auto simp: filter_empty_conv less_Suc_eq intro: filter_cong)
  show "mset ?ys = mset xs"
  proof (rule multiset_eqI)
    fix a
    have "count (mset ?ys) a = count (mset (filter (\<lambda>x. f x = f a) ?ys)) a" by (simp add: count_mset count_list_eq_length_filter)
    also have "\<dots> = count (mset xs) a"
      unfolding part using assms by (auto simp: count_mset_0_iff count_list_0_iff)
    finally show "count (mset ?ys) a = count (mset xs) a" .
  qed
  show "filter (\<lambda>x. f k = f x) ?ys = filter (\<lambda>x. f k = f x) xs" if "k \<in> set ?ys" for k
    using part [of "f k" n] that assms by (auto simp: eq_commute [of "f k"])
  have "sorted (map f (filter (\<lambda>x. f x = m) ys))" for m ys by (induction ys) auto
  then have "sorted (map f (concat (map (\<lambda>t. filter (\<lambda>x. f x = t) xs) [0..<m])))" for m
    by (induction m) (auto simp: sorted_append)
  then show "sorted (map f ?ys)" .
qed

lemma sort_key_same_order:
  assumes "\<And>a b. f a \<le> f b \<longleftrightarrow> g a \<le> g b"
  shows "sort_key f xs = sort_key g xs"
proof -
  have "insort_key f x ys = insort_key g x ys" for x ys using assms by (induction ys) auto
  then show ?thesis by (induction xs) simp_all
qed

lemma sort_by_type: "sort_key entry_rank es = sort_key entry_type es"
  by (rule sort_key_same_order) (simp add: entry_rank_def less_eq_memory_map_entry_type_def)

lemma passes_sorted:
  "unat (map_size bm) \<le> 64 \<Longrightarrow> memory_passes step bm 6 0 x = run_list step (sort_key entry_type (collected bm)) x"
  using memory_passes_run [of bm 0 6 step x] sort_by_rank [of "collected bm" entry_rank 6] entry_rank_less sort_by_type [of "collected bm"]
  by (simp del: memory_passes.simps upt_Suc)

text \<open>
  C10. The six passes over the memory map do the same as one pass over the entries sorted by type,
  entries of one type in the order of the map: all free memory is loaded before memory of the kernel
  is marked as used, and no entry is treated twice or left out.
\<close>

theorem memory_map_sorted_by_type:
  assumes "unat (map_size bm) \<le> 64"
  shows "memory_passes (memory_entry env) bm 6 0 x = run_list (memory_entry env) (sort_key entry_type (collected bm)) x"
  by (rule passes_sorted [OF assms])

definition of_type :: "memory_map_entry_type \<Rightarrow> memory_map_entry list \<Rightarrow> u64" where
  "of_type ty es = sum_list (map entry_size (filter (\<lambda>e. entry_type e = ty) es))"

lemma run_list_stats:
  "run_list (memory_entry env) es (st, s) = Inr (st', s') \<Longrightarrow>
   st' = st\<lparr>ms_available := ms_available st + of_type MemoryMapEntryTypeAvailable es,
     ms_allocated := ms_allocated st + of_type MemoryMapEntryTypeKernel es,
     ms_inuse := ms_inuse st + of_type MemoryMapEntryTypeKernel es\<rparr>"
proof (induction es arbitrary: st s)
  case (Cons e es)
  then obtain st1 s1 where "memory_entry env e (st, s) = Inr (st1, s1)"
    "run_list (memory_entry env) es (st1, s1) = Inr (st', s')"
    by (auto simp: bind_res_eq_Inr)
  with Cons.IH [OF this(2)] show ?case
    by (cases "entry_type e") (auto simp: memory_entry_def bind_res_eq_Inr of_type_def)
qed (simp add: of_type_def)

lemma sum_list_sorted: "sum_list (map g (filter P (sort_key f xs))) = (sum_list (map g (filter P xs)) :: 'a :: comm_monoid_add)"
proof -
  have "mset (map g (filter P (sort_key f xs))) = mset (map g (filter P xs))" by simp
  then show ?thesis by (metis sum_mset_sum_list)
qed

text \<open>
  The statistics after the memory map has been treated: the available memory is the sum of the
  sizes of the free entries, allocated memory and memory in use are the sum of the entries of
  the kernel, everything modulo \<open>2 ^ 64\<close>, and nothing else is counted.
\<close>

theorem memory_statistics:
  assumes "unat (map_size bm) \<le> 64"
    and "memory_passes (memory_entry env) bm 6 0 (zero_stats\<lparr>ms_total := total_size bm\<rparr>, s) = Inr (st, s')"
  shows "st = zero_stats\<lparr>ms_total := total_size bm,
    ms_available := of_type MemoryMapEntryTypeAvailable (collected bm),
    ms_allocated := of_type MemoryMapEntryTypeKernel (collected bm),
    ms_inuse := of_type MemoryMapEntryTypeKernel (collected bm)\<rparr>"
proof -
  have "run_list (memory_entry env) (sort_key entry_type (collected bm)) (zero_stats\<lparr>ms_total := total_size bm\<rparr>, s) = Inr (st, s')"
    using assms(2) unfolding passes_sorted [OF assms(1)] .
  from run_list_stats [OF this] show ?thesis by (simp add: of_type_def sum_list_sorted zero_stats_def)
qed

section \<open>A small memory map\<close>

text \<open>A reserved page, a free page that is too small to be loaded, and another reserved page.\<close>

definition demo_map :: boot_mem where
  "demo_map = \<lparr>total_size = 0x3000, usable = 0x1000, map_size = 3,
     map_entries = (\<lambda>i. \<lparr>entry_range = \<lparr>range_start = 0x1000 * of_nat i, range_end = 0x1000 * of_nat i + 0x1000\<rparr>,
       entry_type = (if i = 1 then MemoryMapEntryTypeAvailable else MemoryMapEntryTypeReserved)\<rparr>)\<rparr>"

definition demo_env :: boot_env where
  "demo_env = alloc_env.extend \<lparr>env_jumps = 1, env_fuel = 1, env_junk = 0, env_cache = 0\<rparr>
     (boot_env.fields 1 (\<lambda>_. demo_frame) 0 (\<lambda>_. 0) 0 (\<lambda>_. 0) (\<lambda>_. (0, 0, 0)) 1)"

lemma demo_map_collected: "collected demo_map = map (map_entries demo_map) [0, 1, 2]"
  by (simp add: collected_def demo_map_def upt_rec)

theorem memory_map_sorted_by_type_witness:
  "memory_passes (memory_entry demo_env) demo_map 6 0 (zero_stats, demo_vm) =
     run_list (memory_entry demo_env) (map (map_entries demo_map) [1, 0, 2]) (zero_stats, demo_vm)"
proof -
  have "unat (map_size demo_map) \<le> 64" by (simp add: demo_map_def)
  moreover have "sort_key entry_type (collected demo_map) = map (map_entries demo_map) [1, 0, 2]"
    by (simp add: demo_map_collected less_eq_memory_map_entry_type_def) (simp add: demo_map_def)
  ultimately show ?thesis using memory_map_sorted_by_type [of demo_map demo_env "(zero_stats, demo_vm)"] by simp
qed

theorem memory_statistics_witness:
  "\<exists>st s'. memory_passes (memory_entry demo_env) demo_map 6 0 (zero_stats\<lparr>ms_total := total_size demo_map\<rparr>, demo_vm) = Inr (st, s') \<and>
     ms_available st = 0x1000 \<and> ms_total st = 0x3000 \<and> ms_inuse st = 0"
proof -
  let ?x = "(zero_stats\<lparr>ms_total := total_size demo_map\<rparr>, demo_vm)"
  have n: "unat (map_size demo_map) \<le> 64" by (simp add: demo_map_def)
  have "sort_key entry_type (collected demo_map) = map (map_entries demo_map) [1, 0, 2]"
    by (simp add: demo_map_collected less_eq_memory_map_entry_type_def) (simp add: demo_map_def)
  then have "\<exists>st s'. memory_passes (memory_entry demo_env) demo_map 6 0 ?x = Inr (st, s')"
    unfolding passes_sorted [OF n]
    by (simp add: memory_entry_def)
      (simp add: demo_map_def PM_LoadZoneRange_def ALIGN_UP_def ALIGN_DOWN_def PAGE_MAX_SIZE_def memory_entry_def)
  then obtain st s' where r: "memory_passes (memory_entry demo_env) demo_map 6 0 ?x = Inr (st, s')" by blast
  from memory_statistics [OF n r] have "ms_available st = 0x1000 \<and> ms_total st = 0x3000 \<and> ms_inuse st = 0"
    by (simp add: zero_stats_def of_type_def demo_map_collected) (simp add: demo_map_def entry_size_def)
  with r show ?thesis by blast
qed

end
