(* ===== verification/Boot_Structs.thy ===== *)
theory Boot_Structs
  imports Struct_Layout
begin

text \<open>
  The declarations of \<^verbatim>\<open>Kernel/arch/x86_64/bootx64.h\<close>: the Multiboot 2 and Stivale 2 structures
  that a boot loader and the kernel exchange, with their tag numbers, in the order of the header.
  \<^verbatim>\<open>_stivale2_split64\<close> is a plain \<^verbatim>\<open>uint64_t\<close> on x86-64.
\<close>

section \<open>Multiboot 2\<close>

definition multiboot_tag_types :: "(string \<times> u64) list" where
  "multiboot_tag_types = [(''MULTIBOOT_TAG_ALIGN'', 8), (''MULTIBOOT_TAG_TYPE_END'', 0), (''MULTIBOOT_TAG_TYPE_CMDLINE'', 1),
     (''MULTIBOOT_TAG_TYPE_BOOT_LOADER_NAME'', 2), (''MULTIBOOT_TAG_TYPE_MODULE'', 3),
     (''MULTIBOOT_TAG_TYPE_BASIC_MEMINFO'', 4), (''MULTIBOOT_TAG_TYPE_BOOTDEV'', 5),
     (''MULTIBOOT_TAG_TYPE_MMAP'', 6), (''MULTIBOOT_TAG_TYPE_VBE'', 7),
     (''MULTIBOOT_TAG_TYPE_FRAMEBUFFER'', 8), (''MULTIBOOT_TAG_TYPE_ELF_SECTIONS'', 9),
     (''MULTIBOOT_TAG_TYPE_APM'', 10), (''MULTIBOOT_TAG_TYPE_EFI32'', 11),
     (''MULTIBOOT_TAG_TYPE_EFI64'', 12), (''MULTIBOOT_TAG_TYPE_SMBIOS'', 13),
     (''MULTIBOOT_TAG_TYPE_ACPI_OLD'', 14), (''MULTIBOOT_TAG_TYPE_ACPI_NEW'', 15),
     (''MULTIBOOT_TAG_TYPE_NETWORK'', 0x10), (''MULTIBOOT_TAG_TYPE_EFI_MMAP'', 0x11),
     (''MULTIBOOT_TAG_TYPE_EFI_BS'', 0x12), (''MULTIBOOT_TAG_TYPE_EFI32_IH'', 0x13),
     (''MULTIBOOT_TAG_TYPE_EFI64_IH'', 0x14), (''MULTIBOOT_TAG_TYPE_LOAD_BASE_ADDR'', 0x15)]"

definition multiboot_header_tags :: "(string \<times> u64) list" where
  "multiboot_header_tags = [(''MULTIBOOT_HEADER_TAG_END'', 0), (''MULTIBOOT_HEADER_TAG_INFORMATION_REQUEST'', 1),
     (''MULTIBOOT_HEADER_TAG_ADDRESS'', 2), (''MULTIBOOT_HEADER_TAG_ENTRY_ADDRESS'', 3),
     (''MULTIBOOT_HEADER_TAG_CONSOLE_FLAGS'', 4), (''MULTIBOOT_HEADER_TAG_FRAMEBUFFER'', 5),
     (''MULTIBOOT_HEADER_TAG_MODULE_ALIGN'', 6), (''MULTIBOOT_HEADER_TAG_EFI_BS'', 7),
     (''MULTIBOOT_HEADER_TAG_ENTRY_ADDRESS_EFI64'', 9), (''MULTIBOOT_HEADER_TAG_RELOCATABLE'', 10)]"

definition multiboot_magic :: "(string \<times> u64) list" where
  "multiboot_magic = [(''MULTIBOOT_SEARCH'', 0x8000), (''MULTIBOOT_HEADER_ALIGN'', 8),
     (''MULTIBOOT2_HEADER_MAGIC'', 0xE85250D6), (''MULTIBOOT2_BOOTLOADER_MAGIC'', 0x36D76289),
     (''MULTIBOOT_MOD_ALIGN'', 0x1000), (''MULTIBOOT_INFO_ALIGN'', 8)]"

definition multiboot_flags :: "(string \<times> u64) list" where
  "multiboot_flags = [(''MULTIBOOT2_ARCHITECTURE_I386'', 0), (''MULTIBOOT2_ARCHITECTURE_MIPS32'', 4),
     (''MULTIBOOT_HEADER_TAG_OPTIONAL'', 1), (''MULTIBOOT_LOAD_PREFERENCE_NONE'', 0),
     (''MULTIBOOT_LOAD_PREFERENCE_LOW'', 1), (''MULTIBOOT_LOAD_PREFERENCE_HIGH'', 2),
     (''MULTIBOOT_CONSOLE_FLAGS_CONSOLE_REQUIRED'', 1),
     (''MULTIBOOT_CONSOLE_FLAGS_EGA_TEXT_SUPPORTED'', 2)]"

definition struct_multiboot_header :: ctype where [struct_defs]:
  "struct_multiboot_header = CStruct False [(''magic'', uint32_t), (''architecture'', uint32_t), (''header_length'', uint32_t),
     (''checksum'', uint32_t)]"

definition struct_multiboot_header_tag :: ctype where [struct_defs]:
  "struct_multiboot_header_tag = CStruct False [(''type'', uint16_t), (''flags'', uint16_t), (''size'', uint32_t)]"

definition struct_multiboot_header_tag_information_request :: ctype where [struct_defs]:
  "struct_multiboot_header_tag_information_request = CStruct False [(''type'', uint16_t), (''flags'', uint16_t), (''size'', uint32_t),
     (''requests'', CArray 0 uint32_t)]"

definition struct_multiboot_header_tag_address :: ctype where [struct_defs]:
  "struct_multiboot_header_tag_address = CStruct False [(''type'', uint16_t), (''flags'', uint16_t), (''size'', uint32_t),
     (''header_addr'', uint32_t), (''load_addr'', uint32_t), (''load_end_addr'', uint32_t),
     (''bss_end_addr'', uint32_t)]"

definition struct_multiboot_header_tag_entry_address :: ctype where [struct_defs]:
  "struct_multiboot_header_tag_entry_address = CStruct False [(''type'', uint16_t), (''flags'', uint16_t), (''size'', uint32_t),
     (''entry_addr'', uint32_t)]"

definition struct_multiboot_header_tag_console_flags :: ctype where [struct_defs]:
  "struct_multiboot_header_tag_console_flags = CStruct False [(''type'', uint16_t), (''flags'', uint16_t), (''size'', uint32_t),
     (''console_flags'', uint32_t)]"

definition struct_multiboot_header_tag_framebuffer :: ctype where [struct_defs]:
  "struct_multiboot_header_tag_framebuffer = CStruct False [(''type'', uint16_t), (''flags'', uint16_t), (''size'', uint32_t),
     (''width'', uint32_t), (''height'', uint32_t), (''depth'', uint32_t)]"

definition struct_multiboot_header_tag_module_align :: ctype where [struct_defs]:
  "struct_multiboot_header_tag_module_align = CStruct False [(''type'', uint16_t), (''flags'', uint16_t), (''size'', uint32_t)]"

definition struct_multiboot_header_tag_relocatable :: ctype where [struct_defs]:
  "struct_multiboot_header_tag_relocatable = CStruct False [(''type'', uint16_t), (''flags'', uint16_t), (''size'', uint32_t),
     (''min_addr'', uint32_t), (''max_addr'', uint32_t), (''align'', uint32_t),
     (''preference'', uint32_t)]"

definition struct_multiboot_tag :: ctype where [struct_defs]:
  "struct_multiboot_tag = CStruct False [(''type'', uint32_t), (''size'', uint32_t)]"

definition struct_multiboot2_info_header_t :: ctype where [struct_defs]:
  "struct_multiboot2_info_header_t = CStruct True [(''totalSize'', uint32_t), (''reserved'', uint32_t),
     (''tags'', CArray 0 struct_multiboot_tag)]"

definition struct_multiboot_color :: ctype where [struct_defs]:
  "struct_multiboot_color = CStruct False [(''red'', uint8_t), (''green'', uint8_t), (''blue'', uint8_t)]"

definition struct_multiboot_mmap_entry :: ctype where [struct_defs]:
  "struct_multiboot_mmap_entry = CStruct False [(''addr'', uint64_t), (''length'', uint64_t), (''type'', uint32_t),
     (''zero'', uint32_t)]"

definition struct_multiboot_tag_string :: ctype where [struct_defs]:
  "struct_multiboot_tag_string = CStruct False [(''type'', uint32_t), (''size'', uint32_t), (''string'', CArray 0 uint8_t)]"

definition struct_multiboot_tag_module :: ctype where [struct_defs]:
  "struct_multiboot_tag_module = CStruct False [(''type'', uint32_t), (''size'', uint32_t), (''mod_start'', uint32_t),
     (''mod_end'', uint32_t), (''cmdline'', CArray 0 uint8_t)]"

definition struct_multiboot_tag_basic_meminfo :: ctype where [struct_defs]:
  "struct_multiboot_tag_basic_meminfo = CStruct False [(''type'', uint32_t), (''size'', uint32_t), (''mem_lower'', uint32_t),
     (''mem_upper'', uint32_t)]"

definition struct_multiboot_tag_bootdev :: ctype where [struct_defs]:
  "struct_multiboot_tag_bootdev = CStruct False [(''type'', uint32_t), (''size'', uint32_t), (''biosdev'', uint32_t),
     (''slice'', uint32_t), (''part'', uint32_t)]"

definition struct_multiboot_tag_mmap :: ctype where [struct_defs]:
  "struct_multiboot_tag_mmap = CStruct False [(''type'', uint32_t), (''size'', uint32_t), (''entry_size'', uint32_t),
     (''entry_version'', uint32_t), (''entries'', CArray 0 struct_multiboot_mmap_entry)]"

definition struct_multiboot_vbe_info_block :: ctype where [struct_defs]:
  "struct_multiboot_vbe_info_block = CStruct False [(''external_specification'', CArray 512 uint8_t)]"

definition struct_multiboot_vbe_mode_info_block :: ctype where [struct_defs]:
  "struct_multiboot_vbe_mode_info_block = CStruct False [(''external_specification'', CArray 256 uint8_t)]"

definition struct_multiboot_tag_vbe :: ctype where [struct_defs]:
  "struct_multiboot_tag_vbe = CStruct False [(''type'', uint32_t), (''size'', uint32_t), (''vbe_mode'', uint16_t),
     (''vbe_interface_seg'', uint16_t), (''vbe_interface_off'', uint16_t),
     (''vbe_interface_len'', uint16_t), (''vbe_control_info'', struct_multiboot_vbe_info_block),
     (''vbe_mode_info'', struct_multiboot_vbe_mode_info_block)]"

definition struct_multiboot_tag_framebuffer_common :: ctype where [struct_defs]:
  "struct_multiboot_tag_framebuffer_common = CStruct False [(''type'', uint32_t), (''size'', uint32_t), (''framebuffer_addr'', uint64_t),
     (''framebuffer_pitch'', uint32_t), (''framebuffer_width'', uint32_t),
     (''framebuffer_height'', uint32_t), (''framebuffer_bpp'', uint8_t),
     (''framebuffer_type'', uint8_t), (''reserved'', uint16_t)]"

definition struct_multiboot_tag_framebuffer :: ctype where [struct_defs]:
  "struct_multiboot_tag_framebuffer = CStruct False [(''common'', struct_multiboot_tag_framebuffer_common),
     ('''', CUnion False [('''', CStruct False [(''framebuffer_palette_num_colors'', uint16_t),
     (''framebuffer_palette'', CArray 0 struct_multiboot_color)]),
     ('''', CStruct False [(''framebuffer_red_field_position'', uint8_t),
     (''framebuffer_red_mask_size'', uint8_t), (''framebuffer_green_field_position'', uint8_t),
     (''framebuffer_green_mask_size'', uint8_t), (''framebuffer_blue_field_position'', uint8_t),
     (''framebuffer_blue_mask_size'', uint8_t)])])]"

definition struct_multiboot_tag_elf_sections :: ctype where [struct_defs]:
  "struct_multiboot_tag_elf_sections = CStruct False [(''type'', uint32_t), (''size'', uint32_t), (''num'', uint32_t),
     (''entsize'', uint32_t), (''shndx'', uint32_t), (''sections'', CArray 0 uint8_t)]"

definition struct_multiboot_tag_apm :: ctype where [struct_defs]:
  "struct_multiboot_tag_apm = CStruct False [(''type'', uint32_t), (''size'', uint32_t), (''version'', uint16_t),
     (''cseg'', uint16_t), (''offset'', uint32_t), (''cseg_16'', uint16_t), (''dseg'', uint16_t),
     (''flags'', uint16_t), (''cseg_len'', uint16_t), (''cseg_16_len'', uint16_t),
     (''dseg_len'', uint16_t)]"

definition struct_multiboot_tag_efi32 :: ctype where [struct_defs]:
  "struct_multiboot_tag_efi32 = CStruct False [(''type'', uint32_t), (''size'', uint32_t), (''pointer'', uint32_t)]"

definition struct_multiboot_tag_efi64 :: ctype where [struct_defs]:
  "struct_multiboot_tag_efi64 = CStruct False [(''type'', uint32_t), (''size'', uint32_t), (''pointer'', uint64_t)]"

definition struct_multiboot_tag_smbios :: ctype where [struct_defs]:
  "struct_multiboot_tag_smbios = CStruct False [(''type'', uint32_t), (''size'', uint32_t), (''major'', uint8_t),
     (''minor'', uint8_t), (''reserved'', CArray 6 uint8_t), (''tables'', CArray 0 uint8_t)]"

definition struct_multiboot_tag_old_acpi :: ctype where [struct_defs]:
  "struct_multiboot_tag_old_acpi = CStruct False [(''type'', uint32_t), (''size'', uint32_t), (''rsdp'', CArray 0 uint8_t)]"

definition struct_multiboot_tag_new_acpi :: ctype where [struct_defs]:
  "struct_multiboot_tag_new_acpi = CStruct False [(''type'', uint32_t), (''size'', uint32_t), (''rsdp'', CArray 0 uint8_t)]"

definition struct_multiboot_tag_network :: ctype where [struct_defs]:
  "struct_multiboot_tag_network = CStruct False [(''type'', uint32_t), (''size'', uint32_t), (''dhcpack'', CArray 0 uint8_t)]"

definition struct_multiboot_tag_efi_mmap :: ctype where [struct_defs]:
  "struct_multiboot_tag_efi_mmap = CStruct False [(''type'', uint32_t), (''size'', uint32_t), (''descr_size'', uint32_t),
     (''descr_vers'', uint32_t), (''efi_mmap'', CArray 0 uint8_t)]"

definition struct_multiboot_tag_efi32_ih :: ctype where [struct_defs]:
  "struct_multiboot_tag_efi32_ih = CStruct False [(''type'', uint32_t), (''size'', uint32_t), (''pointer'', uint32_t)]"

definition struct_multiboot_tag_efi64_ih :: ctype where [struct_defs]:
  "struct_multiboot_tag_efi64_ih = CStruct False [(''type'', uint32_t), (''size'', uint32_t), (''pointer'', uint64_t)]"

definition struct_multiboot_tag_load_base_addr :: ctype where [struct_defs]:
  "struct_multiboot_tag_load_base_addr = CStruct False [(''type'', uint32_t), (''size'', uint32_t), (''load_base_addr'', uint32_t)]"

section \<open>Stivale 2\<close>

definition struct_stivale2_anchor :: ctype where [struct_defs]:
  "struct_stivale2_anchor = CStruct False [(''anchor'', CArray 15 uint8_t), (''bits'', uint8_t),
     (''phys_load_addr'', uint64_t), (''phys_bss_start'', uint64_t), (''phys_bss_end'', uint64_t),
     (''phys_stivale2hdr'', uint64_t)]"

definition struct_stivale2_tag :: ctype where [struct_defs]:
  "struct_stivale2_tag = CStruct False [(''identifier'', uint64_t), (''next'', uint64_t)]"

definition struct_stivale2_header :: ctype where [struct_defs]:
  "struct_stivale2_header = CStruct False [(''entry_point'', uint64_t), (''stack'', uint64_t), (''flags'', uint64_t),
     (''tags'', uint64_t)]"

definition struct_stivale2_header_tag_any_video :: ctype where [struct_defs]:
  "struct_stivale2_header_tag_any_video = CStruct False [(''tag'', struct_stivale2_tag), (''preference'', uint64_t)]"

definition struct_stivale2_header_tag_framebuffer :: ctype where [struct_defs]:
  "struct_stivale2_header_tag_framebuffer = CStruct False [(''tag'', struct_stivale2_tag), (''framebuffer_width'', uint16_t),
     (''framebuffer_height'', uint16_t), (''framebuffer_bpp'', uint16_t), (''unused'', uint16_t)]"

definition struct_stivale2_header_tag_slide_hhdm :: ctype where [struct_defs]:
  "struct_stivale2_header_tag_slide_hhdm = CStruct False [(''tag'', struct_stivale2_tag), (''flags'', uint64_t), (''alignment'', uint64_t)]"

definition struct_stivale2_header_tag_terminal :: ctype where [struct_defs]:
  "struct_stivale2_header_tag_terminal = CStruct False [(''tag'', struct_stivale2_tag), (''flags'', uint64_t), (''callback'', uint64_t)]"

definition struct_stivale2_header_tag_smp :: ctype where [struct_defs]:
  "struct_stivale2_header_tag_smp = CStruct False [(''tag'', struct_stivale2_tag), (''flags'', uint64_t)]"

definition struct_stivale2_struct :: ctype where [struct_defs]:
  "struct_stivale2_struct = CStruct False [(''bootloader_brand'', CArray 64 uint8_t),
     (''bootloader_version'', CArray 64 uint8_t), (''tags'', uint64_t)]"

definition struct_stivale2_pmr :: ctype where [struct_defs]:
  "struct_stivale2_pmr = CStruct False [(''base'', uint64_t), (''length'', uint64_t), (''permissions'', uint64_t)]"

definition struct_stivale2_struct_tag_pmrs :: ctype where [struct_defs]:
  "struct_stivale2_struct_tag_pmrs = CStruct False [(''tag'', struct_stivale2_tag), (''entries'', uint64_t),
     (''pmrs'', CArray 0 struct_stivale2_pmr)]"

definition struct_stivale2_struct_tag_kernel_base_address :: ctype where [struct_defs]:
  "struct_stivale2_struct_tag_kernel_base_address = CStruct False [(''tag'', struct_stivale2_tag), (''physical_base_address'', uint64_t),
     (''virtual_base_address'', uint64_t)]"

definition struct_stivale2_struct_tag_cmdline :: ctype where [struct_defs]:
  "struct_stivale2_struct_tag_cmdline = CStruct False [(''tag'', struct_stivale2_tag), (''cmdline'', uint64_t)]"

definition struct_stivale2_mmap_entry :: ctype where [struct_defs]:
  "struct_stivale2_mmap_entry = CStruct False [(''base'', uint64_t), (''length'', uint64_t), (''type'', uint32_t),
     (''unused'', uint32_t)]"

definition struct_stivale2_struct_tag_memmap :: ctype where [struct_defs]:
  "struct_stivale2_struct_tag_memmap = CStruct False [(''tag'', struct_stivale2_tag), (''entries'', uint64_t),
     (''memmap'', CArray 0 struct_stivale2_mmap_entry)]"

definition struct_stivale2_struct_tag_framebuffer :: ctype where [struct_defs]:
  "struct_stivale2_struct_tag_framebuffer = CStruct False [(''tag'', struct_stivale2_tag), (''framebuffer_addr'', uint64_t),
     (''framebuffer_width'', uint16_t), (''framebuffer_height'', uint16_t),
     (''framebuffer_pitch'', uint16_t), (''framebuffer_bpp'', uint16_t), (''memory_model'', uint8_t),
     (''red_mask_size'', uint8_t), (''red_mask_shift'', uint8_t), (''green_mask_size'', uint8_t),
     (''green_mask_shift'', uint8_t), (''blue_mask_size'', uint8_t), (''blue_mask_shift'', uint8_t),
     (''unused'', uint8_t)]"

definition struct_stivale2_struct_tag_edid :: ctype where [struct_defs]:
  "struct_stivale2_struct_tag_edid = CStruct False [(''tag'', struct_stivale2_tag), (''edid_size'', uint64_t),
     (''edid_information'', CArray 0 uint8_t)]"

definition struct_stivale2_struct_tag_textmode :: ctype where [struct_defs]:
  "struct_stivale2_struct_tag_textmode = CStruct False [(''tag'', struct_stivale2_tag), (''address'', uint64_t), (''unused'', uint16_t),
     (''rows'', uint16_t), (''cols'', uint16_t), (''bytes_per_char'', uint16_t)]"

definition struct_stivale2_struct_tag_terminal :: ctype where [struct_defs]:
  "struct_stivale2_struct_tag_terminal = CStruct False [(''tag'', struct_stivale2_tag), (''flags'', uint32_t), (''cols'', uint16_t),
     (''rows'', uint16_t), (''term_write'', uint64_t), (''max_length'', uint64_t)]"

definition struct_stivale2_module :: ctype where [struct_defs]:
  "struct_stivale2_module = CStruct False [(''begin'', uint64_t), (''end'', uint64_t), (''string'', CArray 128 uint8_t)]"

definition struct_stivale2_struct_tag_modules :: ctype where [struct_defs]:
  "struct_stivale2_struct_tag_modules = CStruct False [(''tag'', struct_stivale2_tag), (''module_count'', uint64_t),
     (''modules'', CArray 0 struct_stivale2_module)]"

definition struct_stivale2_struct_tag_rsdp :: ctype where [struct_defs]:
  "struct_stivale2_struct_tag_rsdp = CStruct False [(''tag'', struct_stivale2_tag), (''rsdp'', uint64_t)]"

definition struct_stivale2_struct_tag_epoch :: ctype where [struct_defs]:
  "struct_stivale2_struct_tag_epoch = CStruct False [(''tag'', struct_stivale2_tag), (''epoch'', uint64_t)]"

definition struct_stivale2_struct_tag_firmware :: ctype where [struct_defs]:
  "struct_stivale2_struct_tag_firmware = CStruct False [(''tag'', struct_stivale2_tag), (''flags'', uint64_t)]"

definition struct_stivale2_struct_tag_efi_system_table :: ctype where [struct_defs]:
  "struct_stivale2_struct_tag_efi_system_table = CStruct False [(''tag'', struct_stivale2_tag), (''system_table'', uint64_t)]"

definition struct_stivale2_struct_tag_kernel_file :: ctype where [struct_defs]:
  "struct_stivale2_struct_tag_kernel_file = CStruct False [(''tag'', struct_stivale2_tag), (''kernel_file'', uint64_t)]"

definition struct_stivale2_struct_tag_kernel_file_v2 :: ctype where [struct_defs]:
  "struct_stivale2_struct_tag_kernel_file_v2 = CStruct False [(''tag'', struct_stivale2_tag), (''kernel_file'', uint64_t),
     (''kernel_size'', uint64_t)]"

definition struct_stivale2_guid :: ctype where [struct_defs]:
  "struct_stivale2_guid = CStruct False [(''a'', uint32_t), (''b'', uint16_t), (''c'', uint16_t), (''d'', CArray 8 uint8_t)]"

definition struct_stivale2_struct_tag_boot_volume :: ctype where [struct_defs]:
  "struct_stivale2_struct_tag_boot_volume = CStruct False [(''tag'', struct_stivale2_tag), (''flags'', uint64_t),
     (''guid'', struct_stivale2_guid), (''part_guid'', struct_stivale2_guid)]"

definition struct_stivale2_struct_tag_kernel_slide :: ctype where [struct_defs]:
  "struct_stivale2_struct_tag_kernel_slide = CStruct False [(''tag'', struct_stivale2_tag), (''kernel_slide'', uint64_t)]"

definition struct_stivale2_struct_tag_smbios :: ctype where [struct_defs]:
  "struct_stivale2_struct_tag_smbios = CStruct False [(''tag'', struct_stivale2_tag), (''flags'', uint64_t),
     (''smbios_entry_32'', uint64_t), (''smbios_entry_64'', uint64_t)]"

definition struct_stivale2_smp_info :: ctype where [struct_defs]:
  "struct_stivale2_smp_info = CStruct False [(''processor_id'', uint32_t), (''lapic_id'', uint32_t),
     (''target_stack'', uint64_t), (''goto_address'', uint64_t), (''extra_argument'', uint64_t)]"

definition struct_stivale2_struct_tag_smp :: ctype where [struct_defs]:
  "struct_stivale2_struct_tag_smp = CStruct False [(''tag'', struct_stivale2_tag), (''flags'', uint64_t), (''bsp_lapic_id'', uint32_t),
     (''unused'', uint32_t), (''cpu_count'', uint64_t),
     (''smp_info'', CArray 0 struct_stivale2_smp_info)]"

definition struct_stivale2_struct_tag_pxe_server_info :: ctype where [struct_defs]:
  "struct_stivale2_struct_tag_pxe_server_info = CStruct False [(''tag'', struct_stivale2_tag), (''server_ip'', uint32_t)]"

definition struct_stivale2_struct_tag_mmio32_uart :: ctype where [struct_defs]:
  "struct_stivale2_struct_tag_mmio32_uart = CStruct False [(''tag'', struct_stivale2_tag), (''addr'', uint64_t)]"

definition struct_stivale2_struct_tag_dtb :: ctype where [struct_defs]:
  "struct_stivale2_struct_tag_dtb = CStruct False [(''tag'', struct_stivale2_tag), (''addr'', uint64_t), (''size'', uint64_t)]"

definition struct_stivale2_struct_tag_hhdm :: ctype where [struct_defs]:
  "struct_stivale2_struct_tag_hhdm = CStruct False [(''tag'', struct_stivale2_tag), (''addr'', uint64_t)]"

definition stivale2_terminal_codes :: "(string \<times> u64) list" where
  "stivale2_terminal_codes = [(''STIVALE2_TERM_CB_DEC'', 10), (''STIVALE2_TERM_CB_BELL'', 0x14),
     (''STIVALE2_TERM_CB_PRIVATE_ID'', 0x1E), (''STIVALE2_TERM_CB_STATUS_REPORT'', 0x28),
     (''STIVALE2_TERM_CB_POS_REPORT'', 0x32), (''STIVALE2_TERM_CB_KBD_LEDS'', 0x3C),
     (''STIVALE2_TERM_CB_MODE'', 0x46), (''STIVALE2_TERM_CB_LINUX'', 0x50),
     (''STIVALE2_TERM_CTX_SIZE'', 0xFFFFFFFFFFFFFFFF), (''STIVALE2_TERM_CTX_SAVE'', 0xFFFFFFFFFFFFFFFE),
     (''STIVALE2_TERM_CTX_RESTORE'', 0xFFFFFFFFFFFFFFFD),
     (''STIVALE2_TERM_FULL_REFRESH'', 0xFFFFFFFFFFFFFFFC)]"

text \<open>The identifiers of the tags; those the kernel reads itself are in the theory \<open>Boot_Info\<close>.\<close>

definition STIVALE2_HEADER_TAG_ANY_VIDEO_ID :: u64 where [struct_defs]: "STIVALE2_HEADER_TAG_ANY_VIDEO_ID = 0xc75c9fa92a44c4db"
definition STIVALE2_HEADER_TAG_FRAMEBUFFER_ID :: u64 where [struct_defs]: "STIVALE2_HEADER_TAG_FRAMEBUFFER_ID = 0x3ecc1bc43d0f7971"
definition STIVALE2_HEADER_TAG_FB_MTRR_ID :: u64 where [struct_defs]: "STIVALE2_HEADER_TAG_FB_MTRR_ID = 0x4c7bb07731282e00"
definition STIVALE2_HEADER_TAG_SLIDE_HHDM_ID :: u64 where [struct_defs]: "STIVALE2_HEADER_TAG_SLIDE_HHDM_ID = 0xdc29269c2af53d1d"
definition STIVALE2_HEADER_TAG_TERMINAL_ID :: u64 where [struct_defs]: "STIVALE2_HEADER_TAG_TERMINAL_ID = 0xa85d499b1823be72"
definition STIVALE2_HEADER_TAG_SMP_ID :: u64 where [struct_defs]: "STIVALE2_HEADER_TAG_SMP_ID = 0x1ab015085f3273df"
definition STIVALE2_HEADER_TAG_5LV_PAGING_ID :: u64 where [struct_defs]: "STIVALE2_HEADER_TAG_5LV_PAGING_ID = 0x932f477032007e8f"
definition STIVALE2_HEADER_TAG_UNMAP_NULL_ID :: u64 where [struct_defs]: "STIVALE2_HEADER_TAG_UNMAP_NULL_ID = 0x92919432b16fe7e7"
definition STIVALE2_STRUCT_TAG_PMRS_ID :: u64 where [struct_defs]: "STIVALE2_STRUCT_TAG_PMRS_ID = 0x5df266a64047b6bd"
definition STIVALE2_STRUCT_TAG_KERNEL_BASE_ADDRESS_ID :: u64 where [struct_defs]: "STIVALE2_STRUCT_TAG_KERNEL_BASE_ADDRESS_ID = 0x060d78874a2a8af0"
definition STIVALE2_STRUCT_TAG_CMDLINE_ID :: u64 where [struct_defs]: "STIVALE2_STRUCT_TAG_CMDLINE_ID = 0xe5e76a1b4597a781"
definition STIVALE2_STRUCT_TAG_EDID_ID :: u64 where [struct_defs]: "STIVALE2_STRUCT_TAG_EDID_ID = 0x968609d7af96b845"
definition STIVALE2_STRUCT_TAG_TEXTMODE_ID :: u64 where [struct_defs]: "STIVALE2_STRUCT_TAG_TEXTMODE_ID = 0x38d74c23e0dca893"
definition STIVALE2_STRUCT_TAG_FB_MTRR_ID :: u64 where [struct_defs]: "STIVALE2_STRUCT_TAG_FB_MTRR_ID = 0x6bc1a78ebe871172"
definition STIVALE2_STRUCT_TAG_TERMINAL_ID :: u64 where [struct_defs]: "STIVALE2_STRUCT_TAG_TERMINAL_ID = 0xc2b3f4c3233b0974"
definition STIVALE2_STRUCT_TAG_EPOCH_ID :: u64 where [struct_defs]: "STIVALE2_STRUCT_TAG_EPOCH_ID = 0x566a7bed888e1407"
definition STIVALE2_STRUCT_TAG_FIRMWARE_ID :: u64 where [struct_defs]: "STIVALE2_STRUCT_TAG_FIRMWARE_ID = 0x359d837855e3858c"
definition STIVALE2_STRUCT_TAG_EFI_SYSTEM_TABLE_ID :: u64 where [struct_defs]: "STIVALE2_STRUCT_TAG_EFI_SYSTEM_TABLE_ID = 0x4bc5ec15845b558e"
definition STIVALE2_STRUCT_TAG_KERNEL_FILE_ID :: u64 where [struct_defs]: "STIVALE2_STRUCT_TAG_KERNEL_FILE_ID = 0xe599d90c2975584a"
definition STIVALE2_STRUCT_TAG_KERNEL_FILE_V2_ID :: u64 where [struct_defs]: "STIVALE2_STRUCT_TAG_KERNEL_FILE_V2_ID = 0x37c13018a02c6ea2"
definition STIVALE2_STRUCT_TAG_BOOT_VOLUME_ID :: u64 where [struct_defs]: "STIVALE2_STRUCT_TAG_BOOT_VOLUME_ID = 0x9b4358364c19ee62"
definition STIVALE2_STRUCT_TAG_KERNEL_SLIDE_ID :: u64 where [struct_defs]: "STIVALE2_STRUCT_TAG_KERNEL_SLIDE_ID = 0xee80847d01506c57"
definition STIVALE2_STRUCT_TAG_SMBIOS_ID :: u64 where [struct_defs]: "STIVALE2_STRUCT_TAG_SMBIOS_ID = 0x274bd246c62bf7d1"
definition STIVALE2_STRUCT_TAG_SMP_ID :: u64 where [struct_defs]: "STIVALE2_STRUCT_TAG_SMP_ID = 0x34d1d96339647025"
definition STIVALE2_STRUCT_TAG_PXE_SERVER_INFO :: u64 where [struct_defs]: "STIVALE2_STRUCT_TAG_PXE_SERVER_INFO = 0x29d1e96239247032"
definition STIVALE2_STRUCT_TAG_MMIO32_UART :: u64 where [struct_defs]: "STIVALE2_STRUCT_TAG_MMIO32_UART = 0xb813f9b8dbc78797"
definition STIVALE2_STRUCT_TAG_DTB :: u64 where [struct_defs]: "STIVALE2_STRUCT_TAG_DTB = 0xabb29bd49a2833fa"
definition STIVALE2_STRUCT_TAG_HHDM_ID :: u64 where [struct_defs]: "STIVALE2_STRUCT_TAG_HHDM_ID = 0xb0ed257db18cb58f"

end
