(* ===== verification/Kernel_Space.thy ===== *)
theory Kernel_Space
  imports Kernel_Pages
begin

text \<open>
  Sequences of page requests of the kernel.  The abstract address space is the block lists of the
  buddy allocator together with one word of marks; \<^verbatim>\<open>AllocatePages\<close> implements it request by request, so
  no two requests share a frame or a virtual page, earlier pages stay mapped, and the
  counters of the kernel process are the sums.
\<close>

section \<open>Resources that are taken piece by piece\<close>

fun take_all :: "('r \<Rightarrow> 's \<Rightarrow> ('g \<times> 's) option) \<Rightarrow> 'r list \<Rightarrow> 's \<Rightarrow> ('g list \<times> 's) option" where
  "take_all grab [] s = Some ([], s)"
| "take_all grab (r # rs) s =
     (case grab r s of
        None \<Rightarrow> None
      | Some (g, s1) \<Rightarrow> map_option (\<lambda>(gs, s2). (g # gs, s2)) (take_all grab rs s1))"

lemma take_all_Cons_Some:
  "take_all grab (r # rs) s = Some (hs, s') \<longleftrightarrow>
     (\<exists>g s1 gs. grab r s = Some (g, s1) \<and> take_all grab rs s1 = Some (gs, s') \<and> hs = g # gs)"
  by (auto split: option.splits)

text \<open>What is taken was free, and is all that is no longer free.\<close>

locale resource =
  fixes ok :: "'s \<Rightarrow> bool" and grab :: "'r \<Rightarrow> 's \<Rightarrow> ('g \<times> 's) option"
    and owns :: "'g \<Rightarrow> 'x set" and free :: "'s \<Rightarrow> 'x set"
  assumes take_free: "ok s \<Longrightarrow> grab r s = Some (g, s') \<Longrightarrow> ok s' \<and> owns g \<subseteq> free s \<and> free s' = free s - owns g"
begin

lemma take_all_free:
  "ok s \<Longrightarrow> take_all grab rs s = Some (gs, s') \<Longrightarrow>
   ok s' \<and> (\<Union>g\<in>set gs. owns g) \<subseteq> free s \<and> free s' = free s - (\<Union>g\<in>set gs. owns g) \<and>
   sorted_wrt (\<lambda>g h. owns g \<inter> owns h = {}) gs"
proof (induction rs arbitrary: s gs)
  case (Cons r rs)
  then obtain g s1 hs where g: "grab r s = Some (g, s1)" "take_all grab rs s1 = Some (hs, s')" "gs = g # hs"
    unfolding take_all_Cons_Some by blast
  note t = take_free [OF Cons.prems(1) g(1)]
  with Cons.IH [OF _ g(2)] g(3) show ?case by auto
qed simp

end

text \<open>Two resources that are taken together.\<close>

definition take_both ::
  "('r \<Rightarrow> 's \<Rightarrow> ('g \<times> 's) option) \<Rightarrow> ('r \<Rightarrow> 't \<Rightarrow> ('h \<times> 't) option) \<Rightarrow> 'r \<Rightarrow> 's \<times> 't \<Rightarrow> (('g \<times> 'h) \<times> 's \<times> 't) option" where
  "take_both f h r x =
     (case (f r (fst x), h r (snd x)) of
        (Some (g, s), Some (k, t)) \<Rightarrow> Some ((g, k), s, t)
      | _ \<Rightarrow> None)"

lemma take_both_Some:
  "take_both f h r x = Some ((g, k), y) \<longleftrightarrow> f r (fst x) = Some (g, fst y) \<and> h r (snd x) = Some (k, snd y)"
  by (cases y) (auto simp: take_both_def split: option.splits)

locale two_resources = a: resource ok grab owns free + b: resource ok' grab' owns' free'
  for ok :: "'s \<Rightarrow> bool" and grab :: "'r \<Rightarrow> 's \<Rightarrow> ('g \<times> 's) option" and owns :: "'g \<Rightarrow> 'x set" and free :: "'s \<Rightarrow> 'x set"
    and ok' :: "'t \<Rightarrow> bool" and grab' :: "'r \<Rightarrow> 't \<Rightarrow> ('h \<times> 't) option" and owns' :: "'h \<Rightarrow> 'y set" and free' :: "'t \<Rightarrow> 'y set"
begin

lemma both_take_free:
  assumes "ok (fst x) \<and> ok' (snd x)" and "take_both grab grab' r x = Some (g, y)"
  shows "(ok (fst y) \<and> ok' (snd y)) \<and> owns (fst g) <+> owns' (snd g) \<subseteq> free (fst x) <+> free' (snd x) \<and>
    free (fst y) <+> free' (snd y) = (free (fst x) <+> free' (snd x)) - (owns (fst g) <+> owns' (snd g))"
  using assms a.take_free [of "fst x" r "fst g" "fst y"] b.take_free [of "snd x" r "snd g" "snd y"]
    take_both_Some [of grab grab' r x "fst g" "snd g" y]
  by auto

end

sublocale two_resources \<subseteq> both: resource "\<lambda>x. ok (fst x) \<and> ok' (snd x)" "take_both grab grab'"
    "\<lambda>g. owns (fst g) <+> owns' (snd g)" "\<lambda>x. free (fst x) <+> free' (snd x)"
  by unfold_locales (rule both_take_free)

section \<open>The abstract address space\<close>

text \<open>A grant of frames is an order and the first frame, a grant of marks an order and the first mark.\<close>

definition take_frames :: "nat \<Rightarrow> buddy \<Rightarrow> ((nat \<times> nat) \<times> buddy) option" where
  "take_frames k xs = map_option (\<lambda>(n, ys). ((k, n), ys)) (buddy_alloc k xs)"

definition take_marks :: "nat \<Rightarrow> nat \<Rightarrow> u64 \<Rightarrow> ((nat \<times> nat) \<times> u64) option" where
  "take_marks sub k w =
     map_option (\<lambda>b. ((k, b), w OR run_marks b (2 ^ k)))
       (find (\<lambda>b. \<forall>j\<in>set [0..<2 ^ k]. \<not> bit (seen_marks sub (2 ^ k) w) (b + j)) [0..<32 - 2 ^ k])"

definition clear_marks :: "u64 \<Rightarrow> nat set" where
  "clear_marks w = {j. j < 64 \<and> \<not> bit w j}"

definition run_of :: "nat \<times> nat \<Rightarrow> nat set" where
  "run_of g = {snd g..<snd g + 2 ^ fst g}"

abbreviation block_of :: "nat \<times> nat \<Rightarrow> nat set" where
  "block_of g \<equiv> block (fst g) (snd g)"

lemma take_marks_fit:
  assumes "take_marks sub k w = Some (g, w')"
  shows "\<exists>b. g = (k, b) \<and> b + 2 ^ k \<le> 31 \<and> first_fit (seen_marks sub (2 ^ k) w) (2 ^ k) b \<and> w' = w OR run_marks b (2 ^ k)"
proof -
  let ?P = "\<lambda>b. \<forall>j\<in>set [0..<2 ^ k]. \<not> bit (seen_marks sub (2 ^ k) w) (b + j)"
  obtain b where b: "find ?P [0..<32 - 2 ^ k] = Some b" "g = (k, b)" "w' = w OR run_marks b (2 ^ k)"
    using assms by (auto simp: take_marks_def)
  from b(1) obtain i where i: "i < 32 - 2 ^ k" "?P ([0..<32 - 2 ^ k] ! i)" "b = [0..<32 - 2 ^ k] ! i"
      "\<forall>j<i. \<not> ?P ([0..<32 - 2 ^ k] ! j)"
    unfolding find_Some_iff by auto
  then have "b = i" by simp
  then have "b + 2 ^ k \<le> 31" "first_fit (seen_marks sub (2 ^ k) w) (2 ^ k) b"
    using i by (auto simp: first_fit_def Bex_def)
  then show ?thesis using b(2,3) by blast
qed

interpretation buddy: resource blocks_ok take_frames block_of free_frames
proof (unfold_locales, goal_cases)
  case (1 xs k g ys)
  then show ?case
    using buddy_alloc_frames [of xs k "snd g" ys] buddy_alloc_ok [of xs k "snd g" ys] by (auto simp: take_frames_def)
qed

interpretation marks: resource "\<lambda>_. True" "take_marks sub" run_of clear_marks for sub
proof (unfold_locales, goal_cases)
  case (1 w k g w')
  obtain b where b: "g = (k, b)" "b + 2 ^ k \<le> 31" "first_fit (seen_marks sub (2 ^ k) w) (2 ^ k) b" "w' = w OR run_marks b (2 ^ k)"
    using take_marks_fit [OF 1(2)] by blast
  have "\<not> bit w j" if "b \<le> j" "j < b + 2 ^ k" for j
  proof -
    have "j - b < 2 ^ k" "b + (j - b) = j" using that by auto
    then show ?thesis using b(3) unfolding first_fit_def bit_seen by metis
  qed
  then show ?case using b(1,2,4) by (auto simp: run_of_def clear_marks_def bit_or_iff bit_run_marks)
qed

interpretation space: two_resources blocks_ok take_frames block_of free_frames "\<lambda>_. True" "take_marks sub" run_of clear_marks for sub
  by unfold_locales

section \<open>The concrete address space\<close>

text \<open>
  The kernel's side of it: the free lists represent \<open>xs\<close>, word \<open>sub\<close> of the marks is \<open>w\<close> and all before it
  are full, none of these words is a list node or the pointer to the marks, and the first 31 pages
  of the word have page tables.
\<close>

definition space_ok :: "'a vm_state_scheme \<Rightarrow> process \<Rightarrow> u64 \<Rightarrow> nat \<Rightarrow> buddy \<times> u64 \<Rightarrow> bool" where
  "space_ok s p B sub x \<longleftrightarrow>
     represents s (fst x) \<and> free_frames (fst x) \<subseteq> {..<2 ^ 24} \<and>
     procs s (PR_GetKernelProcess s) = Some p \<and> PR_GetKernelProcess s \<noteq> 0 \<and>
     m_VirtuaPagesBitmap p \<noteq> 0 \<and> m_VirtuaPagesBitmap p AND 7 = 0 \<and>
     mem s (m_VirtuaPagesBitmap p) = B \<and> B \<noteq> 0 \<and> B AND 7 = 0 \<and> sub < 512 \<and>
     (\<forall>j < sub. mem s (B + 8 * of_nat j) = 0xffffffffffffffff) \<and>
     mem s (B + 8 * of_nat sub) = snd x \<and> B + 8 * of_nat sub \<noteq> m_VirtuaPagesBitmap p \<and>
     off_nodes s (m_VirtuaPagesBitmap p) \<and> (\<forall>j \<le> sub. off_nodes s (B + 8 * of_nat j)) \<and>
     distinct_tables s \<and> (\<forall>j<31. table_of s (mark_address sub j) \<noteq> 0)"

text \<open>A grant of frames is mapped at a grant of marks: every byte of every page is present and translated.\<close>

definition mapped :: "u64 \<Rightarrow> 'a vm_state_scheme \<Rightarrow> nat \<Rightarrow> (nat \<times> nat) \<times> nat \<times> nat \<Rightarrow> bool" where
  "mapped pmap s sub g \<longleftrightarrow> (\<forall>i<2 ^ fst (fst g). \<forall>off<4096.
     ConvertVirtToPhys pmap (mark_address sub (snd (snd g) + i) + of_nat off) s = of_nat (4096 * (snd (fst g) + i) + off) \<and>
     IsPagePresent pmap (mark_address sub (snd (snd g) + i) + of_nat off) s = Inr True)"

lemma mark_page:
  assumes "sub < 512" and "m < 64" and "off < 4096"
  shows "kernel_addr (mark_address sub m + of_nat off)" and "vpn (mark_address sub m + of_nat off) = vpn (mark_address sub m)"
    and "vpn (mark_address sub m) = 0xFFFFFFFF80000 + 64 * sub + m"
proof -
  note u = mark_address_unat(1) [OF assms(1,2)]
  have "mark_address sub m + of_nat off = of_nat (unat (mark_address sub m) + off)" by simp
  then have a: "unat (mark_address sub m + of_nat off) = unat (mark_address sub m) + off"
    using assms u by (simp only: unat_of_nat) simp
  show "kernel_addr (mark_address sub m + of_nat off)" by (simp add: kernel_addr_def a u)
  show v: "vpn (mark_address sub m) = 0xFFFFFFFF80000 + 64 * sub + m" unfolding vpn_def u by simp
  show "vpn (mark_address sub m + of_nat off) = vpn (mark_address sub m)"
    unfolding vpn_def a u using assms(3) by simp
qed

text \<open>A page stays mapped while its entry and its table stay.\<close>

lemma mapped_cong:
  assumes g: "mapped pmap s sub g" "snd (snd g) + 2 ^ fst (fst g) \<le> 31" and sub: "sub < 512"
    and t: "table_of s' = table_of s" "\<forall>j<31. table_of s (mark_address sub j) \<noteq> 0"
    and e: "\<And>j a. j \<in> {snd (snd g)..<snd (snd g) + 2 ^ fst (fst g)} \<Longrightarrow> kernel_addr a \<Longrightarrow>
      vpn a = vpn (mark_address sub j) \<Longrightarrow> entry_of s' a = entry_of s a"
  shows "mapped pmap s' sub g"
proof -
  have "ConvertVirtToPhys pmap a s' = ConvertVirtToPhys pmap a s \<and> IsPagePresent pmap a s' = IsPagePresent pmap a s"
    if i: "i < 2 ^ fst (fst g)" "off < 4096" and a: "a = mark_address sub (snd (snd g) + i) + of_nat off" for i off a
  proof -
    have j: "snd (snd g) + i < 31" using i(1) g(2) by linarith
    then have "snd (snd g) + i < 64" by simp
    note m = mark_page [OF sub this i(2), folded a]
    note ix = vpn_indexes [OF m(2)]
    have "table_of s a = table_of s (mark_address sub (snd (snd g) + i))" by (simp add: table_of_def ix)
    then have "table_of s a \<noteq> 0" using t(2) j by simp
    moreover have "entry_of s' a = entry_of s a" using e [OF _ m(1,2)] i(1) by simp
    ultimately show ?thesis
      using m(1) t(1) by (simp add: ConvertVirtToPhys_entry IsPagePresent_entry)
  qed
  then show ?thesis using g(1) by (simp add: mapped_def)
qed

lemma space_ready:
  assumes S: "space_ok s p B sub x" and T: "take_both take_frames (take_marks sub) k x = Some (((k', n), (k'', b)), y)"
  shows "pages_ready s k (fst x) n (fst y) p B sub b" and "k' = k" and "k'' = k"
    and "snd y = snd x OR run_marks b (2 ^ k)" and "b + 2 ^ k \<le> 31"
proof -
  note P = S [unfolded space_ok_def]
  have f: "buddy_alloc k (fst x) = Some (n, fst y)" "k' = k" and tm: "take_marks sub k (snd x) = Some ((k'', b), snd y)"
    using T by (auto simp: take_both_Some take_frames_def)
  have m: "k'' = k" "b + 2 ^ k \<le> 31" "first_fit (seen_marks sub (2 ^ k) (snd x)) (2 ^ k) b"
      "snd y = snd x OR run_marks b (2 ^ k)" using take_marks_fit [OF tm] by auto
  have ok: "blocks_ok (fst x)" using P by (simp add: represents_def)
  have "block k n \<subseteq> {..<2 ^ 24}" using buddy_alloc_frames(2) [OF ok f(1)] P by blast
  moreover have "n + 2 ^ k - 1 \<in> block k n"
    using one_le_power [of "2 :: nat" k] unfolding in_block by linarith
  ultimately have n: "n + 2 ^ k \<le> 2 ^ 24" by (metis Suc_diff_1 Suc_leI add_gr_0 lessThan_iff subsetD zero_less_numeral zero_less_power)
  have "\<not> bit (snd x) b" using m(3) unfolding first_fit_def bit_seen by (metis Nat.add_0_right zero_less_numeral zero_less_power)
  moreover have "(0xffffffffffffffff :: u64) = - 1" by simp
  then have "bit (0xffffffffffffffff :: u64) b" using m(2) by (simp only:) simp
  ultimately have "snd x \<noteq> 0xffffffffffffffff" by metis
  moreover have "table_of s (mark_address sub (b + j)) \<noteq> 0" if "j < 2 ^ k" for j using P m(2) that by simp
  ultimately show "pages_ready s k (fst x) n (fst y) p B sub b"
    using P f(1) m n unfolding pages_ready_def first_mark_def by simp
  show "k' = k" "k'' = k" "snd y = snd x OR run_marks b (2 ^ k)" "b + 2 ^ k \<le> 31" using f m by simp_all
qed

text \<open>One request.  The pages whose marks are set stay as they are.\<close>

definition charged :: "process \<Rightarrow> nat list \<Rightarrow> process" where
  "charged p ks = p\<lparr>m_MemoryAllocated := m_MemoryAllocated p + sum_list (map (\<lambda>k. 2 ^ k * ARCH_PAGE_SIZE) ks),
     m_Pages := m_Pages p + sum_list (map (\<lambda>k. ucast (2 ^ k :: u64)) ks)\<rparr>"

definition kept :: "u64 \<Rightarrow> nat \<Rightarrow> u64 \<Rightarrow> 'a vm_state_scheme \<Rightarrow> 'a vm_state_scheme \<Rightarrow> bool" where
  "kept pmap sub w s s' \<longleftrightarrow> (\<forall>g. mapped pmap s sub g \<and> snd (snd g) + 2 ^ fst (fst g) \<le> 31 \<and>
     {snd (snd g)..<snd (snd g) + 2 ^ fst (fst g)} \<inter> clear_marks w = {} \<longrightarrow> mapped pmap s' sub g)"

lemma space_step:
  assumes S: "space_ok s p B sub x" and T: "take_both take_frames (take_marks sub) k x = Some (g, y)"
    and am: "page_size_align amount = 2 ^ k"
  shows "\<exists>s'. AllocatePages (Suc fuel) (PR_GetKernelProcess s) amount s = Inr (mark_address sub (snd (snd g)), s') \<and>
    space_ok s' (charged p [k]) B sub y \<and> mapped pmap s' sub g \<and> kept pmap sub (snd x) s s'"
proof -
  obtain k' n k'' b where g: "g = ((k', n), (k'', b))" by (metis surj_pair)
  note R = space_ready [OF S T [unfolded g]] and P = S [unfolded space_ok_def]
  let ?v = "mark_address sub b" and ?c = "B + 8 * of_nat sub"
  obtain s' where s': "AllocatePages (Suc fuel) (PR_GetKernelProcess s) amount s = Inr (?v, s')"
    and tr: "\<forall>i<2 ^ k. \<forall>off<4096. ConvertVirtToPhys pmap (?v + 4096 * of_nat i + of_nat off) s' =
         of_nat (4096 * n) + 4096 * of_nat i + of_nat off \<and>
       IsPagePresent pmap (?v + 4096 * of_nat i + of_nat off) s' = Inr True"
    and rep: "represents s' (fst y)" "nodes s' = nodes s" "links s' = links s" "table_of s' = table_of s" "distinct_tables s'"
    and me: "\<And>a. off_nodes s a \<Longrightarrow> a \<noteq> ?c \<Longrightarrow> mem s' a = mem s a" "mem s' ?c = mem s ?c OR run_marks b (2 ^ k)"
    and en: "\<And>a. kernel_addr a \<Longrightarrow> \<not> (vpn ?v \<le> vpn a \<and> vpn a < vpn ?v + 2 ^ k) \<Longrightarrow> entry_of s' a = entry_of s a"
    and pr: "procs s' (PR_GetKernelProcess s) = Some (charged p [k])"
    using AllocatePages_kernel_pages [OF R(1) am, of fuel pmap] by (auto simp: charged_def)
  have "mapped pmap s' sub g"
    using tr by (simp add: mapped_def g R(2) mark_address_add ring_distribs)
  moreover have "kept pmap sub (snd x) s s'"
    unfolding kept_def
  proof (intro allI impI, elim conjE)
    fix h assume h: "mapped pmap s sub h" "snd (snd h) + 2 ^ fst (fst h) \<le> 31"
      "{snd (snd h)..<snd (snd h) + 2 ^ fst (fst h)} \<inter> clear_marks (snd x) = {}"
    have cl: "run_of (k, b) \<subseteq> clear_marks (snd x)"
      using marks.take_free [OF TrueI, of sub k "snd x" "(k, b)" "snd y"] T by (auto simp: take_both_Some g R(3))
    show "mapped pmap s' sub h"
    proof (rule mapped_cong [OF h(1,2)])
      fix j a assume j: "j \<in> {snd (snd h)..<snd (snd h) + 2 ^ fst (fst h)}" and a: "kernel_addr a" "vpn a = vpn (mark_address sub j)"
      have "j < 64" "b < 64" using j h(2) R(5) by (auto intro: le_less_trans)
      moreover have "j \<notin> {b..<b + 2 ^ k}" using cl h(3) j unfolding run_of_def fst_conv snd_conv by blast
      ultimately have "\<not> (vpn ?v \<le> vpn a \<and> vpn a < vpn ?v + 2 ^ k)"
        using mark_page(3) [of sub j 0] mark_page(3) [of sub b 0] a(2) P by auto
      then show "entry_of s' a = entry_of s a" by (rule en [OF a(1)])
    qed (use P rep in simp_all)
  qed
  moreover have "space_ok s' (charged p [k]) B sub y"
  proof -
    have off: "off_nodes s' = off_nodes s" using rep(2) by (simp add: off_nodes_def fun_eq_iff)
    have k: "PR_GetKernelProcess s' = PR_GetKernelProcess s" using rep(3) by (simp add: PR_GetKernelProcess_def)
    have V: "m_VirtuaPagesBitmap (charged p [k]) = m_VirtuaPagesBitmap p" by (simp add: charged_def)
    have ne: "B + 8 * of_nat j \<noteq> ?c" if "j < sub" for j
    proof -
      have "unat (of_nat (8 * j) :: u64) = 8 * j" "unat (of_nat (8 * sub) :: u64) = 8 * sub"
        using that P by (simp_all only: unat_of_nat) (simp_all)
      then show ?thesis using that by auto
    qed
    have "free_frames (fst y) \<subseteq> free_frames (fst x)"
      using buddy.take_free [of "fst x" k "(k, n)" "fst y"] T P by (auto simp: take_both_Some g R(2) represents_def)
    moreover have "mem s' (B + 8 * of_nat j) = 0xffffffffffffffff" if "j < sub" for j
      using me(1) [of "B + 8 * of_nat j"] ne [OF that] P that by simp
    moreover have "mem s' (m_VirtuaPagesBitmap p) = B" using me(1) [of "m_VirtuaPagesBitmap p"] P by auto
    ultimately show ?thesis
      using P rep(1,4,5) pr me(2) R(4) unfolding space_ok_def off k V by auto
  qed
  ultimately show ?thesis using s' by (auto simp: g)
qed

section \<open>Sequences of requests\<close>

fun page_requests :: "nat \<Rightarrow> u64 list \<Rightarrow> 'a vm_state_scheme \<Rightarrow> (u64 list \<times> 'a vm_state_scheme) res" where
  "page_requests fuel [] s = Inr ([], s)"
| "page_requests fuel (a # as) s =
     bind_res (AllocatePages fuel (PR_GetKernelProcess s) a s) (\<lambda>(v, s1).
     bind_res (page_requests fuel as s1) (\<lambda>(vs, s2). Inr (v # vs, s2)))"

abbreviation space_take :: "nat \<Rightarrow> nat \<Rightarrow> buddy \<times> u64 \<Rightarrow> (((nat \<times> nat) \<times> nat \<times> nat) \<times> buddy \<times> u64) option" where
  "space_take sub \<equiv> take_both take_frames (take_marks sub)"

lemma charged_Cons: "charged (charged p [k]) ks = charged p (k # ks)"
  by (simp add: charged_def add.assoc)

lemma kept_trans:
  "kept pmap sub w s s1 \<Longrightarrow> kept pmap sub w' s1 s2 \<Longrightarrow> clear_marks w' \<subseteq> clear_marks w \<Longrightarrow> kept pmap sub w s s2"
  unfolding kept_def by blast

lemma page_requests_run:
  "space_ok s p B sub x \<Longrightarrow> take_all (space_take sub) ks x = Some (gs, y) \<Longrightarrow> map page_size_align as = map (\<lambda>k. 2 ^ k) ks \<Longrightarrow>
   \<exists>s'. page_requests (Suc fuel) as s = Inr (map (\<lambda>g. mark_address sub (snd (snd g))) gs, s') \<and>
     space_ok s' (charged p ks) B sub y \<and> (\<forall>g\<in>set gs. mapped pmap s' sub g) \<and> kept pmap sub (snd x) s s'"
proof (induction ks arbitrary: s p x gs as)
  case Nil
  then show ?case by (simp add: charged_def kept_def)
next
  case (Cons k ks)
  obtain a as' where as: "as = a # as'" "page_size_align a = 2 ^ k" "map page_size_align as' = map (\<lambda>k. 2 ^ k) ks"
    using Cons.prems(3) by auto
  obtain g z hs where g: "space_take sub k x = Some (g, z)" "take_all (space_take sub) ks z = Some (hs, y)" "gs = g # hs"
    using Cons.prems(2) unfolding take_all_Cons_Some by blast
  obtain s1 where s1: "AllocatePages (Suc fuel) (PR_GetKernelProcess s) a s = Inr (mark_address sub (snd (snd g)), s1)"
      "space_ok s1 (charged p [k]) B sub z" "mapped pmap s1 sub g" "kept pmap sub (snd x) s s1"
    using space_step [OF Cons.prems(1) g(1) as(2)] by blast
  obtain s2 where s2: "page_requests (Suc fuel) as' s1 = Inr (map (\<lambda>g. mark_address sub (snd (snd g))) hs, s2)"
      "space_ok s2 (charged p (k # ks)) B sub y" "\<forall>g\<in>set hs. mapped pmap s2 sub g" "kept pmap sub (snd z) s1 s2"
    using Cons.IH [OF s1(2) g(2) as(3)] unfolding charged_Cons by blast
  obtain k' n k'' b where gg: "g = ((k', n), (k'', b))" by (metis surj_pair)
  note R = space_ready [OF Cons.prems(1) g(1) [unfolded gg]]
  have m: "snd z = snd x OR run_marks b (2 ^ k)" "b + 2 ^ k \<le> 31" by (rule R)+
  then have "clear_marks (snd z) \<subseteq> clear_marks (snd x)" "{b..<b + 2 ^ k} \<inter> clear_marks (snd z) = {}"
    by (auto simp: clear_marks_def bit_or_iff bit_run_marks)
  then have "mapped pmap s2 sub g" "kept pmap sub (snd x) s s2"
    using s2(4) s1(3) m(2) kept_trans [OF s1(4) s2(4)] by (auto simp: kept_def gg R(2))
  then show ?case using s1(1) s2(1-3) g(3) as(1) by (simp del: AllocatePages.simps)
qed


text \<open>A kernel with the four free frames of the theory \<open>Buddy_Refinement\<close> and no used virtual page.\<close>

definition demo_space :: vm_state where
  "demo_space = demo_vm\<lparr>mem := (mem demo_pm)(0xFFFFFFFF80202000 := 0xFFFFFFFF80300000), frames := frames demo_pm,
     freelist_count := freelist_count demo_pm, pf_freelist_at := pf_freelist_at demo_pm\<rparr>"

lemma demo_space_nodes: "off_nodes demo_space a" if "unat a \<in> {0xFFFFFFFF80202000, 0xFFFFFFFF80300000}"
proof -
  have L: "layout_ok demo_space" by (simp add: layout_ok_def demo_space_def demo_pm_def)
  have a8: "unat (a - 8) = unat a - 8" using that by (subst unat_sub) (auto simp: word_le_nat_alt)
  have "a \<noteq> desc j \<and> a - 8 \<noteq> desc j" if "j < frame_limit" for j
    using unat_desc [OF that] that \<open>unat a \<in> _\<close> a8 by (auto simp: frame_limit_def)
  moreover have "a \<noteq> freelist_handle demo_space i \<and> a - 8 \<noteq> freelist_handle demo_space i" if "i \<le> 10" for i
    using unat_handle [OF L that] that \<open>unat a \<in> _\<close> a8 by (auto simp: demo_space_def demo_pm_def)
  ultimately show ?thesis by (auto simp: off_nodes_def nodes_def)
qed

lemma demo_space_represents: "represents demo_space demo_xs"
proof -
  have n: "nodes demo_pm = nodes demo_space" by (simp add: nodes_def freelist_handle_def demo_space_def)
  have "0xFFFFFFFF80202000 \<noteq> q \<and> 0xFFFFFFFF80202000 \<noteq> q + 8" if "q \<in> nodes demo_pm" for q
    using off_nodesD [OF demo_space_nodes, of "0xFFFFFFFF80202000" q] that n by simp
  then show ?thesis
    by (intro represents_cong [OF represents_demo]) (auto simp: demo_space_def)
qed

lemma demo_space_ok:
  "space_ok demo_space (zero_process\<lparr>m_VirtuaPagesBitmap := 0xFFFFFFFF80202000\<rparr>) 0xFFFFFFFF80300000 0 (demo_xs, 0)"
proof -
  have "PDPT_GET_INDEX (mark_address 0 j) = 510 \<and> PDIR_GET_INDEX (mark_address 0 j) = 0" if "j < 31" for j
  proof -
    have u: "unat (mark_address 0 j) = 0xFFFFFFFF80000000 + j * 4096" using mark_address_unat(1) [of 0 j] that by simp
    have "unat (mark_address 0 j) div 2 ^ 30 = 17179869182" "unat (mark_address 0 j) div 2 ^ 21 = 8796093021184"
      unfolding u using that by (intro div_nat_eqI; simp)+
    then show ?thesis by (simp add: index_unat)
  qed
  then have "\<forall>j<31. table_of demo_space (mark_address 0 j) \<noteq> 0"
    by (simp add: table_of_def demo_space_def demo_vm_def)
  moreover have "free_frames demo_xs \<subseteq> {..<2 ^ 24}" by (auto simp: free_frames_def demo_xs_def block_def)
  moreover have "distinct_tables demo_space" by (auto simp: distinct_tables_def demo_space_def demo_vm_def split: if_splits)
  moreover have "mem demo_space 0xFFFFFFFF80300000 = 0" by (simp add: demo_space_def demo_pm_def desc_256)
  ultimately show ?thesis
    using demo_space_represents demo_space_nodes
    by (simp add: space_ok_def PR_GetKernelProcess_def)
      (simp add: demo_space_def demo_vm_def demo_links_def)
qed


end
