(* ===== verification/Slub_Objects.thy ===== *)
theory Slub_Objects
  imports Slub_Laws
begin

text \<open>
  The objects a processor gets from a new page of \<^verbatim>\<open>Kernel/src/mm/slub.c\<close>, call after call: the slow path
  makes the page current, the fast path then follows the chain of free objects.
\<close>

section \<open>Calls in a row\<close>

fun repeat_call :: "nat \<Rightarrow> ('s \<Rightarrow> ('r \<times> 's) res) \<Rightarrow> 's \<Rightarrow> ('r list \<times> 's) res" where
  "repeat_call 0 f s = Inr ([], s)"
| "repeat_call (Suc n) f s =
     bind_res (f s) (\<lambda>(r, s1). bind_res (repeat_call n f s1) (\<lambda>(rs, s2). Inr (r # rs, s2)))"

text \<open>The address of an object, and the chain from object \<open>i\<close> to the last of \<open>n\<close>.\<close>

definition object_at :: "u64 \<Rightarrow> nat \<Rightarrow> nat \<Rightarrow> u64" where
  "object_at virt k i = virt + of_nat i * of_nat k"

definition object_chain :: "wmem \<Rightarrow> u64 \<Rightarrow> nat \<Rightarrow> nat \<Rightarrow> nat \<Rightarrow> bool" where
  "object_chain m virt k i n \<longleftrightarrow> (\<forall>j. i \<le> j \<and> j + 1 < n \<longrightarrow> m (object_at virt k j) = object_at virt k (j + 1))"

lemma object_chain_mono: "object_chain m virt k i n \<Longrightarrow> i \<le> i' \<Longrightarrow> object_chain m virt k i' n"
  by (auto simp: object_chain_def)

lemma object_chain_cong:
  "object_chain m virt k i n \<Longrightarrow> (\<And>j. j < n \<Longrightarrow> m' (object_at virt k j) = m (object_at virt k j)) \<Longrightarrow> object_chain m' virt k i n"
  by (simp add: object_chain_def)

text \<open>
  The processor's list is at object \<open>i\<close> of its page, \<open>u\<close> of the \<open>n\<close> objects count as used, and the cell with the
  head of the list is not inside an object.
\<close>

definition serving ::
  "'a slab_state_scheme \<Rightarrow> u64 \<Rightarrow> u64 \<Rightarrow> u64 \<Rightarrow> nat \<Rightarrow> nat \<Rightarrow> nat \<Rightarrow> nat \<Rightarrow> bool" where
  "serving s cache slabCpu virt k n i u \<longleftrightarrow>
     cache \<noteq> 0 \<and> KM_GetSlabCpu cache s = Inr slabCpu \<and> mem s (cpu_freelist_of slabCpu) = object_at virt k i \<and>
     mem s (cpu_page_of slabCpu) \<noteq> 0 \<and> object_chain (mem s) virt k i n \<and>
     (\<forall>j<n. object_at virt k j \<noteq> 0 \<and> object_at virt k j \<noteq> cpu_freelist_of slabCpu) \<and>
     (\<exists>g. frames s (mem s (cpu_page_of slabCpu)) = Some g \<and> unat (slab_inuse g) = u \<and> unat (slab_objects g) = n)"

lemma KM_GetSlabCpu_cong: "core_id s' = core_id s \<Longrightarrow> KM_GetSlabCpu cache s' = KM_GetSlabCpu cache s"
  by (simp add: KM_GetSlabCpu_def)

lemma serving_step_frame:
  assumes S: "serving s cache slabCpu virt k n i u" and i: "i + 1 < n" and u: "u + 1 < n"
  shows "\<exists>s'. slab_AllocateObject (Suc jumps) fuel junk cache s = Inr (object_at virt k i, s') \<and>
     serving s' cache slabCpu virt k n (i + 1) (u + 1) \<and>
     mem s' = (mem s)(cpu_freelist_of slabCpu := object_at virt k (i + 1)) \<and>
     (\<forall>p. p \<noteq> mem s (cpu_page_of slabCpu) \<longrightarrow> frames s' p = frames s p) \<and> core_id s' = core_id s"
proof -
  let ?p = "object_at virt k i" and ?page = "mem s (cpu_page_of slabCpu)"
  obtain g where g: "frames s ?page = Some g" "unat (slab_inuse g) = u" "unat (slab_objects g) = n"
    using S by (auto simp: serving_def)
  define g' where "g' = g\<lparr>pf_objects := object_at virt k (i + 1), slab_inuse := slab_inuse g + 1\<rparr>"
  define s' where "s' = store_frame ?page g' (write_mem (cpu_freelist_of slabCpu) (object_at virt k (i + 1)) s)"
  have "n < 2 ^ 15" using unsigned_less [of "slab_objects g", where ?'a = nat] g(3) by simp
  then have u1: "unat (slab_inuse g + 1) = u + 1" using g(2) u by (intro unat_plus_one [THEN trans]) simp_all
  have nxt: "mem s ?p = object_at virt k (i + 1)" using S i by (simp add: serving_def object_chain_def)
  have p: "?p \<noteq> 0" "?page \<noteq> 0" "cache \<noteq> 0" "KM_GetSlabCpu cache s = Inr slabCpu" "mem s (cpu_freelist_of slabCpu) = ?p"
    using S i by (auto simp: serving_def)
  then have run: "slab_AllocateObject (Suc jumps) fuel junk cache s = Inr (?p, s')"
    using nxt g u u1
    by (simp add: slab_AllocateObject_def fastest_path_def deref_def Let_def load_frame_def s'_def g'_def write_mem_def)
  have m': "mem s' = (mem s)(cpu_freelist_of slabCpu := object_at virt k (i + 1))"
      "frames s' = (frames s)(?page \<mapsto> g')" "core_id s' = core_id s"
    by (simp_all add: s'_def store_frame_def write_mem_def)
  have ne: "cpu_page_of slabCpu \<noteq> cpu_freelist_of slabCpu" by (simp add: slab_layout)
  have "object_chain (mem s') virt k (i + 1) n"
    by (rule object_chain_cong [OF object_chain_mono]) (use S in \<open>auto simp: serving_def m'\<close>)
  then have "serving s' cache slabCpu virt k n (i + 1) (u + 1)"
    using S p KM_GetSlabCpu_cong [OF m'(3), of cache] ne g(3) u1 by (simp add: serving_def m' g'_def)
  with run m' show ?thesis by auto
qed

lemma serving_run:
  assumes "serving s cache slabCpu virt k n i u" and "i + m < n" and "u + m < n"
  shows "\<exists>s'. repeat_call m (slab_AllocateObject (Suc jumps) fuel junk cache) s =
     Inr (map (object_at virt k) [i..<i + m], s') \<and> serving s' cache slabCpu virt k n (i + m) (u + m)"
  using assms
proof (induction m arbitrary: s i u)
  case 0
  then show ?case by simp
next
  case (Suc m)
  obtain s1 where s1: "slab_AllocateObject (Suc jumps) fuel junk cache s = Inr (object_at virt k i, s1)"
      "serving s1 cache slabCpu virt k n (i + 1) (u + 1)"
    using serving_step_frame [OF Suc.prems(1), of jumps fuel junk] Suc.prems(2,3) by auto
  have "[i..<i + Suc m] = i # [i + 1..<i + 1 + m]" by (simp add: upt_rec)
  then show ?case using Suc.IH [OF s1(2)] s1(1) Suc.prems(2,3) by (auto simp del: upt_Suc)
qed

section \<open>From a new page\<close>

text \<open>A page as \<^verbatim>\<open>__slab_SetPage\<close> leaves it.\<close>

definition fresh_page :: "'a slab_state_scheme \<Rightarrow> u64 \<Rightarrow> u64 \<Rightarrow> nat \<Rightarrow> nat \<Rightarrow> bool" where
  "fresh_page t page virt k n \<longleftrightarrow> page \<noteq> 0 \<and> object_chain (mem t) virt k 0 n \<and>
     (\<exists>f. frames t page = Some f \<and> pf_objects f = virt \<and> slab_inuse f = 0 \<and> unat (slab_objects f) = n)"

text \<open>Cells that must not lie in an object: those of the processor's cache, and the neighbours of the page in its list.\<close>

definition clear_of :: "'a slab_state_scheme \<Rightarrow> u64 \<Rightarrow> u64 \<Rightarrow> u64 \<Rightarrow> bool" where
  "clear_of t slabCpu page a \<longleftrightarrow> a \<noteq> 0 \<and> a \<notin> {cpu_freelist_of slabCpu, cpu_page_of slabCpu} \<and>
     a \<notin> {node_prev (mem t) page + 8, node_next (mem t) page}"

lemma slow_path_serves:
  assumes c: "KM_GetSlabCpu cache s = Inr slabCpu" "cache \<noteq> 0"
    and e: "mem s (cpu_freelist_of slabCpu) = 0" "node_next (mem s) (cpu_partial_of slabCpu) = 0"
      "mem s (cache_node_of cache 0) \<noteq> 0"
    and t: "slab_RequestPage fuel cache s = Inr (page, t)" "core_id t = core_id s" "fresh_page t page virt k n"
    and o: "\<And>j. j < n \<Longrightarrow> clear_of t slabCpu page (object_at virt k j)" and n: "1 < n"
  shows "\<exists>s1. slab_AllocateObject (Suc jumps) fuel junk cache s = Inr (object_at virt k 0, s1) \<and>
     serving s1 cache slabCpu virt k n 0 1"
proof -
  let ?a = "object_at virt k"
  obtain f where f: "frames t page = Some f" "pf_objects f = virt" "slab_inuse f = 0" "unat (slab_objects f) = n"
      and p: "page \<noteq> 0" and ch: "object_chain (mem t) virt k 0 n"
    using t(3) by (auto simp: fresh_page_def)
  have v: "?a 0 = virt" "virt \<noteq> 0" using o [of 0] n by (auto simp: object_at_def clear_of_def)
  obtain m where m: "LinkedListRemove page (mem t) = Inr m" using p by (simp add: LinkedListRemove_def Let_def)
  have keep: "m (?a j) = mem t (?a j)" if "j < n" for j
    using m o [OF that] by (auto simp: LinkedListRemove_def Let_def set_next_def set_prev_def clear_of_def split: if_splits)
  define m1 where "m1 = m(cpu_freelist_of slabCpu := virt, cpu_page_of slabCpu := page)"
  have m1: "m1 (?a j) = mem t (?a j)" if "j < n" for j
    using keep [OF that] o [OF that] by (simp add: m1_def clear_of_def)
  define g where "g = f\<lparr>slab_frozen := True, pf_objects := m1 virt, slab_inuse := 1\<rparr>"
  define s1 where "s1 = t\<lparr>mem := m1, frames := (frames t)(page \<mapsto> g)\<rparr>"
  have "slow_path fuel cache slabCpu s = Inr (virt, s1)"
    using e(3) t(1) p m f v
    by (simp add: slow_path_def deref_def slab_AssignCpuSlab_def list_remove_def pop_object_def load_frame_def
        store_frame_def write_mem_def Let_def s1_def m1_def g_def)
  then have run: "slab_AllocateObject (Suc jumps) fuel junk cache s = Inr (?a 0, s1)"
    using c e(1,2) v by (simp add: slab_AllocateObject_def Let_def)
  have "object_chain m1 virt k 0 n" by (rule object_chain_cong [OF ch m1])
  moreover have "m1 (cpu_freelist_of slabCpu) = virt" "m1 (cpu_page_of slabCpu) = page"
    by (simp_all add: m1_def slab_layout)
  moreover have "KM_GetSlabCpu cache s1 = Inr slabCpu" using c(1) t(2) KM_GetSlabCpu_cong [of s1 s cache] by (simp add: s1_def)
  ultimately have "serving s1 cache slabCpu virt k n 0 1"
    using c(2) v p o f(4) by (auto simp: serving_def s1_def g_def clear_of_def)
  with run show ?thesis by blast
qed

text \<open>\<^verbatim>\<open>__slab_RequestPage\<close> gives such a page.\<close>

lemma request_fresh:
  assumes r: "slab_RequestPage fuel cache s = Inr (page, t)"
    and a: "AllocatePages fuel (PR_GetKernelProcess s) 1 s = Inr (virt, s1)"
    and k: "8 \<le> k" "r + k \<le> 4096"
    and c: "load32 (cache_size_of cache) (mem s1) = of_nat k" "load32 (cache_reserved_of cache) (mem s1) = of_nat r"
  shows "fresh_page t page virt k ((4096 - r) div k)"
    and "(\<And>j. j < (4096 - r) div k \<Longrightarrow> a \<noteq> object_at virt k j) \<Longrightarrow> mem t a = mem s1 a"
proof -
  define n where "n = (4096 - r) div k"
  have sp: "slab_SetPage cache page virt s1 = Inr t"
    using r a by (auto simp: slab_RequestPage_def bind_res_eq_Inr split: if_splits)
  obtain f where f: "load_frame page s1 = Inr f" using sp by (auto simp: slab_SetPage_def bind_res_eq_Inr)
  note eq = slab_SetPage_eq [OF f k c, folded n_def]
  have t: "t = link_objects (n - 1) 0 virt (of_nat k) (store_frame page (f\<lparr>pf_kmem := True, slabCache := cache,
      pf_objects := virt, slab_objects := of_nat n, slab_inuse := 0\<rparr>) s1)"
    using sp eq(1) [of virt] by simp
  have "mem t (virt + of_nat j * of_nat k) = virt + of_nat (Suc j) * of_nat k" if "j + 1 < n" for j
    unfolding t by (rule link_objects_at) (use that k eq(3,4) in \<open>auto simp: diff_mult_distrib\<close>)
  moreover have "unat (of_nat n :: 15 word) = n" using eq(3) by (simp add: unat_of_nat)
  moreover have "page \<noteq> 0" using f by (auto simp: load_frame_def)
  ultimately have "fresh_page t page virt k n" by (simp add: fresh_page_def object_chain_def object_at_def t store_frame_def)
  then show "fresh_page t page virt k ((4096 - r) div k)" by (simp add: n_def)
  show "mem t a = mem s1 a" if "\<And>j. j < (4096 - r) div k \<Longrightarrow> a \<noteq> object_at virt k j"
    unfolding t using that by (subst link_objects_other) (auto simp: n_def object_at_def store_frame_def)
qed

section \<open>Properties\<close>

text \<open>
  C11. The objects of a new page in the order of the calls on one processor: the first object is handed out
  by the slow path and again by the next call, because the list of the processor still starts
  with it; after that each call returns the next object.  The statement covers all calls until the
  count of used objects reaches the number of objects in the page.
\<close>

theorem slab_new_page_sequence:
  assumes "KM_GetSlabCpu cache s = Inr slabCpu" and "cache \<noteq> 0"
    and "mem s (cpu_freelist_of slabCpu) = 0" and "node_next (mem s) (cpu_partial_of slabCpu) = 0"
    and "mem s (cache_node_of cache 0) \<noteq> 0"
    and "slab_RequestPage fuel cache s = Inr (page, t)" and "core_id t = core_id s" and "fresh_page t page virt k n"
    and "\<And>j. j < n \<Longrightarrow> clear_of t slabCpu page (object_at virt k j)" and "m + 1 < n"
  shows "\<exists>s'. repeat_call (Suc m) (slab_AllocateObject (Suc jumps) fuel junk cache) s =
    Inr (object_at virt k 0 # map (object_at virt k) [0..<m], s')"
proof -
  obtain s1 where s1: "slab_AllocateObject (Suc jumps) fuel junk cache s = Inr (object_at virt k 0, s1)"
      "serving s1 cache slabCpu virt k n 0 1"
    using slow_path_serves [OF assms(1-9)] assms(10) by auto
  then show ?thesis using serving_run [OF s1(2), of m jumps fuel junk] assms(10) by auto
qed

lemma demo_object_unat: "j < 42 \<Longrightarrow> unat (object_at 0xFFFFFFFF80000000 96 j) = 0xFFFFFFFF80000000 + 96 * j"
proof -
  assume "j < 42"
  moreover have "object_at 0xFFFFFFFF80000000 96 j = of_nat (0xFFFFFFFF80000000 + 96 * j)" by (simp add: object_at_def)
  ultimately show ?thesis by (simp only: unat_of_nat) simp
qed

lemma off_nodes_between:
  assumes "layout_ok s" and "0xFFFFFF9000000008 \<le> unat a" and "unat a < unat (pf_freelist_at s)"
  shows "off_nodes s a"
proof -
  have a8: "unat (a - 8) = unat a - 8" using assms(2) by (subst unat_sub) (auto simp: word_le_nat_alt)
  have "a \<noteq> desc j \<and> a - 8 \<noteq> desc j" if "j < frame_limit" for j
    using unat_desc [OF that] that assms(2) a8 by (auto simp: frame_limit_def)
  moreover have "a \<noteq> freelist_handle s i \<and> a - 8 \<noteq> freelist_handle s i" if "i \<le> 10" for i
    using unat_handle [OF assms(1) that] assms(3) a8 by auto
  ultimately show ?thesis by (auto simp: off_nodes_def nodes_def)
qed

lemma off_nodes_clear:
  assumes "loose u n" and "off_nodes u a" and "a \<noteq> 0" and "a \<notin> {cpu_freelist_of slabCpu, cpu_page_of slabCpu}"
    and "mem t (desc n) = mem u (desc n)" and "mem t (desc n + 8) = mem u (desc n + 8)"
  shows "clear_of t slabCpu (desc n) a"
  using assms off_nodesD [OF assms(2)] by (auto simp: clear_of_def loose_def node_prev_def node_next_def)

text \<open>Four calls on the small kernel of the theory \<open>Kernel_Pages\<close>.\<close>

theorem slab_new_page_sequence_witness:
  "\<exists>s'. repeat_call 4 (slab_AllocateObject 1 1 0 0xFFFFFFFF80500000) demo_slab =
     Inr ([0xFFFFFFFF80000000, 0xFFFFFFFF80000000, 0xFFFFFFFF80000060, 0xFFFFFFFF800000C0], s')"
proof -
  let ?C = "0xFFFFFFFF80500000 :: u64" and ?V = "0xFFFFFFFF80000000 :: u64"
  let ?cpu = "cache_cpu_slab ?C 0"
  have d: "like_demo demo_slab" by (simp add: like_demo_def demo_slab_fields)
  obtain u where u: "AllocatePages 1 (PR_GetKernelProcess demo_slab) 1 demo_slab = Inr (?V, u)"
     "handed_out u 0 256" "loose u 256" "nodes u = nodes demo_slab"
     "load32 (cache_size_of ?C) (mem u) = of_nat 96" "load32 (cache_reserved_of ?C) (mem u) = of_nat 0"
    using demo_alloc [OF d] by blast
  obtain t where t: "slab_RequestPage 1 ?C demo_slab = Inr (desc 256, t)" "core_id t = 0"
    using demo_request [OF d] by blast
  have fr: "fresh_page t (desc 256) ?V 96 42" using request_fresh [OF t(1) u(1) _ _ u(5,6)] by simp
  have at: "object_at ?V 96 j \<noteq> a" if "j < 42" "unat a \<notin> {0xFFFFFFFF80000000..<0xFFFFFFFF80001000}" for j a
    using demo_object_unat [OF that(1)] that by (cases "object_at ?V 96 j = a") auto
  have keep: "mem t a = mem u a" if "unat a \<notin> {0xFFFFFFFF80000000..<0xFFFFFFFF80001000}" for a
    using request_fresh(2) [OF t(1) u(1) _ _ u(5,6), of a] at [OF _ that] by auto
  have L: "layout_ok demo_slab" "unat (pf_freelist_at demo_slab) = 0xFFFFFFFF80220000"
    by (simp_all add: layout_ok_def demo_slab_fields demo_page_def demo_vm_def)
  have "clear_of t ?cpu (desc 256) (object_at ?V 96 j)" if "j < 42" for j
  proof (rule off_nodes_clear [OF u(3)])
    show "off_nodes u (object_at ?V 96 j)"
      using off_nodes_between [OF L(1), of "object_at ?V 96 j"] demo_object_unat [OF that] L(2) that u(4)
      by (simp add: off_nodes_def)
    show "object_at ?V 96 j \<noteq> 0" "object_at ?V 96 j \<notin> {cpu_freelist_of ?cpu, cpu_page_of ?cpu}"
      using at [OF that, of 0] at [OF that, of ?cpu] at [OF that, of "?cpu + 8"] by (auto simp: slab_layout)
  qed (simp_all add: keep desc_256)
  moreover have "KM_GetSlabCpu ?C demo_slab = Inr ?cpu" "core_id t = core_id demo_slab"
    using t(2) by (simp_all add: KM_GetSlabCpu_def demo_slab_fields MAX_CPU_AMOUNT_def res_simps)
  moreover have "mem demo_slab (cpu_freelist_of ?cpu) = 0" "node_next (mem demo_slab) (cpu_partial_of ?cpu) = 0"
      "mem demo_slab (cache_node_of ?C 0) \<noteq> 0"
    by (simp_all add: demo_slab_fields demo_mem_def slab_layout node_next_def)
  ultimately obtain s' where "repeat_call (Suc 3) (slab_AllocateObject (Suc 0) 1 0 ?C) demo_slab =
      Inr (object_at ?V 96 0 # map (object_at ?V 96) [0..<3], s')"
    using slab_new_page_sequence [of ?C demo_slab ?cpu 1 "desc 256" t ?V 96 42 3 0 0] fr t(1)
    by (auto simp del: repeat_call.simps)
  then show ?thesis by (simp add: object_at_def upt_rec numeral_eq_Suc del: repeat_call.simps)
qed

end
