(* ===== verification/Slub_Processors.thy ===== *)
theory Slub_Processors
  imports Slub_Objects
begin

text \<open>
  Several processors that allocate from one cache of \<^verbatim>\<open>Kernel/src/mm/slub.c\<close>.  Each has its own entry of
  \<^verbatim>\<open>cpu_slab\<close> and its own page; their requests come in any order.
\<close>

section \<open>Schedules\<close>

text \<open>A request of processor \<open>c\<close> runs with \<open>c\<close> as the current core.\<close>

fun on_cores :: "('a vm_state_scheme \<Rightarrow> (u64 \<times> 'a vm_state_scheme) res) \<Rightarrow> nat list \<Rightarrow> 'a vm_state_scheme \<Rightarrow>
    (u64 list \<times> 'a vm_state_scheme) res" where
  "on_cores f [] s = Inr ([], s)"
| "on_cores f (c # cs) s =
     bind_res (f (s\<lparr>core_id := c\<rparr>)) (\<lambda>(p, s1). bind_res (on_cores f cs s1) (\<lambda>(ps, s2). Inr (p # ps, s2)))"

text \<open>Which object of its own page every request of a schedule should get.\<close>

fun served :: "(nat \<Rightarrow> nat) \<Rightarrow> nat list \<Rightarrow> (nat \<times> nat) list" where
  "served I [] = []"
| "served I (c # cs) = (c, I c) # served (I(c := I c + 1)) cs"

lemma served_range: "(c, i) \<in> set (served I cs) \<Longrightarrow> c \<in> set cs \<and> I c \<le> i \<and> i < I c + count_list cs c"
proof (induction cs arbitrary: I)
  case (Cons d cs)
  then consider "c = d" "i = I d" | "(c, i) \<in> set (served (I(d := I d + 1)) cs)" by auto
  then show ?case
  proof cases
    case 2
    from Cons.IH [OF this] show ?thesis by (auto split: if_splits)
  qed simp
qed simp

lemma served_distinct: "distinct (served I cs)"
proof (induction cs arbitrary: I)
  case (Cons c cs)
  then show ?case using served_range [of c "I c" "I(c := I c + 1)" cs] by auto
qed simp

section \<open>Processors with pages of their own\<close>

definition cores_ok ::
  "'a slab_state_scheme \<Rightarrow> u64 \<Rightarrow> nat set \<Rightarrow> (nat \<Rightarrow> u64) \<Rightarrow> nat \<Rightarrow> (nat \<Rightarrow> nat) \<Rightarrow> (nat \<Rightarrow> nat) \<Rightarrow> (nat \<Rightarrow> nat) \<Rightarrow> bool" where
  "cores_ok s cache C V k N I U \<longleftrightarrow>
     (\<forall>c\<in>C. c < MAX_CPU_AMOUNT \<and> serving (s\<lparr>core_id := c\<rparr>) cache (cache_cpu_slab cache c) (V c) k (N c) (I c) (U c)) \<and>
     (\<forall>c\<in>C. \<forall>d\<in>C. c \<noteq> d \<longrightarrow>
        mem s (cpu_page_of (cache_cpu_slab cache c)) \<noteq> mem s (cpu_page_of (cache_cpu_slab cache d)) \<and>
        (\<forall>j<N d. object_at (V d) k j \<noteq> cpu_freelist_of (cache_cpu_slab cache c)))"

lemma cores_apart:
  assumes "cores_ok s cache C V k N I U" and "c \<in> C" and "d \<in> C" and "c \<noteq> d"
  shows "mem s (cpu_page_of (cache_cpu_slab cache c)) \<noteq> mem s (cpu_page_of (cache_cpu_slab cache d))"
    and "\<forall>j<N d. object_at (V d) k j \<noteq> cpu_freelist_of (cache_cpu_slab cache c)"
  using assms by (simp_all add: cores_ok_def)

lemma cpu_slab_cells:
  assumes "c < MAX_CPU_AMOUNT" and "d < MAX_CPU_AMOUNT"
  shows "cpu_page_of (cache_cpu_slab cache c) \<noteq> cpu_freelist_of (cache_cpu_slab cache d)"
    and "cpu_freelist_of (cache_cpu_slab cache c) = cpu_freelist_of (cache_cpu_slab cache d) \<longleftrightarrow> c = d"
proof -
  have u: "unat (of_nat (32 * c + e) :: u64) = 32 * c + e" if "c < MAX_CPU_AMOUNT" "e < 32" for c e
    using that by (simp only: unat_of_nat) (simp add: MAX_CPU_AMOUNT_def)
  have c8: "unat (of_nat (32 * c + 8) :: u64) = 32 * c + 8" and c0: "unat (of_nat (32 * c + 0) :: u64) = 32 * c + 0"
      and d0: "unat (of_nat (32 * d + 0) :: u64) = 32 * d + 0"
    by (rule u [OF assms(1)] u [OF assms(2)], simp)+
  have "(of_nat (32 * c + 8) :: u64) \<noteq> of_nat (32 * d + 0)"
  proof
    assume "(of_nat (32 * c + 8) :: u64) = of_nat (32 * d + 0)"
    then have "32 * c + 8 = 32 * d + 0" using c8 d0 by metis
    then show False by presburger
  qed
  then show "cpu_page_of (cache_cpu_slab cache c) \<noteq> cpu_freelist_of (cache_cpu_slab cache d)"
    by (simp add: slab_layout ac_simps)
  have "(of_nat (32 * c + 0) :: u64) = of_nat (32 * d + 0) \<longleftrightarrow> c = d"
    using c0 d0 by (metis add.right_neutral mult_cancel1 zero_neq_numeral)
  then show "cpu_freelist_of (cache_cpu_slab cache c) = cpu_freelist_of (cache_cpu_slab cache d) \<longleftrightarrow> c = d"
    by (simp add: slab_layout)
qed

text \<open>What a request of another processor leaves as it is.\<close>

lemma serving_other:
  assumes S: "serving s cache slabCpu virt k n i u"
    and m: "mem s' = (mem s)(F := v)" and f: "\<And>p. p \<noteq> page \<Longrightarrow> frames s' p = frames s p" and c: "core_id s' = core_id s"
    and F: "F \<noteq> cpu_freelist_of slabCpu" "F \<noteq> cpu_page_of slabCpu" "mem s (cpu_page_of slabCpu) \<noteq> page"
      "\<forall>j<n. object_at virt k j \<noteq> F"
  shows "serving s' cache slabCpu virt k n i u"
proof -
  have "object_chain (mem s') virt k i n"
    by (rule object_chain_cong) (use S F(4) in \<open>auto simp: serving_def m\<close>)
  then show ?thesis
    using S F KM_GetSlabCpu_cong [OF c, of cache] f [OF F(3)] by (auto simp: serving_def m)
qed

lemma cores_step:
  assumes A: "cores_ok s cache C V k N I U" and c: "c \<in> C" and i: "I c + 1 < N c" "U c + 1 < N c"
  shows "\<exists>s'. slab_AllocateObject (Suc jumps) fuel junk cache (s\<lparr>core_id := c\<rparr>) = Inr (object_at (V c) k (I c), s') \<and>
    cores_ok s' cache C V k N (I(c := I c + 1)) (U(c := U c + 1))"
proof -
  let ?F = "\<lambda>c. cpu_freelist_of (cache_cpu_slab cache c)" and ?P = "\<lambda>c. cpu_page_of (cache_cpu_slab cache c)"
  have S: "serving (s\<lparr>core_id := d\<rparr>) cache (cache_cpu_slab cache d) (V d) k (N d) (I d) (U d)" "d < MAX_CPU_AMOUNT" if "d \<in> C" for d
    using A that by (simp_all add: cores_ok_def)
  obtain s' where s': "slab_AllocateObject (Suc jumps) fuel junk cache (s\<lparr>core_id := c\<rparr>) = Inr (object_at (V c) k (I c), s')"
      "serving s' cache (cache_cpu_slab cache c) (V c) k (N c) (I c + 1) (U c + 1)"
      "mem s' = (mem s)(?F c := object_at (V c) k (I c + 1))" "\<forall>p. p \<noteq> mem s (?P c) \<longrightarrow> frames s' p = frames s p" "core_id s' = c"
    using serving_step_frame [OF S(1) [OF c] i, of jumps fuel junk] by auto
  have cells: "?P d \<noteq> ?F c" if "d \<in> C" for d using cpu_slab_cells(1) S(2) c that by blast
  have "serving (s'\<lparr>core_id := d\<rparr>) cache (cache_cpu_slab cache d) (V d) k (N d) ((I(c := I c + 1)) d) ((U(c := U c + 1)) d)"
    if d: "d \<in> C" for d
  proof (cases "d = c")
    case True
    then have "s'\<lparr>core_id := d\<rparr> = s'" using s'(5) by simp
    then show ?thesis using s'(2) True by simp
  next
    case False
    have "?F c \<noteq> ?F d" "?F c \<noteq> ?P d" using cpu_slab_cells [OF S(2) [OF c] S(2) [OF d]] cells [OF d] False by auto
    moreover have "mem s (?P d) \<noteq> mem s (?P c)" "\<forall>j<N d. object_at (V d) k j \<noteq> ?F c"
      using cores_apart [OF A c d] False by auto
    ultimately have "serving (s'\<lparr>core_id := d\<rparr>) cache (cache_cpu_slab cache d) (V d) k (N d) (I d) (U d)"
      using s'(3,4) by (intro serving_other [OF S(1) [OF d], where F = "?F c" and page = "mem s (?P c)"]) simp_all
    then show ?thesis using False by simp
  qed
  moreover have "mem s' (?P d) = mem s (?P d)" if "d \<in> C" for d using cells [OF that] s'(3) by simp
  moreover have "\<forall>c\<in>C. \<forall>d\<in>C. c \<noteq> d \<longrightarrow> mem s (?P c) \<noteq> mem s (?P d) \<and> (\<forall>j<N d. object_at (V d) k j \<noteq> ?F c)"
    using cores_apart [OF A] by simp
  ultimately have "cores_ok s' cache C V k N (I(c := I c + 1)) (U(c := U c + 1))"
    using S(2) unfolding cores_ok_def by (simp del: fun_upd_apply)
  then show ?thesis using s'(1) by blast
qed

lemma cores_run:
  "cores_ok s cache C V k N I U \<Longrightarrow> set cs \<subseteq> C \<Longrightarrow>
   (\<forall>c\<in>set cs. I c + count_list cs c < N c \<and> U c + count_list cs c < N c) \<Longrightarrow>
   \<exists>s'. on_cores (slab_AllocateObject (Suc jumps) fuel junk cache) cs s =
     Inr (map (\<lambda>(c, i). object_at (V c) k i) (served I cs), s')"
proof (induction cs arbitrary: s I U)
  case (Cons c cs)
  obtain s1 where s1: "slab_AllocateObject (Suc jumps) fuel junk cache (s\<lparr>core_id := c\<rparr>) = Inr (object_at (V c) k (I c), s1)"
      "cores_ok s1 cache C V k N (I(c := I c + 1)) (U(c := U c + 1))"
    using cores_step [OF Cons.prems(1), of c jumps fuel junk] Cons.prems(2,3) by auto
  have "\<forall>d\<in>set cs. (I(c := I c + 1)) d + count_list cs d < N d \<and> (U(c := U c + 1)) d + count_list cs d < N d"
    using Cons.prems(3) by (auto split: if_splits)
  then show ?case using Cons.IH [OF s1(2)] s1(1) Cons.prems(2) by (auto simp del: fun_upd_apply)
qed simp


text \<open>Two processors, each with a page of four objects of eight bytes.\<close>

definition demo_cores :: slab_state where
  "demo_cores = vm_state.extend (demo_vm\<lparr>
       mem := (\<lambda>_. 0)(0x1018 := 0x10000, 0x1020 := 0x100, 0x1038 := 0x20000, 0x1040 := 0x200,
         0x10000 := 0x10008, 0x10008 := 0x10010, 0x10010 := 0x10018,
         0x20000 := 0x20008, 0x20008 := 0x20010, 0x20010 := 0x20018),
       frames := (\<lambda>_. Some (demo_frame\<lparr>slab_objects := 4\<rparr>))\<rparr>)
     (slab_state.fields (\<lambda>_. 0) 0)"

lemma core_object: "i < 4 \<Longrightarrow> object_at (0x10000 * (of_nat c + 1)) 8 i = of_nat (0x10000 * (c + 1) + 8 * i)"
  by (simp add: object_at_def)

lemma core_object_unat: "c < 2 \<Longrightarrow> i < 4 \<Longrightarrow> unat (object_at (0x10000 * (of_nat c + 1)) 8 i) = 0x10000 * (c + 1) + 8 * i"
  unfolding core_object by (simp only: unat_of_nat) simp

lemma demo_cores_ok:
  "cores_ok demo_cores 0x1000 {0, 1} (\<lambda>c. 0x10000 * (of_nat c + 1)) 8 (\<lambda>_. 4) (\<lambda>_. 0) (\<lambda>_. 0)"
proof -
  have u: "object_at (0x10000 * (of_nat c + 1)) 8 j \<noteq> a" if "c < 2" "j < 4" "unat a < 0x10000" for c j a
    using core_object_unat [OF that(1,2)] that(3) by auto
  have "mem demo_cores (object_at (0x10000 * (of_nat c + 1)) 8 j) = object_at (0x10000 * (of_nat c + 1)) 8 (j + 1)"
    if c: "c \<in> {0, 1}" and j: "j + 1 < 4" for c j
  proof -
    consider "j = 0" | "j = 1" | "j = 2" using j by linarith
    then show ?thesis
      by cases (use c in \<open>auto simp: object_at_def demo_cores_def slab_state.defs vm_state.defs demo_vm_def\<close>)
  qed
  then have chain: "object_chain (mem demo_cores) (0x10000 * (of_nat c + 1)) 8 0 4" if "c \<in> {0, 1}" for c
    using that by (simp add: object_chain_def)
  have "serving (demo_cores\<lparr>core_id := c\<rparr>) 0x1000 (cache_cpu_slab 0x1000 c) (0x10000 * (of_nat c + 1)) 8 4 0 0"
    if c: "c \<in> {0, 1}" for c
    using chain [OF c] u [of c _ 0] u [of c _ "cpu_freelist_of (cache_cpu_slab 0x1000 c)"] c
    by (auto simp: serving_def KM_GetSlabCpu_def slab_layout res_simps demo_cores_def slab_state.defs vm_state.defs demo_vm_def
        demo_frame_def object_at_def)
  moreover have "mem demo_cores 0x1020 = 0x100" "mem demo_cores 0x1040 = 0x200"
    by (simp_all add: demo_cores_def slab_state.defs vm_state.defs demo_vm_def)
  ultimately show ?thesis
    using u [of 0 _ "0x1038"] u [of 1 _ "0x1018"]
    by (simp add: cores_ok_def slab_layout)
qed


end
