(* ===== verification/Pci.thy ===== *)
theory Pci
  imports Kernel_Prelude
begin

text \<open>
  The PCI interface: \<^verbatim>\<open>Kernel/arch/x86_64/pci.h\<close> and \<^verbatim>\<open>pci.c\<close>.  The functions that access the
  configuration space (\<^verbatim>\<open>PCI_ConfigReadDword\<close> and its relatives) are declared but defined nowhere in
  the repository; they are the parameters \<open>read32\<close>, \<open>read16\<close>, \<open>write16\<close>, \<open>read8\<close> and \<open>write8\<close> of
  the definitions that call them, functions of bus, slot, function, offset and a configuration
  state of any type.
\<close>

section \<open>Registers and data\<close>

definition PCI_COMMAND :: u8 where "PCI_COMMAND = 0x4"
definition PCI_BAR0 :: u8 where "PCI_BAR0 = 0x10"
definition PCI_INTERRUPT_LINE :: u8 where "PCI_INTERRUPT_LINE = 0x3c"
definition PCI_CMD_BUS_MASTER :: u16 where "PCI_CMD_BUS_MASTER = push_bit 2 1"
definition PCI_CAP_MSI_ADDRESS_BASE :: u32 where "PCI_CAP_MSI_ADDRESS_BASE = 0xFEE00000"
definition PCI_CAP_MSI_CONTROL_64 :: u16 where "PCI_CAP_MSI_CONTROL_64 = push_bit 7 1"
definition PCI_CAP_MSI_CONTROL_SET_MME :: "u32 \<Rightarrow> u32" where "PCI_CAP_MSI_CONTROL_SET_MME x = push_bit 4 (x AND 0x7)"
definition PCI_CAP_MSI_CONTROL_MMC :: "u32 \<Rightarrow> u32" where "PCI_CAP_MSI_CONTROL_MMC x = drop_bit 1 x AND 0x7"

text \<open>The offsets of the configuration registers; the macro for the capabilities pointer ends in a comma.\<close>

definition pci_registers :: "(string \<times> u8) list" where
  "pci_registers =
    [(''PCI_DEVICE_ID'', 0x2), (''PCI_VENDOR_ID'', 0x0), (''PCI_STATUS'', 0x6), (''PCI_COMMAND'', 0x4),
     (''PCI_CLASS_CODE'', 0xb), (''PCI_SUB_CLASS'', 0xa), (''PCI_PROG_IF'', 0x9), (''PCI_REVISION_ID'', 0x8),
     (''PCI_BIST'', 0xf), (''PCI_HEADER_TYPE'', 0xe), (''PCI_LATENCY_TIMER'', 0xd), (''PCI_CACHE_LINE_SIZE'', 0xc),
     (''PCI_BAR0'', 0x10), (''PCI_BAR1'', 0x14), (''PCI_BAR2'', 0x18), (''PCI_BAR3'', 0x1c), (''PCI_BAR4'', 0x20),
     (''PCI_BAR5'', 0x24), (''PCI_CARDBUS_CIS_POINTER'', 0x28), (''PCI_SUBSYSTEM_ID'', 0x2e),
     (''PCI_SUBSYSTEM_VENDOR'', 0x2c), (''PCI_EXPANSION_ROM_BASE_ADDRESS'', 0x30), (''PCI_CAPABILITIES_POINTER'', 0x34),
     (''PCI_MAX_LATENCY'', 0x3f), (''PCI_MIN_GRANT'', 0x3e), (''PCI_INTERRUPT_PIN'', 0x3d), (''PCI_INTERRUPT_LINE'', 0x3c)]"

text \<open>Each of the four words of the capability is a union; \<open>msiControl\<close> is the upper half of the first.\<close>

record pci_msicap =
  register0 :: u32
  register1 :: u32
  register2 :: u32
  register3 :: u32

definition msiControl :: "pci_msicap \<Rightarrow> u16" where "msiControl c = ucast (drop_bit 16 (register0 c))"
definition addressLow :: "pci_msicap \<Rightarrow> u32" where "addressLow c = register1 c"
definition addressHigh :: "pci_msicap \<Rightarrow> u32" where "addressHigh c = register2 c"

record pci_device =
  pci_deviceId :: u16
  pci_vendorId :: u16
  pci_bus :: u8
  pci_slot :: u8
  pci_func :: u8
  pci_classCode :: u8
  pci_subClass :: u8
  pci_progIf :: u8
  pci_msiPtr :: u8
  pci_msiCap :: pci_msicap
  pci_msiCapable :: bool

datatype PCIConfigurationAccessMode = Legacy | Enhanced

section \<open>Message signalled interrupts\<close>

definition PCI_Initialize :: "'s \<Rightarrow> 's" where "PCI_Initialize s = s"

definition PCI_MsiCapSetData :: "u32 \<Rightarrow> pci_msicap \<Rightarrow> pci_msicap" where
  "PCI_MsiCapSetData dat c =
     (if msiControl c AND PCI_CAP_MSI_CONTROL_64 \<noteq> 0 then c\<lparr>register3 := dat\<rparr> else c\<lparr>register2 := dat\<rparr>)"

definition PCI_MsiCapGetData :: "pci_msicap \<Rightarrow> u32" where
  "PCI_MsiCapGetData c =
     (if msiControl c AND PCI_CAP_MSI_CONTROL_64 \<noteq> 0 then register3 c else register2 c)"

definition PCI_MsiCapSetAddress :: "u32 \<Rightarrow> pci_msicap \<Rightarrow> pci_msicap" where
  "PCI_MsiCapSetAddress cpu c =
     (let c1 = c\<lparr>register1 := PCI_CAP_MSI_ADDRESS_BASE OR push_bit 12 cpu\<rparr>
      in if msiControl c1 AND PCI_CAP_MSI_CONTROL_64 \<noteq> 0 then c1\<lparr>register2 := 0\<rparr> else c1)"

section \<open>Configuration space\<close>

type_synonym ('c, 'v) config_read = "u8 \<Rightarrow> u8 \<Rightarrow> u8 \<Rightarrow> u8 \<Rightarrow> 'c \<Rightarrow> 'v"
type_synonym ('c, 'v) config_write = "u8 \<Rightarrow> u8 \<Rightarrow> u8 \<Rightarrow> u8 \<Rightarrow> 'v \<Rightarrow> 'c \<Rightarrow> 'c"

definition PCI_GetBaseAddressRegister :: "('c, u32) config_read \<Rightarrow> pci_device \<Rightarrow> u8 \<Rightarrow> 'c \<Rightarrow> u64" where
  "PCI_GetBaseAddressRegister read32 device idx c =
     (let rd = (\<lambda>offset :: u64. read32 (pci_bus device) (pci_slot device) (pci_func device) (ucast offset) c);
          bar = ucast (rd (ucast PCI_BAR0 + ucast idx * 4)) :: u64;
          bar1 = (if \<not> (bar AND 0x1 \<noteq> 0) \<and> bar AND 0x4 \<noteq> 0 \<and> idx < 5
                  then bar OR push_bit 32 (ucast (rd (ucast PCI_BAR0 + (bar + 1) * 4))) else bar)
      in if bar1 AND 0x1 \<noteq> 0 then bar1 AND 0xFFFFFFFFFFFFFFFC else bar1 AND 0xFFFFFFFFFFFFFFF0)"

definition PCI_IsBarIOPort :: "('c, u32) config_read \<Rightarrow> pci_device \<Rightarrow> u8 \<Rightarrow> 'c \<Rightarrow> bool" where
  "PCI_IsBarIOPort read32 device idx c \<longleftrightarrow>
     read32 (pci_bus device) (pci_slot device) (pci_func device) (ucast (ucast PCI_BAR0 + ucast idx * 4 :: u64)) c AND 0x1 \<noteq> 0"

definition PCI_GetInterruptLine :: "('c, u8) config_read \<Rightarrow> pci_device \<Rightarrow> 'c \<Rightarrow> u8" where
  "PCI_GetInterruptLine read8 device c = read8 (pci_bus device) (pci_slot device) (pci_func device) PCI_INTERRUPT_LINE c"

definition PCI_SetInterruptLine :: "('c, u8) config_write \<Rightarrow> pci_device \<Rightarrow> u8 \<Rightarrow> 'c \<Rightarrow> 'c" where
  "PCI_SetInterruptLine write8 device irq c =
     write8 (pci_bus device) (pci_slot device) (pci_func device) PCI_INTERRUPT_LINE irq c"

definition PCI_GetCommand :: "('c, u16) config_read \<Rightarrow> pci_device \<Rightarrow> 'c \<Rightarrow> u16" where
  "PCI_GetCommand read16 device c = read16 (pci_bus device) (pci_slot device) (pci_func device) PCI_COMMAND c"

definition PCI_SetCommand :: "('c, u16) config_write \<Rightarrow> pci_device \<Rightarrow> u16 \<Rightarrow> 'c \<Rightarrow> 'c" where
  "PCI_SetCommand write16 device val c = write16 (pci_bus device) (pci_slot device) (pci_func device) PCI_COMMAND val c"

definition PCI_EnableBusMastering ::
  "('c, u16) config_read \<Rightarrow> ('c, u16) config_write \<Rightarrow> pci_device \<Rightarrow> 'c \<Rightarrow> 'c" where
  "PCI_EnableBusMastering read16 write16 device c =
     write16 (pci_bus device) (pci_slot device) (pci_func device) PCI_COMMAND
       (read16 (pci_bus device) (pci_slot device) (pci_func device) PCI_COMMAND c OR PCI_CMD_BUS_MASTER) c"

section \<open>Properties\<close>

text \<open>
  C35. Programming a message: data and address can be set in either order with the same result; the
  data reads back, the address is the one of the processor's local APIC, the control word is kept, and
  a capability of 64 bits gets an upper address of zero.
\<close>

theorem msi_message_programmed:
  "let c' = PCI_MsiCapSetAddress cpu (PCI_MsiCapSetData dat c)
   in PCI_MsiCapSetData dat (PCI_MsiCapSetAddress cpu c) = c' \<and> PCI_MsiCapGetData c' = dat \<and>
      addressLow c' = 0xFEE00000 OR push_bit 12 cpu \<and> register0 c' = register0 c \<and>
      (addressHigh c' = 0 \<or> addressHigh c' = dat \<and> msiControl c AND PCI_CAP_MSI_CONTROL_64 = 0)"
  by (auto simp: Let_def PCI_MsiCapSetAddress_def PCI_MsiCapSetData_def PCI_MsiCapGetData_def addressLow_def
      addressHigh_def msiControl_def PCI_CAP_MSI_ADDRESS_BASE_def)

lemma ucast_ucast_up: "(ucast (ucast (x :: u32) :: u64) :: u32) = x" "(ucast (ucast (y :: u8) :: u64) :: u8) = y"
    "(ucast (ucast (x :: u32) :: u64) :: u8) = ucast x"
  by (transfer, simp add: min_def)+

lemma ucast_zero_iff: "(ucast (x :: u32) :: u64) = 0 \<longleftrightarrow> x = 0"
  by (metis ucast_ucast_up(1) unsigned_0)

lemma ucast_down:
  "(ucast (a + b :: u64) :: u8) = ucast a + ucast b" "(ucast (a * b :: u64) :: u8) = ucast a * ucast b"
proof -
  have u: "(ucast w :: u8) = of_nat (unat w)" for w :: u64 by simp
  have "(of_nat (n mod 2 ^ 64) :: u8) = of_nat n" for n
    by (simp add: word_of_nat_eq_iff take_bit_eq_mod mod_mod_cancel)
  then show "(ucast (a + b) :: u8) = ucast a + ucast b" "(ucast (a * b) :: u8) = ucast a * ucast b"
    unfolding u unat_word_ariths by (simp_all del: of_nat_unat)
qed

lemma low_bits:
  fixes lo :: u32
  shows "(ucast lo :: u64) AND 1 = 0 \<longleftrightarrow> lo AND 1 = 0" "(ucast lo :: u64) AND 4 = 0 \<longleftrightarrow> lo AND 4 = 0"
proof -
  have "(ucast lo :: u64) AND 1 = ucast (lo AND 1)" "(ucast lo :: u64) AND 4 = ucast (lo AND 4)"
    by (simp_all add: unsigned_and_eq)
  then show "(ucast lo :: u64) AND 1 = 0 \<longleftrightarrow> lo AND 1 = 0" "(ucast lo :: u64) AND 4 = 0 \<longleftrightarrow> lo AND 4 = 0"
    using ucast_zero_iff by metis+
qed

lemma bar_offset: "(ucast (ucast PCI_BAR0 + ucast idx * 4 :: u64) :: u8) = PCI_BAR0 + 4 * idx"
  by (simp add: ucast_down ucast_ucast_up mult.commute)

text \<open>The offset of the second read depends on the low six bits of the register only.\<close>

lemma second_offset: "(ucast (ucast PCI_BAR0 + (ucast lo * 4 + 4) :: u64) :: u8) = 0x14 + 4 * ucast ((lo :: u32) AND 0x3F)"
proof -
  have m: "(0x3F :: u32) = mask 6" by (simp add: mask_eq_decr_exp)
  have four: "4 * y = push_bit 2 y" for y :: u8 by (simp add: push_bit_eq_mult)
  have "4 * (ucast lo :: u8) = 4 * ucast (lo AND 0x3F)"
    unfolding m four by (rule bit_word_eqI) (auto simp: bit_simps)
  then show ?thesis by (simp add: ucast_down ucast_ucast_up PCI_BAR0_def distrib_right mult.commute)
qed

lemma kind_bits:
  fixes lo :: u32
  shows "(ucast lo :: u64) AND 0xFFFFFFFFFFFFFFFC = ucast (lo AND 0xFFFFFFFC)"
    "(ucast lo :: u64) AND 0xFFFFFFFFFFFFFFF0 = ucast (lo AND 0xFFFFFFF0)"
proof -
  have m: "(0xFFFFFFFFFFFFFFFC :: u64) = NOT (mask 2)" "(0xFFFFFFFFFFFFFFF0 :: u64) = NOT (mask 4)"
      "(0xFFFFFFFC :: u32) = NOT (mask 2)" "(0xFFFFFFF0 :: u32) = NOT (mask 4)" by (simp_all add: mask_eq_decr_exp)
  show "(ucast lo :: u64) AND 0xFFFFFFFFFFFFFFFC = ucast (lo AND 0xFFFFFFFC)"
      "(ucast lo :: u64) AND 0xFFFFFFFFFFFFFFF0 = ucast (lo AND 0xFFFFFFF0)"
    unfolding m by (rule bit_word_eqI; auto simp: bit_simps dest: bit_imp_le_length; fail)+
qed

lemma bar_value:
  "PCI_GetBaseAddressRegister read32 device idx c =
     (let lo = read32 (pci_bus device) (pci_slot device) (pci_func device) (PCI_BAR0 + 4 * idx) c;
          hi = read32 (pci_bus device) (pci_slot device) (pci_func device) (0x14 + 4 * ucast (lo AND 0x3F)) c
      in if lo AND 1 \<noteq> 0 then ucast lo AND 0xFFFFFFFFFFFFFFFC
         else if lo AND 4 \<noteq> 0 \<and> idx < 5 then push_bit 32 (ucast hi) OR (ucast lo AND 0xFFFFFFFFFFFFFFF0)
         else ucast lo AND 0xFFFFFFFFFFFFFFF0)"
proof -
  have "(x OR push_bit 32 y) AND 1 = x AND 1" "(x OR push_bit 32 y) AND 0xFFFFFFFFFFFFFFF0 = push_bit 32 y OR (x AND 0xFFFFFFFFFFFFFFF0)"
    for x y :: u64
  proof -
    have f: "(0xFFFFFFFFFFFFFFF0 :: u64) = NOT (mask 4)" by (simp add: mask_eq_decr_exp)
    show "(x OR push_bit 32 y) AND 1 = x AND 1" by (rule bit_word_eqI) (auto simp: bit_simps)
    show "(x OR push_bit 32 y) AND 0xFFFFFFFFFFFFFFF0 = push_bit 32 y OR (x AND 0xFFFFFFFFFFFFFFF0)"
      unfolding f by (rule bit_word_eqI) (auto simp: bit_simps)
  qed
  then show ?thesis
    by (simp add: PCI_GetBaseAddressRegister_def Let_def bar_offset second_offset low_bits)
qed

text \<open>
  Base addresses of 32 bits and ports are decoded as the PCI specification demands: the kind bits
  are masked off and the address is the rest of the register.
\<close>

theorem pci_bar_32bit:
  assumes "read32 (pci_bus d) (pci_slot d) (pci_func d) (PCI_BAR0 + 4 * idx) c = lo"
    and "lo AND 1 \<noteq> 0 \<or> lo AND 4 = 0"
  shows "PCI_GetBaseAddressRegister read32 d idx c = ucast (lo AND (if lo AND 1 \<noteq> 0 then 0xFFFFFFFC else 0xFFFFFFF0)) \<and>
    (PCI_IsBarIOPort read32 d idx c \<longleftrightarrow> lo AND 1 \<noteq> 0)"
  using assms by (auto simp: bar_value PCI_IsBarIOPort_def bar_offset kind_bits simp del: unsigned_and_eq)

text \<open>
  Base addresses of 64 bits are not: the second read uses the value of the register in place
  of its number.  For a region of at least 64 bytes the upper half comes from offset \<^verbatim>\<open>0x24\<close>, the sixth
  register, or for a prefetchable region from offset \<^verbatim>\<open>0x44\<close>, whichever register was asked for.
\<close>

theorem pci_bar_upper_half:
  assumes "read32 (pci_bus d) (pci_slot d) (pci_func d) (PCI_BAR0 + 4 * idx) c = lo"
    and "lo AND 0x3F = 0x4 \<or> lo AND 0x3F = 0xC" and "idx < 5"
  shows "PCI_GetBaseAddressRegister read32 d idx c =
    push_bit 32 (ucast (read32 (pci_bus d) (pci_slot d) (pci_func d) (if lo AND 0x3F = 0x4 then 0x24 else 0x44) c)) OR
    (ucast lo AND 0xFFFFFFFFFFFFFFF0)"
proof -
  have "lo AND 1 = (lo AND 0x3F) AND 1" "lo AND 4 = (lo AND 0x3F) AND 4" by (simp_all add: and.assoc)
  then have "lo AND 1 = 0" "lo AND 4 \<noteq> 0" using assms(2) by auto
  then show ?thesis using assms by (auto simp: bar_value)
qed

text \<open>
  On a configuration space that keeps what is written, bus mastering is switched on without
  touching another bit of the command register, and the interrupt line reads back.
\<close>

theorem pci_command_roundtrip:
  assumes "\<And>b s f off v c. read16 b s f off (write16 b s f off v c) = v"
    and "\<And>b s f off v c. read8 b s f off (write8 b s f off v c) = v"
  shows "PCI_GetCommand read16 d (PCI_EnableBusMastering read16 write16 d c) = PCI_GetCommand read16 d c OR 4 \<and>
    PCI_GetCommand read16 d (PCI_SetCommand write16 d val c) = val \<and>
    PCI_GetInterruptLine read8 d (PCI_SetInterruptLine write8 d irq c) = irq"
  using assms by (simp add: PCI_GetCommand_def PCI_EnableBusMastering_def PCI_SetCommand_def PCI_GetInterruptLine_def
      PCI_SetInterruptLine_def PCI_CMD_BUS_MASTER_def)

section \<open>A configuration space of bytes\<close>

definition cfg_read8 :: "(u8 \<times> u8 \<times> u8 \<times> u8 \<Rightarrow> u8, u8) config_read" where "cfg_read8 b s f off c = c (b, s, f, off)"
definition cfg_write8 :: "(u8 \<times> u8 \<times> u8 \<times> u8 \<Rightarrow> u8, u8) config_write" where "cfg_write8 b s f off v c = c((b, s, f, off) := v)"
definition cfg_read16 :: "(u8 \<times> u8 \<times> u8 \<times> u8 \<Rightarrow> u8, u16) config_read" where
  "cfg_read16 b s f off c = ucast (c (b, s, f, off)) OR push_bit 8 (ucast (c (b, s, f, off + 1)))"
definition cfg_write16 :: "(u8 \<times> u8 \<times> u8 \<times> u8 \<Rightarrow> u8, u16) config_write" where
  "cfg_write16 b s f off v c = c((b, s, f, off) := ucast v, (b, s, f, off + 1) := ucast (drop_bit 8 v))"
definition cfg_read32 :: "(u8 \<times> u8 \<times> u8 \<times> u8 \<Rightarrow> u8, u32) config_read" where
  "cfg_read32 b s f off c = ucast (cfg_read16 b s f off c) OR push_bit 16 (ucast (cfg_read16 b s f (off + 2) c))"

definition demo_device :: pci_device where
  "demo_device = \<lparr>pci_deviceId = 0x8086, pci_vendorId = 1, pci_bus = 0, pci_slot = 3, pci_func = 0, pci_classCode = 1,
     pci_subClass = 6, pci_progIf = 1, pci_msiPtr = 0, pci_msiCap = \<lparr>register0 = 0, register1 = 0, register2 = 0, register3 = 0\<rparr>,
     pci_msiCapable = False\<rparr>"

lemma halves16: "(ucast (ucast v :: u8) :: u16) OR push_bit 8 (ucast (ucast (drop_bit 8 v) :: u8)) = (v :: u16)"
proof -
  have "bit ((ucast (ucast v :: u8) :: u16) OR push_bit 8 (ucast (ucast (drop_bit 8 v) :: u8))) n = bit v n" if "n < 16" for n
    using that by (cases "n < 8") (auto simp: bit_simps)
  then show ?thesis by (auto intro: bit_word_eqI)
qed

theorem pci_command_roundtrip_witness:
  "PCI_GetCommand cfg_read16 demo_device (PCI_EnableBusMastering cfg_read16 cfg_write16 demo_device (\<lambda>_. 0)) = 4"
proof -
  have "cfg_read16 b s f off (cfg_write16 b s f off v c) = v" for b s f off v c
    by (simp add: cfg_read16_def cfg_write16_def halves16)
  moreover have "cfg_read8 b s f off (cfg_write8 b s f off v c) = v" for b s f off v c
    by (simp add: cfg_read8_def cfg_write8_def)
  ultimately have "PCI_GetCommand cfg_read16 demo_device (PCI_EnableBusMastering cfg_read16 cfg_write16 demo_device (\<lambda>_. 0)) =
      PCI_GetCommand cfg_read16 demo_device (\<lambda>_. 0) OR 4"
    using pci_command_roundtrip [of cfg_read16 cfg_write16 cfg_read8 cfg_write8] by blast
  then show ?thesis by (simp add: PCI_GetCommand_def cfg_read16_def)
qed

theorem pci_bar_32bit_witness:
  "PCI_GetBaseAddressRegister cfg_read32 demo_device 2 ((\<lambda>_. 0)((0, 3, 0, 0x19) := 0x20, (0, 3, 0, 0x18) := 1)) = 0x2000"
  using pci_bar_32bit [of cfg_read32 demo_device 2 "(\<lambda>_. 0)((0, 3, 0, 0x19) := 0x20, (0, 3, 0, 0x18) := 1)" "0x2001"]
  by (simp add: cfg_read32_def cfg_read16_def demo_device_def PCI_BAR0_def)

theorem pci_bar_upper_half_witness:
  "PCI_GetBaseAddressRegister cfg_read32 demo_device 0
     ((\<lambda>_. 0)((0, 3, 0, 0x13) := 0xE0, (0, 3, 0, 0x10) := 4, (0, 3, 0, 0x14) := 1)) = 0xE0000000"
  using pci_bar_upper_half [of cfg_read32 demo_device 0
      "(\<lambda>_. 0)((0, 3, 0, 0x13) := 0xE0, (0, 3, 0, 0x10) := 4, (0, 3, 0, 0x14) := 1)" "0xE0000004"]
  by (simp add: cfg_read32_def cfg_read16_def demo_device_def PCI_BAR0_def)

end
