(* ===== verification/Page_Release.thy ===== *)
theory Page_Release
  imports Buddy_Refinement
begin

text \<open>
  The byte-sized entry point \<^verbatim>\<open>PM_Allocate\<close>, the release of blocks and the filling of the
  free lists at boot: what \<^verbatim>\<open>PM_Allocate\<close> promises for each range of sizes, why a
  release cannot succeed, when the selection loop never ends, and where
  \<^verbatim>\<open>write_pages\<close> files a fresh block.
\<close>

section \<open>Allocation by size\<close>

lemma small_order:
  assumes "1 \<le> unat sz" and "unat sz \<le> 2048"
  shows "page_size_order (page_size_align sz div 4096) = 255"
proof (cases "unat sz = 1")
  case True
  then have "sz = 1" by (simp add: word_unat_eq_iff)
  then show ?thesis by (simp add: page_size_align_1 page_size_order_0)
next
  case False
  then obtain k where k: "k < 32" "page_size_align sz = 2 ^ Suc k" "2 ^ k < unat sz"
    using assms page_size_align_pow2 [of sz] by auto
  have "(2 :: nat) ^ k < 2 ^ 11" using k(3) assms(2) by simp
  then have "k < 11" by (rule power_less_imp_less_exp [rotated]) simp
  then have "(2 :: nat) ^ Suc k < 2 ^ 12" by (intro power_strict_increasing) auto
  then have "unat (page_size_align sz) < 4096" using k by (simp del: power_Suc)
  then have "page_size_align sz div 4096 = 0" by (simp add: word_unat_eq_iff unat_div)
  then show ?thesis by (simp add: page_size_order_0)
qed

lemma size_order:
  assumes "2048 < unat sz" and "unat sz \<le> 2 ^ 22"
  obtains k where "k \<le> 10" and "page_size_order (page_size_align sz div 4096) = of_nat k"
    and "unat sz \<le> 4096 * 2 ^ k" and "2048 * 2 ^ k < unat sz"
proof -
  obtain j where j: "j < 32" "page_size_align sz = 2 ^ Suc j" "2 ^ j < unat sz" "unat sz \<le> 2 ^ Suc j"
    using assms page_size_align_pow2 [of sz] by auto
  have "(2 :: nat) ^ 11 < 2 ^ Suc j" using j(4) assms(1) by simp
  then have lo: "11 < Suc j" by (rule power_less_imp_less_exp [rotated]) simp
  have "(2 :: nat) ^ j < 2 ^ 22" using j(3) assms(2) by simp
  then have hi: "j < 22" by (rule power_less_imp_less_exp [rotated]) simp
  define k where "k = j - 11"
  have k: "j = k + 11" "k \<le> 10" using lo hi by (auto simp: k_def)
  have pa: "unat (page_size_align sz) = 2 ^ k * 4096"
    unfolding j(2) using j(1) k(1) by (subst unat_pow2) (auto simp: power_add)
  then have d: "page_size_align sz div 4096 = 2 ^ k"
    using k(2) by (simp add: word_unat_eq_iff unat_div)
  have u: "unat ((2 :: u64) ^ k) = 2 ^ k" using k(2) by simp
  have le: "(2 :: nat) ^ k \<le> 2 ^ 10" using k(2) by (intro power_increasing) auto
  then obtain i where i: "i \<le> 10" "page_size_order (2 ^ k) = of_nat i" "2 ^ i \<le> (2 :: nat) ^ k" "(2 :: nat) ^ k < 2 ^ Suc i"
    using page_size_order_log [of "2 ^ k"] u by auto
  have "i \<le> k" using i(3) by (rule power_le_imp_le_exp [rotated]) simp
  moreover have "k < Suc i" using i(4) by (rule power_less_imp_less_exp [rotated]) simp
  ultimately have "i = k" by simp
  then show ?thesis
    using that [of k] i k d j(3,4) by (simp add: power_add algebra_simps)
qed

section \<open>Selection\<close>

lemma select_page_busy:
  assumes "node_next (mem s) h = p" and "p \<noteq> 0" and "frames s p = Some f" and "pf_lock f = 0" and "\<not> pf_free f"
  shows "select_page fuel h s = Inl OutOfFuel"
  using assms
proof (induction fuel)
  case 0
  then show ?case by simp
next
  case (Suc fuel)
  have "s\<lparr>frames := (frames s)(p \<mapsto> f)\<rparr> = s" using Suc.prems(3) by (simp add: fun_upd_idem)
  moreover have unl: "f\<lparr>pf_lock := 0\<rparr> = f" using Suc.prems(4) by simp
  ultimately show ?case
    using Suc by (simp add: lock_frame_def unlock_frame_def load_frame_def store_frame_def Let_def unl)
qed

section \<open>Filling the lists\<close>

lemma write_pages_loop_frames:
  assumes "b + idx + N \<le> frame_limit" and "\<And>j. j < N \<Longrightarrow> frames s (desc (b + idx + j)) \<noteq> None"
  shows "\<exists>F. write_pages_loop N idx (desc b) a s = Inr (s\<lparr>frames := F\<rparr>) \<and>
    (\<forall>j<frame_limit. F (desc j) =
       (if b + idx \<le> j \<and> j < b + idx + N
        then map_option (\<lambda>f. f\<lparr>pf_free := True, pf_addr := a + of_nat (j - b) * ARCH_PAGE_SIZE\<rparr>) (frames s (desc j))
        else frames s (desc j)))"
  using assms
proof (induction N arbitrary: idx s)
  case 0
  then show ?case by (intro exI [of _ "frames s"]) auto
next
  case (Suc N)
  let ?p = "desc (b + idx)"
  have lim: "b + idx < frame_limit" using Suc.prems(1) by simp
  have p: "desc b + of_nat idx * sizeof_pageframe = ?p" by (simp add: desc_def algebra_simps)
  obtain f where f: "frames s ?p = Some f" using Suc.prems(2) [of 0] by auto
  define g where "g = f\<lparr>pf_free := True, pf_addr := a + of_nat idx * ARCH_PAGE_SIZE\<rparr>"
  have "\<And>j. j < N \<Longrightarrow> frames (store_frame ?p g s) (desc (b + Suc idx + j)) \<noteq> None"
    using Suc.prems(2) [of "Suc _"] by (simp add: store_frame_def)
  with Suc.IH [of "Suc idx" "store_frame ?p g s"] Suc.prems(1)
  obtain F where F: "write_pages_loop N (Suc idx) (desc b) a (store_frame ?p g s) =
      Inr ((store_frame ?p g s)\<lparr>frames := F\<rparr>)"
    "\<forall>j<frame_limit. F (desc j) = (if b + Suc idx \<le> j \<and> j < b + Suc idx + N
       then map_option (\<lambda>f. f\<lparr>pf_free := True, pf_addr := a + of_nat (j - b) * ARCH_PAGE_SIZE\<rparr>)
         (frames (store_frame ?p g s) (desc j))
       else frames (store_frame ?p g s) (desc j))" by auto
  have "write_pages_loop (Suc N) idx (desc b) a s = Inr (s\<lparr>frames := F\<rparr>)"
    using F(1) f desc_nonzero [OF lim] by (simp add: p load_frame_def store_frame_def g_def Let_def)
  moreover have "F (desc j) = (if b + idx \<le> j \<and> j < b + idx + Suc N
        then map_option (\<lambda>f. f\<lparr>pf_free := True, pf_addr := a + of_nat (j - b) * ARCH_PAGE_SIZE\<rparr>) (frames s (desc j))
        else frames s (desc j))" if j: "j < frame_limit" for j
    using F(2) j lim f by (cases "j = b + idx") (auto simp: store_frame_def g_def)
  ultimately show ?case by blast
qed

lemma write_pages_eq:
  assumes lim: "n + 1024 \<le> frame_limit" and map: "\<And>j. j < 1024 \<Longrightarrow> frames s (desc (n + j)) \<noteq> None"
  shows "\<exists>F. write_pages (desc n) a s = Inr (s\<lparr>frames := F,
       mem := LinkedListAppend (freelist_handle s 9) (desc n) (mem s),
       freelist_count := (freelist_count s)(9 := freelist_count s 9 + 1)\<rparr>) \<and>
    (\<forall>j<1024. \<exists>f g. frames s (desc (n + j)) = Some f \<and> F (desc (n + j)) = Some g \<and>
       g = f\<lparr>pf_free := True, pf_addr := a + of_nat j * ARCH_PAGE_SIZE,
             pf_order := (if j = 0 then 10 else pf_order f)\<rparr>)"
proof -
  obtain F where F: "write_pages_loop 1024 0 (desc n) a s = Inr (s\<lparr>frames := F\<rparr>)"
    "\<forall>j<frame_limit. F (desc j) = (if n + 0 \<le> j \<and> j < n + 0 + 1024
        then map_option (\<lambda>f. f\<lparr>pf_free := True, pf_addr := a + of_nat (j - n) * ARCH_PAGE_SIZE\<rparr>) (frames s (desc j))
        else frames s (desc j))"
    using write_pages_loop_frames [of n 0 1024 s a] assms by auto
  obtain f0 where f0: "frames s (desc n) = Some f0" using map [of 0] by auto
  have n: "n < frame_limit" using lim by simp
  have F0: "F (desc n) = Some (f0\<lparr>pf_free := True, pf_addr := a\<rparr>)" using F(2) n f0 by simp
  define G where "G = F(desc n \<mapsto> f0\<lparr>pf_free := True, pf_addr := a, pf_order := 10\<rparr>)"
  have "write_pages (desc n) a s = Inr (s\<lparr>frames := G,
       mem := LinkedListAppend (freelist_handle s 9) (desc n) (mem s),
       freelist_count := (freelist_count s)(9 := freelist_count s 9 + 1)\<rparr>)"
    using F(1) F0 desc_nonzero [OF n]
    by (simp add: write_pages_def load_frame_def store_frame_def list_append_def add_count_def
        freelist_handle_def G_def Let_def layout_simps del: write_pages_loop.simps)
  moreover have "\<exists>f g. frames s (desc (n + j)) = Some f \<and> G (desc (n + j)) = Some g \<and>
       g = f\<lparr>pf_free := True, pf_addr := a + of_nat j * ARCH_PAGE_SIZE,
             pf_order := (if j = 0 then 10 else pf_order f)\<rparr>" if j: "j < 1024" for j
    using F(2) map [OF j] lim j n f0 by (cases "j = 0") (auto simp: G_def)
  ultimately show ?thesis by blast
qed

section \<open>Releasing a block\<close>

lemma aligned_mod:
  assumes "k \<le> 10" and "2 ^ k dvd n" and "n < frame_limit"
  shows "(of_nat (4096 * n) :: u64) mod (2 ^ k * 4096) = 0"
proof -
  have "(2 :: nat) ^ k \<le> 2 ^ 10" using assms(1) by (intro power_increasing) auto
  then have "unat ((2 :: u64) ^ k * 4096) = 2 ^ k * 4096"
    using assms(1) by (subst unat_mult_lem [THEN iffD1]) auto
  moreover have "unat (of_nat (4096 * n) :: u64) = 4096 * n"
    using assms(3) by (simp only: unat_of_nat) (simp add: frame_limit_def)
  moreover have "4096 * n mod (2 ^ k * 4096) = 0" using assms(2) by auto
  ultimately show ?thesis by (simp add: word_unat_eq_iff unat_mod)
qed

lemma combine_faults:
  assumes p: "p \<noteq> 0" and f: "frames s p = Some f" "pf_order f = of_nat k" "pf_addr f = of_nat (4096 * n)"
    and k: "k \<le> 10" and dv: "2 ^ k dvd n" and lim: "n + 2 ^ k \<le> frame_limit"
    and low: "frames s (of_nat (4096 * (n + 2 ^ k))) = None"
  shows "PM_CombinePage p s = Inl (PageFault (of_nat (4096 * (n + 2 ^ k))))"
proof -
  have n: "n < frame_limit" by (rule less_le_trans [OF _ lim]) simp
  have al: "pf_addr f mod (2 ^ k * 4096) = 0" using aligned_mod [OF k dv n] f(3) by simp
  have new: "pf_addr f + 2 ^ k * 4096 = of_nat (4096 * (n + 2 ^ k))" using f(3) by (simp add: algebra_simps)
  have "4096 * (n + 2 ^ k) < 2 ^ 64" using lim by (simp add: frame_limit_def)
  moreover have "0 < 4096 * (n + 2 ^ k)" by simp
  ultimately have nz: "(of_nat (4096 * (n + 2 ^ k)) :: u64) \<noteq> 0"
    by (simp only: word_of_nat_eq_0_iff) (auto dest: dvd_imp_le)
  show ?thesis
    using p f of_nat_order [OF k] al new nz low
    by (simp only: PM_CombinePage_def load_frame_def bind_res_Inr Let_def if_False option.case
        ARCH_PAGE_SIZE_def simp_thms if_True) simp
qed

section \<open>Properties\<close>

text \<open>
  For every size above 2048 bytes and up to 4 MiB, a block that \<^verbatim>\<open>PM_Allocate\<close> hands
  out is large enough for the request and smaller than twice the request.
\<close>

theorem allocate_size_fits:
  assumes "represents s xs" and "2048 < unat sz" and "unat sz \<le> 2 ^ 22"
    and "PM_Allocate (Suc fuel) sz s = Inr (p, s')" and "p \<noteq> 0"
  shows "\<exists>n k. p = desc n \<and> handed_out s' k n \<and> unat sz \<le> 4096 * 2 ^ k \<and> 4096 * 2 ^ k < 2 * unat sz"
proof -
  obtain k where k: "k \<le> 10" "page_size_order (page_size_align sz div 4096) = of_nat k"
      "unat sz \<le> 4096 * 2 ^ k" "2048 * 2 ^ k < unat sz"
    using size_order [OF assms(2,3)] by blast
  have u: "unat (of_nat k :: u8) = k" using k(1) by (simp add: unat_of_nat)
  have ok: "\<not> (sz > PAGE_MAX_SIZE \<or> sz \<le> 0)"
    using assms(2,3) by (auto simp: layout_simps word_less_nat_alt not_less word_le_nat_alt)
  then have al: "PM_AllocatePages (Suc fuel) (of_nat k) s = Inr (p, s')"
    using assms(4) k(2) by (simp add: PM_Allocate_def)
  then obtain n ys where a: "buddy_alloc (unat (of_nat k :: u8)) xs = Some (n, ys)"
    using PM_AllocatePages_None [OF assms(1), of "of_nat k" "Suc fuel"] assms(5) by fastforce
  have "(of_nat k :: u8) \<le> 10" using u k(1) by (simp add: word_le_nat_alt)
  then have "p = desc n \<and> handed_out s' k n"
    using PM_AllocatePages_Some [OF assms(1) _ a, of fuel] al u by auto
  then show ?thesis using k by auto
qed

theorem allocate_size_fits_witness:
  "\<exists>p s' n k. PM_Allocate 1 5000 demo_pm = Inr (p, s') \<and> p = desc n \<and> handed_out s' k n \<and> 5000 \<le> 4096 * (2 :: nat) ^ k"
proof -
  have "first_list 1 demo_xs = Some 2" by (simp add: first_list.simps demo_xs_def)
  then have a: "\<exists>ys. buddy_alloc (unat (1::u8)) demo_xs = Some (256, ys)"
    by (simp add: buddy_alloc_def) (simp add: demo_xs_def)
  have "page_size_order (page_size_align 5000 div 4096) = 1"
    by (simp add: page_size_align_def page_size_order_def Let_def layout_simps order_loop.simps)
  then have "PM_Allocate (Suc 0) 5000 demo_pm = PM_AllocatePages (Suc 0) 1 demo_pm"
    by (simp add: PM_Allocate_def layout_simps)
  then obtain s' where s': "PM_Allocate (Suc 0) 5000 demo_pm = Inr (desc 256, s')"
    using PM_AllocatePages_Some [OF represents_demo, of 1 256 _ 0] a by auto
  show ?thesis
    using allocate_size_fits [OF represents_demo _ _ s' desc_nonzero] s'
    by (auto simp: frame_limit_def)
qed

text \<open>
  Requests of 1 to 2048 bytes get NULL from \<^verbatim>\<open>PM_Allocate\<close> whatever memory is free: the
  size is rounded to a number of pages that is zero, whose order is 255.
\<close>

theorem allocate_small_null:
  assumes "1 \<le> unat sz" and "unat sz \<le> 2048"
  shows "PM_Allocate fuel sz s = Inr (0, s)"
  using small_order [OF assms] by (simp add: PM_Allocate_def PM_AllocatePages_def layout_simps)

theorem allocate_small_null_witness: "PM_Allocate 5 100 demo_pm = Inr (0, demo_pm)"
  by (rule allocate_small_null) simp_all

text \<open>
  C38. \<^verbatim>\<open>PM_FreePages\<close> never completes on a block that \<^verbatim>\<open>PM_AllocatePages\<close> handed out: it
  takes the physical address of the buddy for the address of its descriptor, and nothing is
  mapped there.
\<close>

theorem free_faults:
  assumes "handed_out s k n" and "k \<le> 10" and "2 ^ k dvd n" and "n + 2 ^ k \<le> frame_limit"
    and "\<And>p. p < KERNEL_PHYSICAL_PAGES \<Longrightarrow> frames s p = None"
  shows "PM_FreePages (Suc fuel) (desc n) s = Inl (PageFault (of_nat (4096 * (n + 2 ^ k))))"
proof -
  have n: "n < frame_limit" by (rule less_le_trans [OF _ assms(4)]) simp
  obtain f where f: "frames s (desc n) = Some f" "pf_order f = of_nat k" "pf_lock f = 0" "pf_addr f = of_nat (4096 * n)"
    using assms(1) by (auto simp: handed_out_def split: option.splits)
  define s1 where "s1 = s\<lparr>frames := (frames s)(desc n \<mapsto> f\<lparr>pf_free := True, pf_lock := 0\<rparr>)\<rparr>"
  let ?q = "of_nat (4096 * (n + 2 ^ k)) :: u64"
  have "unat ?q = 4096 * (n + 2 ^ k)"
    using assms(4) by (simp only: unat_of_nat) (simp add: frame_limit_def)
  then have "?q < KERNEL_PHYSICAL_PAGES"
    using assms(4) unfolding word_less_nat_alt by (simp add: frame_limit_def layout_simps)
  moreover have "?q \<noteq> desc n"
    using \<open>unat ?q = _\<close> unat_desc [OF n] assms(4) by (auto simp: frame_limit_def)
  ultimately have "frames s1 ?q = None" using assms(5) by (simp add: s1_def)
  moreover have "frames s1 (desc n) = Some (f\<lparr>pf_free := True, pf_lock := 0\<rparr>)" by (simp add: s1_def)
  ultimately have "PM_CombinePage (desc n) s1 = Inl (PageFault ?q)"
    using f assms(2-4) desc_nonzero [OF n]
    by (intro combine_faults [where f = "f\<lparr>pf_free := True, pf_lock := 0\<rparr>"]) simp_all
  moreover have "PM_FreePages (Suc fuel) (desc n) s = combine_loop (Suc fuel) (desc n) s1"
    using f desc_nonzero [OF n]
    by (simp add: PM_FreePages_def lock_frame_def unlock_frame_def load_frame_def store_frame_def s1_def
        del: combine_loop.simps)
  ultimately show ?thesis using desc_nonzero [OF n] by simp
qed

definition demo_used :: pm_state where
  "demo_used = demo_pm\<lparr>frames := (\<lambda>p. if p < KERNEL_PHYSICAL_PAGES then None
     else Some (demo_frame\<lparr>pf_free := False\<rparr>))\<rparr>"

theorem free_faults_witness: "PM_FreePages 1 (desc 256) demo_used = Inl (PageFault 0x104000)"
proof -
  have "handed_out demo_used 2 256"
    by (simp add: handed_out_def demo_used_def demo_frame_def desc_def layout_simps)
  then show ?thesis
    using free_faults [of demo_used 2 256 0] by (simp add: demo_used_def frame_limit_def)
qed

text \<open>
  When the first descriptor of the chosen list is not marked free, the selection loop of
  \<^verbatim>\<open>PM_AllocatePages\<close> looks at the same descriptor again and again: no number of passes is
  enough.
\<close>

theorem allocate_spins_on_used_head:
  assumes "order \<le> 10" and "scan_lists (unat order) s = Some m"
    and "node_next (mem s) (freelist_handle s m) = p" and "p \<noteq> 0"
    and "frames s p = Some f" and "pf_lock f = 0" and "\<not> pf_free f"
  shows "PM_AllocatePages fuel order s = Inl OutOfFuel"
  using select_page_busy [OF assms(3-7)] assms(1,2)
  by (simp add: PM_AllocatePages_def layout_simps not_less)

theorem allocate_spins_on_used_head_witness:
  "PM_AllocatePages 1000 2 (demo_pm\<lparr>frames := (\<lambda>_. Some (demo_frame\<lparr>pf_free := False\<rparr>))\<rparr>) = Inl OutOfFuel"
  by (rule allocate_spins_on_used_head [where m = 2 and p = "desc 256" and f = "demo_frame\<lparr>pf_free := False\<rparr>"])
    (simp_all add: demo_pm_def demo_frame_def scan_lists.simps layout_simps desc_def node_next_def freelist_handle_def)

text \<open>
  \<^verbatim>\<open>write_pages\<close> files a fresh block of order 10 in the list of order 9: with nothing else
  free, a request for order 10 gets NULL, and a request for order 9 gets the whole block, whose
  descriptor still says order 10.
\<close>

theorem fresh_block_in_wrong_list:
  assumes "layout_ok s" and "n + 1024 \<le> frame_limit"
    and "\<And>j. j < 1024 \<Longrightarrow> \<exists>f. frames s (desc (n + j)) = Some f \<and> pf_lock f = 0"
    and "freelist_count s = (\<lambda>_. 0)" and "linked (mem s) (freelist_handle s 9) []"
    and "node_next (mem s) (desc n) = 0"
  shows "\<exists>s' s'' f. write_pages (desc n) a s = Inr s' \<and> PM_AllocatePages (Suc fuel) 10 s' = Inr (0, s') \<and>
     PM_AllocatePages (Suc fuel) 9 s' = Inr (desc n, s'') \<and> frames s'' (desc n) = Some f \<and> pf_order f = 10"
proof -
  have n: "n < frame_limit" using assms(2) by simp
  let ?h = "freelist_handle s 9" and ?m = "LinkedListAppend (freelist_handle s 9) (desc n) (mem s)"
  have N: "?h \<in> nodes s" "desc n \<in> nodes s" and ne: "?h \<noteq> desc n"
    using n desc_not_handle [OF assms(1) _ n, of 9] by auto
  note sep = separate_nodes [OF assms(1)]
  have l: "linked ?m ?h [desc n]"
    using klist.insert_holds [OF sep, of ?h "desc n" "[]"] N ne assms(5,6) by (simp add: clean_node_def)
  obtain m' where m': "LinkedListRemove (desc n) ?m = Inr m'"
    using klist.unlink_holds [OF sep, of ?h "[]" "desc n" "[]"] N ne l by auto
  have mapped: "frames s (desc (n + j)) \<noteq> None" if "j < 1024" for j using assms(3) [OF that] by auto
  obtain F where W: "write_pages (desc n) a s = Inr (s\<lparr>frames := F, mem := ?m,
       freelist_count := (freelist_count s)(9 := freelist_count s 9 + 1)\<rparr>)"
    and F: "\<forall>j<1024. \<exists>f g. frames s (desc (n + j)) = Some f \<and> F (desc (n + j)) = Some g \<and>
       g = f\<lparr>pf_free := True, pf_addr := a + of_nat j * ARCH_PAGE_SIZE,
             pf_order := (if j = 0 then 10 else pf_order f)\<rparr>"
    using write_pages_eq [OF assms(2) mapped, of a] by blast
  obtain f where f: "F (desc n) = Some f" "pf_order f = 10" "pf_free f" "pf_lock f = 0"
    using F [rule_format, of 0] assms(3) [of 0] by auto
  note defs = PM_AllocatePages_def scan_lists.simps lock_frame_def unlock_frame_def load_frame_def
    store_frame_def add_count_def list_remove_def freelist_handle_def Let_def layout_simps
  have h: "node_next ?m ?h = desc n" using l by simp
  show ?thesis
    using W f assms(4) m' h desc_nonzero [OF n] by (simp add: defs)
qed

text \<open>A memory in which nothing has been filed yet; all descriptors are mapped and zero.\<close>

definition blank_frame :: pageframe where
  "blank_frame = \<lparr>pf_order = 0, pf_free = False, pf_kmem = False, pf_ign = 0, slab_inuse = 0,
     slab_objects = 0, slab_frozen = False, slabCache = 0, pf_objects = 0, pf_lock = 0, pf_addr = 0\<rparr>"

definition fresh_pm :: pm_state where
  "fresh_pm = \<lparr>mem = (\<lambda>_. 0), frames = (\<lambda>_. Some blank_frame), freelist_count = (\<lambda>_. 0),
     pf_freelist_at = 0xFFFFFFFF80200000\<rparr>"

theorem fresh_block_in_wrong_list_witness:
  "\<exists>s' s''. write_pages (desc 1024) 0x400000 fresh_pm = Inr s' \<and> PM_AllocatePages 1 10 s' = Inr (0, s') \<and>
     PM_AllocatePages 1 9 s' = Inr (desc 1024, s'')"
  using fresh_block_in_wrong_list [of fresh_pm 1024 "0x400000" 0]
  by (auto simp: fresh_pm_def blank_frame_def layout_ok_def frame_limit_def node_next_def)

lemmas list_words = LinkedListAppend_def LinkedListRemove_def node_prev_def node_next_def
  set_prev_def set_next_def Let_def

lemma fresh_written:
  obtains s1 where "write_pages (desc 1024) 0x400000 fresh_pm = Inr s1"
    and "mem s1 = (\<lambda>_. 0)(0xFFFFFF8000010000 := 0xFFFFFFFF802000D8, 0xFFFFFFFF802000E0 := 0xFFFFFF8000010000)"
    and "pf_freelist_at s1 = 0xFFFFFFFF80200000" and "freelist_count s1 = (\<lambda>_. 0)(9 := 1)"
    and "frames s1 0xFFFFFF8000010000 = Some (blank_frame\<lparr>pf_free := True, pf_addr := 0x400000, pf_order := 10\<rparr>)"
    and "frames s1 0xFFFFFF8000018000 = Some (blank_frame\<lparr>pf_free := True, pf_addr := 0x600000\<rparr>)"
    and "frames s1 0xFFFFFF8000014000 = Some (blank_frame\<lparr>pf_free := True, pf_addr := 0x500000\<rparr>)"
proof -
  have m: "frames fresh_pm (desc (1024 + j)) \<noteq> None" if "j < 1024" for j by (simp add: fresh_pm_def)
  obtain F where W: "write_pages (desc 1024) 0x400000 fresh_pm = Inr (fresh_pm\<lparr>frames := F,
       mem := LinkedListAppend (freelist_handle fresh_pm 9) (desc 1024) (mem fresh_pm),
       freelist_count := (freelist_count fresh_pm)(9 := freelist_count fresh_pm 9 + 1)\<rparr>)"
    and F: "\<forall>j<1024. \<exists>f g. frames fresh_pm (desc (1024 + j)) = Some f \<and> F (desc (1024 + j)) = Some g \<and>
       g = f\<lparr>pf_free := True, pf_addr := 0x400000 + of_nat j * ARCH_PAGE_SIZE,
             pf_order := (if j = 0 then 10 else pf_order f)\<rparr>"
    using write_pages_eq [of 1024 fresh_pm "0x400000"] m by (auto simp: frame_limit_def)
  show thesis
    by (rule that [OF W]; use F [rule_format, of 0] F [rule_format, of 512] F [rule_format, of 256]
      in \<open>auto simp: fresh_pm_def blank_frame_def ARCH_PAGE_SIZE_def list_words freelist_handle_def desc_def layout_simps\<close>)
qed

text \<open>
  The free half of order 9 is lost on the first split of such a block: after a request for
  order 7 the counter of order 9 says one while its list is empty, and the next request for
  order 9 dereferences NULL.
\<close>

theorem fresh_block_split_loses_half:
  "\<exists>s1 p s2. write_pages (desc 1024) 0x400000 fresh_pm = Inr s1 \<and>
     PM_AllocatePages 1 7 s1 = Inr (p, s2) \<and> freelist_count s2 9 = 1 \<and>
     node_next (mem s2) (freelist_handle s2 9) = 0 \<and> PM_AllocatePages 1 9 s2 = Inl NullDeref"
proof -
  let ?h9 = "0xFFFFFFFF802000D8 :: u64" and ?p = "0xFFFFFF8000010000 :: u64"
  obtain s1 where W: "write_pages (desc 1024) 0x400000 fresh_pm = Inr s1"
    and mem1: "mem s1 = (\<lambda>_. 0)(?p := ?h9, 0xFFFFFFFF802000E0 := ?p)"
    and at1: "pf_freelist_at s1 = 0xFFFFFFFF80200000" "freelist_count s1 = (\<lambda>_. 0)(9 := 1)"
    and Fs: "frames s1 ?p = Some (blank_frame\<lparr>pf_free := True, pf_addr := 0x400000, pf_order := 10\<rparr>)"
      "frames s1 0xFFFFFF8000018000 = Some (blank_frame\<lparr>pf_free := True, pf_addr := 0x600000\<rparr>)"
      "frames s1 0xFFFFFF8000014000 = Some (blank_frame\<lparr>pf_free := True, pf_addr := 0x500000\<rparr>)"
    by (rule fresh_written)
  let ?a = "blank_frame\<lparr>pf_free := True, pf_addr := 0x400000, pf_order := 10\<rparr>"
    and ?b = "blank_frame\<lparr>pf_free := True, pf_addr := 0x600000\<rparr>"
    and ?c = "blank_frame\<lparr>pf_free := True, pf_addr := 0x500000\<rparr>"
  define m1 :: wmem where "m1 = (\<lambda>_. 0)(?p := ?h9)"
  define s2 where "s2 = take_state 9 m1 s1"
  define s3 where "s3 = split_state 1024 9 ?a ?b s2"
  define m3 :: wmem where "m3 = (\<lambda>_. 0)(?p := ?h9, 0xFFFFFF8000018000 := ?h9)"
  define s4 where "s4 = split_state 1024 8 (?a\<lparr>pf_order := 9, pf_lock := 0\<rparr>) ?c (s3\<lparr>mem := m3\<rparr>)"
  have d: "desc 1024 = ?p" "desc 1536 = 0xFFFFFF8000018000" "desc 1280 = 0xFFFFFF8000014000"
    by (simp_all add: desc_def layout_simps)
  have r1: "LinkedListRemove ?p (mem s1) = Inr m1"
    by (auto simp: mem1 m1_def list_words)
  have r2: "LinkedListRemove ?p m1 = Inr m1"
    by (auto simp: m1_def list_words)
  have h9: "freelist_handle s1 9 = ?h9" by (simp add: freelist_handle_def at1 layout_simps)
  have P1: "PM_AllocatePages (Suc 0) 7 s1 = bind_res (expand_loop 2 ?p s2) (\<lambda>(p, s5).
     bind_res (load_frame p s5) (\<lambda>f. Inr (p, store_frame p (f\<lparr>pf_free := False\<rparr>) s5)))"
    using PM_AllocatePages_take [of 7 s1 9 ?p ?a m1 0] r1 h9 Fs(1)
    by (simp add: s2_def scan_lists.simps at1 mem1 node_next_def layout_simps blank_frame_def)
  have E1: "PM_ExpandPage ?p s2 = Inr (?p, s3)"
    using PM_ExpandPage_eq [of 9 1024 s2 ?a ?b m1] r2 Fs at1
    by (simp add: d frame_limit_def s2_def s3_def blank_frame_def take_state_def)
  have mem3: "mem s3 = (\<lambda>_. 0)(?p := ?h9, 0xFFFFFF8000018000 := ?h9, ?h9 + 8 := 0xFFFFFF8000018000)"
    using h9 by (simp add: s3_def s2_def d m1_def list_words)
  have r3: "LinkedListRemove ?p (mem s3) = Inr m3"
    by (auto simp: mem3 m3_def list_words)
  have "frames s3 ?p = Some (?a\<lparr>pf_order := 9, pf_lock := 0\<rparr>)" "frames s3 (desc 1280) = Some ?c"
    using Fs(3) at1 by (simp_all add: s3_def split_state_def d s2_def)
  then have E2: "PM_ExpandPage ?p s3 = Inr (?p, s4)"
    using PM_ExpandPage_eq [of 8 1024 s3 "?a\<lparr>pf_order := 9, pf_lock := 0\<rparr>" ?c m3] r3
    by (simp add: d frame_limit_def s4_def blank_frame_def)
  have f4: "frames s4 ?p = Some (?a\<lparr>pf_order := 8, pf_lock := 0\<rparr>)" by (simp add: s4_def split_state_def d)
  define s5 where "s5 = store_frame ?p (?a\<lparr>pf_order := 8, pf_lock := 0, pf_free := False\<rparr>) s4"
  have "expand_loop 2 ?p s2 = Inr (?p, s4)"
    by (simp only: numeral_2_eq_2 expand_loop.simps E1 E2 bind_res_Inr prod.case)
  then have P2: "PM_AllocatePages (Suc 0) 7 s1 = Inr (?p, s5)"
    using P1 f4 by (simp add: load_frame_def s5_def)
  have c5: "freelist_count s5 9 = 1" and at5: "pf_freelist_at s5 = 0xFFFFFFFF80200000"
    by (simp_all add: s5_def store_frame_def s4_def s3_def s2_def at1)
  have n5: "node_next (mem s5) ?h9 = 0"
    by (simp add: s5_def store_frame_def s4_def freelist_handle_def s3_def s2_def at1 d m3_def list_words layout_simps)
  have h5: "freelist_handle s5 9 = ?h9" by (simp add: freelist_handle_def at5 layout_simps)
  have "PM_AllocatePages (Suc 0) 9 s5 = Inl NullDeref"
    using c5 n5 h5 by (simp add: PM_AllocatePages_def scan_lists.simps layout_simps lock_frame_def load_frame_def Let_def)
  then show ?thesis
    using W P2 c5 n5 h5 by auto
qed

end
