(* ===== verification/Concurrent_Frames.thy ===== *)
theory Concurrent_Frames
  imports Buddy_Refinement
begin

text \<open>
  \<^verbatim>\<open>PM_AllocatePages\<close> of \<^verbatim>\<open>Kernel/src/mm/page.c\<close> on several processors.  Each processor is at a statement of
  the function and the statements of all processors interleave freely; the memory, the descriptors
  and the counters are shared.  A statement is one step, also where it calls \<^verbatim>\<open>LinkedListRemove\<close> or
  \<^verbatim>\<open>PM_ExpandPage\<close>, so the model has only behaviours that the code has.  A processor that runs alone computes
  the function of the theory \<open>Page_Frames\<close>; two processors never work on a descriptor between its lock
  and unlock at the same time; but the lock does not keep them from obtaining the same block.
\<close>

section \<open>Statements of the function\<close>

text \<open>
  A program point with the values of \<^verbatim>\<open>order\<close>, \<^verbatim>\<open>m_order\<close> and \<^verbatim>\<open>page\<close> that are in use there, in the order of
  the source: the test of the argument, the search for a list, the label \<^verbatim>\<open>SELECT_PAGE\<close>, the lock, the test of
  \<^verbatim>\<open>page->free\<close> with the release before the jump back, the counter, the removal, the release, the
  splitting loop, the mark, and the end.
\<close>

datatype alloc_pc =
    AEntry u8
  | AScan u8 nat
  | ASelect u8 nat
  | ALock u8 nat u64
  | ATest u8 nat u64
  | ARetry u8 nat u64
  | ACount u8 nat u64
  | AUnlink u8 nat u64
  | AUnlock u8 nat u64
  | ASplit u8 nat u64
  | AMark u64
  | AReturn u64
  | AFault fault

fun alloc_next :: "alloc_pc \<Rightarrow> 'a pm_state_scheme \<Rightarrow> (alloc_pc \<times> 'a pm_state_scheme) res" where
  "alloc_next (AEntry order) s =
     Inr (if order > PAGE_MAX_ORDER \<or> order < PAGE_MIN_ORDER then AReturn 0 else AScan order (unat order), s)"
| "alloc_next (AScan order m_order) s =
     Inr (if m_order \<le> unat PAGE_MAX_ORDER
          then if freelist_count s m_order \<noteq> 0 then ASelect order m_order else AScan order (Suc m_order)
          else AReturn 0, s)"
| "alloc_next (ASelect order m_order) s =
     Inr (ALock order m_order (node_next (mem s) (freelist_handle s m_order)), s)"
| "alloc_next (ALock order m_order page) s =
     bind_res (lock_frame page s) (\<lambda>s1. Inr (ATest order m_order page, s1))"
| "alloc_next (ATest order m_order page) s =
     bind_res (load_frame page s) (\<lambda>f.
     Inr (if \<not> pf_free f then ARetry order m_order page else ACount order m_order page, s))"
| "alloc_next (ARetry order m_order page) s =
     bind_res (unlock_frame page s) (\<lambda>s1. Inr (ASelect order m_order, s1))"
| "alloc_next (ACount order m_order page) s = Inr (AUnlink order m_order page, add_count m_order (-1) s)"
| "alloc_next (AUnlink order m_order page) s =
     bind_res (list_remove page s) (\<lambda>s1. Inr (AUnlock order m_order page, s1))"
| "alloc_next (AUnlock order m_order page) s =
     bind_res (unlock_frame page s) (\<lambda>s1. Inr (ASplit order m_order page, s1))"
| "alloc_next (ASplit order m_order page) s =
     (if m_order > unat order
      then bind_res (PM_ExpandPage page s) (\<lambda>(p, s1). Inr (ASplit order (m_order - 1) p, s1))
      else Inr (AMark page, s))"
| "alloc_next (AMark page) s =
     bind_res (load_frame page s) (\<lambda>f. Inr (AReturn page, store_frame page (f\<lparr>pf_free := False\<rparr>) s))"
| "alloc_next (AReturn page) s = Inr (AReturn page, s)"
| "alloc_next (AFault e) s = Inr (AFault e, s)"

text \<open>
  A processor that finds a lock taken stays where it is; one whose statement faults stops with the
  cause.
\<close>

definition alloc_exec :: "alloc_pc \<times> 'a pm_state_scheme \<Rightarrow> alloc_pc \<times> 'a pm_state_scheme" where
  "alloc_exec x = (case alloc_next (fst x) (snd x) of
     Inr y \<Rightarrow> y
   | Inl e \<Rightarrow> if e = Deadlock then x else (AFault e, snd x))"

type_synonym 'a alloc_config = "(nat \<Rightarrow> alloc_pc) \<times> 'a pm_state_scheme"

definition alloc_cpu :: "nat \<Rightarrow> 'a alloc_config \<Rightarrow> 'a alloc_config" where
  "alloc_cpu c x = (let (pc, s) = alloc_exec (fst x c, snd x) in ((fst x)(c := pc), s))"

definition alloc_run :: "nat list \<Rightarrow> 'a alloc_config \<Rightarrow> 'a alloc_config" where
  "alloc_run cpus x = fold alloc_cpu cpus x"

inductive alloc_reachable :: "'a alloc_config \<Rightarrow> 'a alloc_config \<Rightarrow> bool" for x where
  start: "alloc_reachable x x"
| step: "alloc_reachable x y \<Longrightarrow> alloc_reachable x (alloc_cpu c y)"

section \<open>One processor alone\<close>

definition reaches :: "alloc_pc \<times> 'a pm_state_scheme \<Rightarrow> alloc_pc \<times> 'a pm_state_scheme \<Rightarrow> bool" where
  "reaches x y \<longleftrightarrow> (\<exists>k. (alloc_exec ^^ k) x = y)"

text \<open>The processor gets to a statement that ends with the fault.\<close>

definition stops :: "alloc_pc \<times> 'a pm_state_scheme \<Rightarrow> fault \<Rightarrow> bool" where
  "stops x e \<longleftrightarrow> (\<exists>pc s. reaches x (pc, s) \<and> alloc_next pc s = Inl e)"

lemma reaches_refl [simp]: "reaches x x"
  unfolding reaches_def by (rule exI [of _ 0]) simp

lemma reaches_trans: "reaches x y \<Longrightarrow> reaches y z \<Longrightarrow> reaches x z"
  unfolding reaches_def by (metis comp_apply funpow_add)

lemma reaches_step: "alloc_next pc s = Inr y \<Longrightarrow> reaches y z \<Longrightarrow> reaches (pc, s) z"
proof -
  assume "alloc_next pc s = Inr y" and r: "reaches y z"
  then have "(alloc_exec ^^ 1) (pc, s) = y" by (simp add: alloc_exec_def)
  then have "reaches (pc, s) y" unfolding reaches_def by blast
  then show ?thesis using r by (rule reaches_trans)
qed

lemma stops_here: "alloc_next pc s = Inl e \<Longrightarrow> stops (pc, s) e"
  unfolding stops_def using reaches_refl by blast

lemma stops_step: "alloc_next pc s = Inr y \<Longrightarrow> stops y e \<Longrightarrow> stops (pc, s) e"
  unfolding stops_def using reaches_step by blast

lemma stops_trans: "reaches x y \<Longrightarrow> stops y e \<Longrightarrow> stops x e"
  unfolding stops_def using reaches_trans by blast

text \<open>How a piece of code ends: it gets to the point it should, or it stops with its fault.\<close>

definition follows :: "alloc_pc \<times> 'a pm_state_scheme \<Rightarrow> 'b res \<Rightarrow> ('b \<Rightarrow> alloc_pc \<times> 'a pm_state_scheme) \<Rightarrow> bool" where
  "follows x r to \<longleftrightarrow> (case r of Inr v \<Rightarrow> reaches x (to v) | Inl e \<Rightarrow> e = OutOfFuel \<or> stops x e)"

lemma follows_here: "reaches x (to v) \<Longrightarrow> follows x (Inr v) to"
  by (simp add: follows_def)

lemma follows_bind:
  assumes "follows x r to" and "\<And>v. r = Inr v \<Longrightarrow> follows (to v) (f v) fin"
  shows "follows x (bind_res r f) fin"
  using assms by (cases r) (auto simp: follows_def intro: reaches_trans stops_trans split: sum.splits)

lemma follows_step: "alloc_next pc s = bind_res r (\<lambda>v. Inr (to v)) \<Longrightarrow> follows (pc, s) r to"
  by (cases r) (auto simp: follows_def intro: reaches_step stops_here)

lemma follows_next: "alloc_next pc s = Inr y \<Longrightarrow> follows y r to \<Longrightarrow> follows (pc, s) r to"
  by (cases r) (auto simp: follows_def intro: reaches_step stops_step)

lemma frame_ops_handle:
  "lock_frame p s = Inr s1 \<Longrightarrow> freelist_handle s1 m = freelist_handle s m"
  "unlock_frame p s = Inr s1 \<Longrightarrow> freelist_handle s1 m = freelist_handle s m"
  by (auto simp: lock_frame_def unlock_frame_def bind_res_eq_Inr store_frame_def freelist_handle_def)

lemma scan_follows:
  "reaches (AScan order m, s) (case scan_lists m s of None \<Rightarrow> (AReturn 0, s) | Some k \<Rightarrow> (ASelect order k, s))"
proof (induction m s rule: scan_lists.induct)
  case (1 m s)
  show ?case
    by (subst scan_lists.simps) (use 1 in \<open>auto intro!: reaches_step [where pc = "AScan order m"]\<close>)
qed

lemma select_follows:
  "h = freelist_handle s m \<Longrightarrow>
   follows (ASelect order m, s) (select_page fuel h s) (\<lambda>(p, s1). (ACount order m p, s1))"
proof (induction fuel arbitrary: s)
  case 0
  then show ?case by (simp add: follows_def)
next
  case (Suc fuel)
  let ?p = "node_next (mem s) h"
  have "follows (ALock order m ?p, s) (select_page (Suc fuel) h s) (\<lambda>(p, s1). (ACount order m p, s1))"
    unfolding select_page.simps Let_def
  proof (rule follows_bind [OF follows_step])
    fix s1 assume s1: "lock_frame ?p s = Inr s1"
    show "follows (ATest order m ?p, s1) (bind_res (load_frame ?p s1) (\<lambda>f. if \<not> pf_free f
        then bind_res (unlock_frame ?p s1) (\<lambda>s2. select_page fuel h s2) else Inr (?p, s1)))
        (\<lambda>(p, s1). (ACount order m p, s1))"
    proof (rule follows_bind [OF follows_step])
      fix f
      show "follows (if \<not> pf_free f then ARetry order m ?p else ACount order m ?p, s1)
        (if \<not> pf_free f then bind_res (unlock_frame ?p s1) (\<lambda>s2. select_page fuel h s2) else Inr (?p, s1))
        (\<lambda>(p, s1). (ACount order m p, s1))"
      proof (cases "pf_free f")
        case True
        then show ?thesis by (simp add: follows_here)
      next
        case False
        have "follows (ARetry order m ?p, s1) (bind_res (unlock_frame ?p s1) (\<lambda>s2. select_page fuel h s2))
            (\<lambda>(p, s1). (ACount order m p, s1))"
        proof (rule follows_bind [OF follows_step])
          fix s2 assume "unlock_frame ?p s1 = Inr s2"
          then have "h = freelist_handle s2 m"
            using Suc.prems frame_ops_handle(1) [OF s1] frame_ops_handle(2) by metis
          then show "follows (ASelect order m, s2) (select_page fuel h s2) (\<lambda>(p, s1). (ACount order m p, s1))"
            by (rule Suc.IH)
        qed simp
        with False show ?thesis by simp
      qed
    qed simp
  qed simp
  then show ?case using Suc.prems by (intro follows_next [where pc = "ASelect order m"]) auto
qed

lemma split_follows:
  "m = unat order + d \<Longrightarrow>
   follows (ASplit order m p, s) (expand_loop d p s) (\<lambda>(q, s1). (AMark q, s1))"
proof (induction d arbitrary: m p s)
  case 0
  then show ?case by (intro follows_next [where pc = "ASplit order m p"]) (auto intro: follows_here)
next
  case (Suc d)
  then have "alloc_next (ASplit order m p) s =
      bind_res (PM_ExpandPage p s) (\<lambda>v. Inr (case v of (q, s1) \<Rightarrow> (ASplit order (unat order + d) q, s1)))"
    by (auto simp: split_def)
  note expand = follows_bind [OF follows_step [OF this], where f = "\<lambda>(q, s1). expand_loop d q s1"]
  show ?case unfolding expand_loop.simps by (rule expand) (auto simp: Suc.IH)
qed

lemma scan_lists_le: "scan_lists k s = Some m \<Longrightarrow> k \<le> m"
proof (induction k s rule: scan_lists.induct)
  case (1 k s)
  from 1(2) show ?case
    by (subst (asm) scan_lists.simps) (use 1(1) in \<open>auto split: if_splits dest: Suc_leD\<close>)
qed

lemma alloc_follows:
  "follows (AEntry order, s) (PM_AllocatePages fuel order s) (\<lambda>(p, s'). (AReturn p, s'))"
proof (cases "order > PAGE_MAX_ORDER \<or> order < PAGE_MIN_ORDER")
  case True
  then show ?thesis
    by (intro follows_next [where pc = "AEntry order"]) (auto simp: PM_AllocatePages_def intro: follows_here)
next
  case False
  have "follows (AScan order (unat order), s) (PM_AllocatePages fuel order s) (\<lambda>(p, s'). (AReturn p, s'))"
  proof (cases "scan_lists (unat order) s")
    case None
    then show ?thesis
      using False scan_follows [of order "unat order" s] by (auto simp: PM_AllocatePages_def intro!: follows_here)
  next
    case (Some m)
    have d: "m = unat order + (m - unat order)" using scan_lists_le [OF Some] by simp
    have fin: "follows (AMark p, s5) (bind_res (load_frame p s5) (\<lambda>f. Inr (p, store_frame p (f\<lparr>pf_free := False\<rparr>) s5)))
        (\<lambda>(p, s'). (AReturn p, s'))" for p s5
      by (rule follows_step) (auto simp: bind_res_assoc)
    have "follows (ASelect order m, s) (PM_AllocatePages fuel order s) (\<lambda>(p, s'). (AReturn p, s'))"
      unfolding PM_AllocatePages_def using False Some
      apply (simp only: if_False option.case Let_def)
      apply (rule follows_bind [OF select_follows [OF refl]])
      apply (clarsimp)
      apply (rule follows_next [OF alloc_next.simps(7)])
      apply (rule follows_bind [OF follows_step [OF alloc_next.simps(8)]])
      apply (rule follows_bind [OF follows_step [OF alloc_next.simps(9)]])
      apply (rule follows_bind [OF split_follows [OF d]])
      apply (auto intro: fin)
      done
    then show ?thesis
      using scan_follows [of order "unat order" s] Some
      by (auto simp: follows_def intro: reaches_trans stops_trans split: sum.splits)
  qed
  with False show ?thesis by (intro follows_next [where pc = "AEntry order"]) auto
qed

section \<open>Exclusive work on a descriptor\<close>

text \<open>The descriptor whose lock a processor holds at a program point.\<close>

fun held_page :: "alloc_pc \<Rightarrow> u64 option" where
  "held_page (ATest order m_order page) = Some page"
| "held_page (ARetry order m_order page) = Some page"
| "held_page (ACount order m_order page) = Some page"
| "held_page (AUnlink order m_order page) = Some page"
| "held_page (AUnlock order m_order page) = Some page"
| "held_page _ = None"

definition lock_of :: "'a pm_state_scheme \<Rightarrow> u64 \<Rightarrow> u32 option" where
  "lock_of s p = map_option pf_lock (frames s p)"

lemma lock_of_store: "lock_of (store_frame p f s) = (lock_of s)(p \<mapsto> pf_lock f)"
  by (auto simp: lock_of_def store_frame_def)

lemma load_frame_lock: "load_frame p s = Inr f \<Longrightarrow> lock_of s p = Some (pf_lock f)"
  by (auto simp: load_frame_def lock_of_def split: if_splits option.splits)

lemma lock_of_mark: "load_frame p s = Inr f \<Longrightarrow> lock_of (store_frame p (f\<lparr>pf_free := b\<rparr>) s) = lock_of s"
  using load_frame_lock [of p s f] by (simp add: lock_of_store fun_upd_idem)

lemma lock_of_others [simp]:
  "lock_of (add_count i d s) = lock_of s" "lock_of (list_append h p s) = lock_of s"
  "list_remove p s = Inr s1 \<Longrightarrow> lock_of s1 = lock_of s"
  by (auto simp: lock_of_def add_count_def list_append_def list_remove_def bind_res_eq_Inr)

lemma lock_frame_lock: "lock_frame p s = Inr s1 \<Longrightarrow> lock_of s p = Some 0 \<and> lock_of s1 = (lock_of s)(p \<mapsto> 1)"
  by (auto simp: lock_frame_def bind_res_eq_Inr AcquireLock_def lock_of_store dest: load_frame_lock split: if_splits)

lemma unlock_frame_lock: "unlock_frame p s = Inr s1 \<Longrightarrow> lock_of s1 = (lock_of s)(p \<mapsto> 0)"
  by (auto simp: unlock_frame_def bind_res_eq_Inr lock_of_store)

lemma expand_page_locks: "PM_ExpandPage page s = Inr (p, s1) \<Longrightarrow> lock_of s1 = lock_of s"
  unfolding PM_ExpandPage_def Let_def
  by (auto simp: bind_res_eq_Inr lock_of_store fun_upd_idem
      dest!: load_frame_lock lock_frame_lock unlock_frame_lock split: if_splits)

text \<open>What one statement does to the locks: nothing, or it takes a free lock, or it releases its own.\<close>

inductive lock_effect ::
  "alloc_pc \<times> 'a pm_state_scheme \<Rightarrow> alloc_pc \<times> 'a pm_state_scheme \<Rightarrow> bool" where
  keeps: "lock_of s' = lock_of s \<Longrightarrow> held_page pc' = None \<or> held_page pc' = held_page pc \<Longrightarrow>
    lock_effect (pc, s) (pc', s')"
| takes: "lock_of s p = Some 0 \<Longrightarrow> lock_of s' = (lock_of s)(p \<mapsto> 1) \<Longrightarrow> held_page pc' = Some p \<Longrightarrow>
    lock_effect (pc, s) (pc', s')"
| gives: "held_page pc = Some p \<Longrightarrow> lock_of s' = (lock_of s)(p \<mapsto> 0) \<Longrightarrow> held_page pc' = None \<Longrightarrow>
    lock_effect (pc, s) (pc', s')"

inductive_cases lock_effectE: "lock_effect (pc, s) (pc', s')"

lemma alloc_next_locks: "alloc_next pc s = Inr (pc', s') \<Longrightarrow> lock_effect (pc, s) (pc', s')"
  by (cases pc)
    (auto simp: bind_res_eq_Inr lock_of_mark
      dest: lock_frame_lock unlock_frame_lock expand_page_locks
      intro: lock_effect.intros split: if_splits)

lemma alloc_exec_locks: "lock_effect (pc, s) (alloc_exec (pc, s))"
proof (cases "alloc_next pc s")
  case (Inl e)
  then show ?thesis by (auto simp: alloc_exec_def intro: lock_effect.keeps)
next
  case (Inr y)
  then show ?thesis by (cases y) (simp add: alloc_exec_def alloc_next_locks)
qed

text \<open>The invariant: a held lock is not zero and has one holder.\<close>

definition locks_ok :: "'a alloc_config \<Rightarrow> bool" where
  "locks_ok x \<longleftrightarrow>
     (\<forall>c p. held_page (fst x c) = Some p \<longrightarrow> lock_of (snd x) p \<noteq> Some 0) \<and>
     (\<forall>c d p. held_page (fst x c) = Some p \<longrightarrow> held_page (fst x d) = Some p \<longrightarrow> c = d)"

lemma locks_ok_step:
  assumes "locks_ok x"
  shows "locks_ok (alloc_cpu c x)"
proof -
  obtain pcs s where x: "x = (pcs, s)" by (cases x)
  obtain pc' s' where e: "alloc_exec (pcs c, s) = (pc', s')" by fastforce
  have "alloc_cpu c x = (pcs(c := pc'), s')" by (simp add: alloc_cpu_def x e)
  moreover have "lock_effect (pcs c, s) (pc', s')" using alloc_exec_locks [of "pcs c" s] e by simp
  then have "locks_ok (pcs(c := pc'), s')"
    by (rule lock_effectE) (use assms in \<open>auto simp: locks_ok_def x; metis\<close>)+
  ultimately show ?thesis by simp
qed

lemma alloc_reachable_inv: "alloc_reachable x y \<Longrightarrow> locks_ok x \<Longrightarrow> locks_ok y"
  by (induction rule: alloc_reachable.induct) (auto intro: locks_ok_step)

section \<open>Two requests at the same time\<close>

lemma alloc_run_append: "alloc_run (xs @ ys) x = alloc_run ys (alloc_run xs x)"
  by (simp add: alloc_run_def)

text \<open>A processor that runs for a while.\<close>

lemma alloc_run_one:
  "(alloc_exec ^^ k) (pcs c, s) = (pc', s') \<Longrightarrow> alloc_run (replicate k c) (pcs, s) = (pcs(c := pc'), s')"
proof (induction k arbitrary: pc' s')
  case 0
  then show ?case by (auto simp: alloc_run_def)
next
  case (Suc k)
  obtain pc1 s1 where 1: "(alloc_exec ^^ k) (pcs c, s) = (pc1, s1)" by fastforce
  have "replicate (Suc k) c = replicate k c @ [c]" by (simp add: replicate_append_same)
  then show ?case
    using Suc.IH [OF 1] Suc.prems 1 by (simp add: alloc_run_append) (auto simp: alloc_run_def alloc_cpu_def)
qed

lemma alloc_run_reachable: "alloc_reachable x (alloc_run cpus x)"
proof (induction cpus rule: rev_induct)
  case Nil
  show ?case by (simp add: alloc_run_def alloc_reachable.start)
next
  case (snoc c cpus)
  then show ?case by (simp add: alloc_run_append) (simp add: alloc_run_def alloc_reachable.step)
qed

text \<open>From the lock to the release of a free head of a list.\<close>

lemma exec_take:
  assumes "frames s p = Some f" "pf_free f" "pf_lock f = 0" "p \<noteq> 0" "LinkedListRemove p (mem s) = Inr m'"
  shows "(alloc_exec ^^ 5) (ALock order m p, s) = (ASplit order m p, take_state m m' s)"
proof -
  have unl: "f\<lparr>pf_lock := 0\<rparr> = f" using assms(3) by simp
  have "s\<lparr>freelist_count := C, mem := m', frames := (frames s)(p \<mapsto> f)\<rparr> = s\<lparr>freelist_count := C, mem := m'\<rparr>" for C
    using assms(1) by (simp add: fun_upd_idem)
  then show ?thesis
    using assms
    by (simp add: unl eval_nat_numeral alloc_exec_def lock_frame_def unlock_frame_def load_frame_def store_frame_def
        list_remove_def add_count_def take_state_def)
qed

lemma exec_find:
  assumes "order \<le> 10" and "freelist_count s (unat order) \<noteq> 0"
  shows "(alloc_exec ^^ 3) (AEntry order, s) =
     (ALock order (unat order) (node_next (mem s) (freelist_handle s (unat order))), s)"
  using assms by (simp add: eval_nat_numeral alloc_exec_def layout_simps not_less word_le_nat_alt)

lemma exec_mark:
  assumes "frames s p = Some f" "p \<noteq> 0"
  shows "(alloc_exec ^^ 2) (ASplit order (unat order) p, s) = (AReturn p, store_frame p (f\<lparr>pf_free := False\<rparr>) s)"
  using assms by (simp add: eval_nat_numeral alloc_exec_def load_frame_def)

section \<open>Properties\<close>



lemma demo_pm_find: "(alloc_exec ^^ 3) (AEntry 2, demo_pm) = (ALock 2 2 (desc 256), demo_pm)"
proof -
  have "freelist_count demo_pm (unat (2 :: u8)) \<noteq> 0" by (simp add: demo_pm_def)
  moreover have "node_next (mem demo_pm) (freelist_handle demo_pm (unat (2 :: u8))) = desc 256"
    by (simp add: node_next_def demo_pm_def freelist_handle_def desc_def layout_simps)
  ultimately show ?thesis using exec_find [of 2 demo_pm] by (simp del: funpow.simps)
qed


text \<open>
  C8. Two processors that ask for blocks of one order at the same time can obtain the same block: the second
  one reads the head of the list before the first one takes it, and when it gets the lock the
  descriptor is still marked as free, because the mark is cleared after the release.  The block is
  counted off twice, so the counter is one less than the length of the list that is left.
\<close>

theorem concurrent_requests_share_block:
  assumes R: "represents s xs" and o: "order \<le> 10" and x: "xs (unat order) = n # rest"
    and len: "length (xs (unat order)) < 2 ^ 32" and cd: "c \<noteq> d" and pcs: "pcs c = AEntry order" "pcs d = AEntry order"
  shows "\<exists>cpus pcs' s'. alloc_run cpus (pcs, s) = (pcs', s') \<and> pcs' c = AReturn (desc n) \<and> pcs' d = AReturn (desc n) \<and>
     linked (mem s') (freelist_handle s' (unat order)) (map desc rest) \<and>
     freelist_count s' (unat order) = of_nat (length rest) - 1"
proof -
  let ?m = "unat order" and ?p = "desc n"
  have m: "?m \<le> 10" using o by (simp add: word_le_nat_alt)
  obtain f where f: "frames s ?p = Some f" "pf_free f" "pf_lock f = 0" "?p \<noteq> 0"
    using listed_head [OF R m, of n] x by (metis list.set_intros(1))
  obtain m' where m': "LinkedListRemove ?p (mem s) = Inr m'" "in_hand (take_state ?m m' s) (xs(?m := rest)) n ?m ?m"
    using take_in_hand [OF R m x] by blast
  have again: "LinkedListRemove ?p m' = Inr m'" using in_hand_remove_again [OF m'(2)] by simp
  have cnt: "freelist_count s ?m = of_nat (length (xs ?m))" using R m by (simp add: represents_def)
  have "unat (of_nat (length (xs ?m)) :: u32) \<noteq> 0" using len x by (simp add: unat_of_nat del: of_nat_Suc)
  then have nz: "freelist_count s ?m \<noteq> 0" using cnt by auto
  have hd: "node_next (mem s) (freelist_handle s ?m) = ?p"
    using R m x by (metis (no_types, lifting) linked.simps(2) list.simps(9) represents_def)
  define t where "t = take_state ?m m' (take_state ?m m' s)"
  define u where "u = store_frame ?p (f\<lparr>pf_free := False\<rparr>) t"
  note find = exec_find [OF o nz, unfolded hd]
  have ft: "frames t ?p = Some f" "frames u ?p = Some (f\<lparr>pf_free := False\<rparr>)"
    using f(1) by (simp_all add: t_def u_def store_frame_def)
  have idem: "store_frame ?p (f\<lparr>pf_free := False\<rparr>) u = u" by (simp add: u_def store_frame_def)
  let ?run = "replicate 3 c @ replicate 3 d @ replicate 5 c @ replicate 5 d @ replicate 2 c @ replicate 2 d"
  have "alloc_run ?run (pcs, s) = (pcs(c := AReturn ?p, d := AReturn ?p), u)"
    using cd pcs find exec_take [of s ?p f m' order ?m] exec_take [of "take_state ?m m' s" ?p f m' order ?m]
      exec_mark [OF ft(1) f(4), of order] exec_mark [OF ft(2) f(4), of order] f m'(1) again idem
    by (simp add: alloc_run_append alloc_run_one fun_upd_twist flip: t_def u_def del: replicate.simps funpow.simps)
  moreover have "linked (mem u) (freelist_handle u ?m) (map desc rest)"
    using m'(2) m by (auto simp: u_def t_def store_frame_def in_hand_def represents_def freelist_handle_def take_state_def)
  moreover have "freelist_count u ?m = of_nat (length rest) - 1"
    using cnt x by (simp add: u_def t_def store_frame_def)
  ultimately show ?thesis using cd by fastforce
qed

lemma minus_1_eq_numeral: "(- 1 :: u32) = 0xFFFFFFFF"
  by simp

theorem concurrent_requests_share_block_witness:
  "\<exists>cpus pcs' s'. alloc_run cpus (\<lambda>_. AEntry 2, demo_pm) = (pcs', s') \<and> pcs' 0 = AReturn (desc 256) \<and>
     pcs' 1 = AReturn (desc 256) \<and> freelist_count s' 2 = 0xFFFFFFFF"
  using concurrent_requests_share_block [OF represents_demo, of 2 256 "[]" 0 1 "\<lambda>_. AEntry 2"]
  by (simp add: demo_xs_def) (metis minus_1_eq_numeral)

end
