(* ===== verification/String_Laws.thy ===== *)
theory String_Laws
  imports CString
begin

text \<open>
  The rest of \<^verbatim>\<open>Kernel/src/string.c\<close> against operations on lists of characters: copying and comparing
  with a limit, concatenation, the search from the end, and conversion to upper case.
\<close>

section \<open>Copying with a limit\<close>

lemma strncpy_loop_cstr:
  assumes "cstr m src xs" and "Suc (length xs) \<le> 2 ^ 64"
    and "region dest (Suc (min n (length xs))) \<inter> region src (Suc (length xs)) = {}"
  shows "cstr (strncpy_loop n dest src m) dest (take n xs) \<and>
    (\<forall>a. a \<notin> region dest (Suc (min n (length xs))) \<longrightarrow> strncpy_loop n dest src m a = m a)"
  using assms
proof (induction n arbitrary: dest src m xs)
  case 0
  then show ?case by (simp add: region_Suc)
next
  case (Suc n)
  show ?case
  proof (cases xs)
    case Nil
    then show ?thesis using Suc.prems by (simp add: region_Suc)
  next
    case (Cons x ys)
    let ?m = "m(dest := x)"
    have "dest \<notin> region (src + 1) (Suc (length ys))"
      using Suc.prems(3) Cons by (auto simp: region_Suc)
    then have "cstr ?m (src + 1) ys" using Suc.prems(1) Cons by (intro cstr_upd) auto
    moreover have "region (dest + 1) (Suc (min n (length ys))) \<inter> region (src + 1) (Suc (length ys)) = {}"
      using Suc.prems(3) Cons by (auto simp: region_Suc)
    ultimately have IH: "cstr (strncpy_loop n (dest + 1) (src + 1) ?m) (dest + 1) (take n ys)"
        "\<forall>a. a \<notin> region (dest + 1) (Suc (min n (length ys))) \<longrightarrow> strncpy_loop n (dest + 1) (src + 1) ?m a = ?m a"
      using Suc.IH [of ?m "src + 1" ys "dest + 1"] Suc.prems(2) Cons by (simp_all del: fun_upd_apply)
    have "dest \<notin> region (dest + 1) (Suc (min n (length ys)))"
      using Suc.prems(2) Cons by (intro region_fresh) simp
    then show ?thesis
      using IH Suc.prems(1) Cons by (auto simp: region_Suc [of dest "Suc _"])
  qed
qed

section \<open>Concatenation\<close>

text \<open>A string is kept by writes from its terminator on, and continued by what stands there.\<close>

lemma cstr_extend:
  assumes "cstr m p xs" and "cstr m' (p + of_nat (length xs)) ys"
    and "\<And>a. a \<in> region p (length xs) \<Longrightarrow> m' a = m a"
  shows "cstr m' p (xs @ ys)"
  using assms
proof (induction xs arbitrary: p)
  case (Cons x xs)
  have "cstr m' (p + 1) (xs @ ys)"
    using Cons.prems by (intro Cons.IH) (auto simp: region_Suc [of p] add.assoc)
  then show ?case using Cons.prems by (auto simp: region_Suc [of p])
qed simp

lemma region_tail_disjoint:
  assumes "a + b \<le> 2 ^ 64"
  shows "region p a \<inter> region (p + of_nat a) b = {}"
proof -
  have False if "i < a" "j < b" "p + of_nat i = p + of_nat a + (of_nat j :: u64)" for i j
  proof -
    have "(of_nat i :: u64) = of_nat (a + j)" using that(3) by (simp add: add.assoc)
    then have "unat (of_nat i :: u64) = unat (of_nat (a + j) :: u64)" by simp
    then show False using that(1,2) assms by (simp only: unat_of_nat) simp
  qed
  then show ?thesis by (auto simp: region_def)
qed

lemma append_at_end:
  assumes "cstr m dest xs" and "cstr m' (dest + of_nat (length xs)) ys"
    and "length xs + Suc (length ys) \<le> 2 ^ 64"
    and "\<forall>a. a \<notin> region (dest + of_nat (length xs)) (Suc (length ys)) \<longrightarrow> m' a = m a"
  shows "cstr m' dest (xs @ ys) \<and> (\<forall>a. a \<notin> region dest (length xs + Suc (length ys)) \<longrightarrow> m' a = m a)"
proof
  show "cstr m' dest (xs @ ys)"
    using region_tail_disjoint [OF assms(3), of dest] assms(4) by (intro cstr_extend [OF assms(1,2)]) auto
  show "\<forall>a. a \<notin> region dest (length xs + Suc (length ys)) \<longrightarrow> m' a = m a"
    using assms(4) by (auto simp only: region_add)
qed

text \<open>The destination has room behind its string, and the source lies outside.\<close>

definition room_for :: "u64 \<Rightarrow> u8 list \<Rightarrow> u64 \<Rightarrow> u8 list \<Rightarrow> bool" where
  "room_for dest xs src ys \<longleftrightarrow> length xs + Suc (length ys) \<le> 2 ^ 64 \<and>
     region dest (length xs + Suc (length ys)) \<inter> region src (Suc (length ys)) = {}"

text \<open>
  C30. \<^verbatim>\<open>strcat\<close> and \<^verbatim>\<open>strncat\<close>: the destination holds its old string followed by the source, of which
  \<^verbatim>\<open>strncat\<close> takes at most \<open>n\<close> characters; the result is terminated and no byte behind it or elsewhere is
  changed.
\<close>

theorem strcat_appends:
  assumes "cstr m dest xs" and "cstr m src ys" and "room_for dest xs src ys"
  shows "\<exists>m1 m2. strcat dest src m = Some (dest, m1) \<and> strncat dest src n m = Some (dest, m2) \<and>
    cstr m1 dest (xs @ ys) \<and> cstr m2 dest (xs @ take (unat n) ys) \<and>
    (\<forall>a. a \<notin> region dest (Suc (length xs + length ys)) \<longrightarrow> m1 a = m a) \<and>
    (\<forall>a. a \<notin> region dest (Suc (length xs + min (unat n) (length ys))) \<longrightarrow> m2 a = m a)"
proof -
  let ?e = "dest + of_nat (length xs)"
  have len: "strlen dest m = Some (of_nat (length xs))" by (rule strlen_cstr [OF assms(1)])
  have dis: "region ?e (Suc (length ys)) \<inter> region src (Suc (length ys)) = {}"
    using assms(3) region_add [of dest "length xs" "Suc (length ys)"] unfolding room_for_def by blast
  have sub: "region ?e (Suc (min (unat n) (length ys))) \<subseteq> region ?e (Suc (length ys))" by (auto simp: region_def)
  have l: "Suc (length ys) \<le> 2 ^ 64" using assms(3) by (simp add: room_for_def)
  obtain m1 where m1: "strcpy ?e src m = Some m1" "cstr m1 ?e ys" "\<forall>a. a \<notin> region ?e (Suc (length ys)) \<longrightarrow> m1 a = m a"
    using strcpy_cstr [OF assms(2) l dis] by blast
  define m2 where "m2 = strncpy ?e src n m"
  have "cstr m2 ?e (take (unat n) ys)" "\<forall>a. a \<notin> region ?e (Suc (min (unat n) (length ys))) \<longrightarrow> m2 a = m a"
    using strncpy_loop_cstr [OF assms(2) l, of ?e "unat n"] dis sub unfolding m2_def strncpy_def by blast+
  moreover have "length (take (unat n) ys) = min (unat n) (length ys)" by simp
  moreover have "length xs + Suc (min (unat n) (length ys)) \<le> 2 ^ 64"
    using assms(3) min.cobounded2 [of "unat n" "length ys"] unfolding room_for_def by linarith
  ultimately have "cstr m2 dest (xs @ take (unat n) ys)"
      "\<forall>a. a \<notin> region dest (length xs + Suc (min (unat n) (length ys))) \<longrightarrow> m2 a = m a"
    using append_at_end [OF assms(1), of m2 "take (unat n) ys"] by (simp_all add: min.commute)
  moreover have "cstr m1 dest (xs @ ys)" "\<forall>a. a \<notin> region dest (length xs + Suc (length ys)) \<longrightarrow> m1 a = m a"
    using append_at_end [OF assms(1) m1(2) _ m1(3)] assms(3) by (simp_all add: room_for_def)
  moreover have "strcat dest src m = Some (dest, m1)" "strncat dest src n m = Some (dest, m2)"
    using len m1(1) by (simp_all add: strcat_def strncat_def m2_def)
  ultimately show ?thesis by auto
qed

theorem strcat_appends_witness:
  "\<exists>m1 m2. strcat 101 200 two_words = Some (101, m1) \<and> strncat 101 200 0 two_words = Some (101, m2) \<and>
     cstr m1 101 [99, 117, 32, 98, 32] \<and> cstr m2 101 [99, 117, 32, 98]"
proof -
  have "cstr two_words 101 [99, 117, 32, 98]" "cstr two_words 200 [32]" by (simp_all add: two_words_def)
  moreover have "room_for 101 [99, 117, 32, 98] 200 [32]"
    by (simp add: room_for_def region_Suc add.assoc)
  ultimately show ?thesis using strcat_appends [of two_words 101 "[99, 117, 32, 98]" 200 "[32]" 0] by force
qed

section \<open>Comparing with a limit\<close>

lemma strncmp_loop_cstr:
  "cstr m p xs \<Longrightarrow> cstr m q ys \<Longrightarrow>
   (strncmp_loop n p q m = 0 \<longleftrightarrow> take n xs = take n ys) \<and>
   (strncmp_loop n p q m < 0 \<longleftrightarrow> (take n (xs @ [0]), take n (ys @ [0])) \<in> lexord {(a, b). sint a < sint b})"
proof (induction n arbitrary: p q xs ys)
  case (Suc n)
  show ?case
  proof (cases "xs = [] \<or> ys = [] \<or> hd xs \<noteq> hd ys")
    case True
    then show ?thesis
      using Suc.prems by (cases xs; cases ys) (auto simp: sint_eq_iff)
  next
    case False
    then obtain x us vs where "xs = x # us" "ys = x # vs" by (metis list.exhaust_sel)
    then show ?thesis using Suc.IH [of "p + 1" us "q + 1" vs] Suc.prems by auto
  qed
qed simp

text \<open>
  \<^verbatim>\<open>strncmp\<close> orders the first \<open>n\<close> characters as \<^verbatim>\<open>strcmp\<close> orders whole strings.
\<close>

theorem strncmp_orders:
  assumes "cstr m p xs" and "cstr m q ys"
  shows "(strncmp p q n m = 0 \<longleftrightarrow> take (unat n) xs = take (unat n) ys) \<and>
    (strncmp p q n m < 0 \<longleftrightarrow>
       (take (unat n) (xs @ [0]), take (unat n) (ys @ [0])) \<in> lexord {(a, b). sint a < sint b})"
  unfolding strncmp_def by (rule strncmp_loop_cstr [OF assms])

section \<open>Searching from the end\<close>

lemma takeWhile_until: "c \<notin> f ` set ys \<Longrightarrow> f x = c \<Longrightarrow> takeWhile (\<lambda>z. f z \<noteq> c) (ys @ x # zs) = ys"
  by (subst takeWhile_append2) (auto simp: image_iff)

lemma strrchr_loop_cstr:
  "cstr m p xs \<Longrightarrow> strrchr_loop p c occ m =
     Some (if c \<in> sint ` set xs then p + of_nat (length xs - length (takeWhile (\<lambda>x. sint x \<noteq> c) (rev xs))) else occ)"
proof (induction xs arbitrary: p occ)
  case Nil
  then show ?case by (simp add: strrchr_loop.simps)
next
  case (Cons x xs)
  let ?k = "\<lambda>xs. length (takeWhile (\<lambda>x. sint x \<noteq> c) (rev xs))"
  have "strrchr_loop p c occ m = strrchr_loop (p + 1) c (if sint x = c then p + 1 else occ) m"
    using Cons.prems by (subst strrchr_loop.simps) simp
  also have "\<dots> = Some (if c \<in> sint ` set xs then p + 1 + of_nat (length xs - ?k xs) else if sint x = c then p + 1 else occ)"
    using Cons by simp
  also have "\<dots> = Some (if c \<in> sint ` set (x # xs) then p + of_nat (length (x # xs) - ?k (x # xs)) else occ)"
  proof (cases "c \<in> sint ` set xs")
    case True
    then have "?k (x # xs) = ?k xs" by (auto simp: takeWhile_append1)
    moreover have "?k xs \<le> length xs" using length_takeWhile_le [of _ "rev xs"] by (metis length_rev)
    ultimately show ?thesis using True by (simp add: Suc_diff_le add.assoc)
  next
    case False
    then have "?k (x # xs) = length xs" if "sint x = c"
      using takeWhile_until [of c sint "rev xs" x "[]"] that by simp
    then show ?thesis using False by (auto simp: Suc_diff_le)
  qed
  finally show ?case .
qed

text \<open>
  \<^verbatim>\<open>strrchr\<close> gives the place behind the last occurrence, not the occurrence: the pointer is advanced
  before it is kept.  Without an occurrence it gives NULL.
\<close>

theorem strrchr_behind_last:
  assumes "cstr m p (xs @ x # ys)" and "sint x \<notin> sint ` set ys" and "c \<notin> sint ` set (xs @ x # ys)"
  shows "strrchr p (sint x) m = Some (p + of_nat (length xs) + 1) \<and> strrchr p c m = Some 0"
proof -
  have "takeWhile (\<lambda>z. sint z \<noteq> sint x) (rev (xs @ x # ys)) = rev ys"
    using takeWhile_until [of "sint x" sint "rev ys" x "rev xs"] assms(2) by simp
  then have "length (takeWhile (\<lambda>z. sint z \<noteq> sint x) (rev (xs @ x # ys))) = length ys" by (metis length_rev)
  then show ?thesis
    using strrchr_loop_cstr [OF assms(1), of "sint x" 0] strrchr_loop_cstr [OF assms(1), of c 0] assms(3)
    by (simp add: strrchr_def add.assoc add.commute)
qed

theorem strrchr_behind_last_witness: "strrchr 100 32 two_words = Some 104"
  using strrchr_behind_last [of two_words 100 "[32, 99, 117]" 32 "[98]" 7] by (simp add: two_words_def)

section \<open>Upper case\<close>

lemma touppercase_nonzero: "c \<noteq> 0 \<Longrightarrow> touppercase c \<noteq> 0"
proof
  assume c: "c \<noteq> 0" and z: "touppercase c = 0"
  then have s: "sint (97 :: u8) \<le> sint c" "c = 32" by (auto simp: touppercase_def split: if_splits)
  then show False by simp
qed

lemma strupr_loop_cstr:
  "cstr m p xs \<Longrightarrow> length xs < 2 ^ 64 \<Longrightarrow>
   \<exists>m'. strupr_loop p m = Some m' \<and> cstr m' p (map touppercase xs) \<and> (\<forall>a. a \<notin> region p (length xs) \<longrightarrow> m' a = m a)"
proof (induction xs arbitrary: p m)
  case Nil
  then show ?case by (simp add: strupr_loop.simps)
next
  case (Cons x xs)
  let ?m = "m(p := touppercase x)"
  have p: "p \<notin> region (p + 1) (Suc (length xs))" using Cons.prems(2) by (intro region_fresh) simp
  then have "cstr ?m (p + 1) xs" using Cons.prems(1) by (intro cstr_upd) auto
  then obtain m' where m': "strupr_loop (p + 1) ?m = Some m'" "cstr m' (p + 1) (map touppercase xs)"
      "\<forall>a. a \<notin> region (p + 1) (length xs) \<longrightarrow> m' a = ?m a"
    using Cons.IH [of ?m "p + 1"] Cons.prems(2) by (auto simp del: fun_upd_apply)
  moreover have "p \<notin> region (p + 1) (length xs)" using Cons.prems(2) by (intro region_fresh) simp
  moreover have "strupr_loop p m = strupr_loop (p + 1) ?m" using Cons.prems(1) by (subst strupr_loop.simps) simp
  ultimately show ?case using Cons.prems(1) touppercase_nonzero by (auto simp: region_Suc)
qed

text \<open>\<^verbatim>\<open>strupr\<close> converts the string in place and changes nothing else.\<close>

theorem strupr_converts:
  assumes "cstr m p xs" and "length xs < 2 ^ 64"
  shows "\<exists>m'. strupr p m = Some (p, m') \<and> cstr m' p (map touppercase xs) \<and> (\<forall>a. a \<notin> region p (length xs) \<longrightarrow> m' a = m a)"
  using strupr_loop_cstr [OF assms] by (auto simp: strupr_def)

theorem strupr_converts_witness: "\<exists>m'. strupr 101 two_words = Some (101, m') \<and> cstr m' 101 [67, 85, 32, 66]"
  using strupr_converts [of two_words 101 "[99, 117, 32, 98]"] by (auto simp: two_words_def touppercase_def)

end
