(* ===== verification/Terminal_Log.thy ===== *)
theory Terminal_Log
  imports Terminal
begin

text \<open>
  What a cleared screen shows after any number of lines: the last 24 of them, as a function of the
  list of lines alone.
\<close>

lemma clear_screen_blank:
  "row (clear_screen t) = row t \<and> column (clear_screen t) = column t \<and> (\<forall>j<2000. shown (clear_screen t) j = blank)"
  using fill_loop [of 0 2000 blank t] by (simp add: clear_screen_def)

text \<open>Place \<open>k\<close> of a screen that shows the last 24 lines, one in a row, and a blank last row.\<close>

definition line_cell :: "u8 list \<Rightarrow> nat \<Rightarrow> u16" where
  "line_cell l c = (if c < length l then glyph (l ! c) else blank)"

definition log_cell :: "u8 list list \<Rightarrow> nat \<Rightarrow> u16" where
  "log_cell ls k =
     (let i = (length ls - 24) + k div 80 in if i < length ls then line_cell (ls ! i) (k mod 80) else blank)"

lemma log_cell_short:
  assumes "length ls < 24"
  shows "log_cell (ls @ [l]) k = (if k div 80 = length ls then line_cell l (k mod 80) else log_cell ls k)"
  using assms by (auto simp: log_cell_def Let_def nth_append)

lemma log_cell_full:
  assumes "24 \<le> length ls"
  shows "log_cell (ls @ [l]) k =
    (if k div 80 = 23 then line_cell l (k mod 80) else if k div 80 < 23 then log_cell ls (k + 80) else blank)"
proof -
  have "(k + 80) div 80 = k div 80 + 1" "(k + 80) mod 80 = k mod 80" by simp_all
  moreover have "length ls + k div 80 - 23 = Suc (length ls + k div 80 - 24)" using assms by simp
  ultimately show ?thesis using assms by (auto simp: log_cell_def Let_def nth_append)
qed

text \<open>The cell of a line that starts at row \<open>r\<close>.\<close>

lemma line_place:
  "length l < 80 \<Longrightarrow> (if 80 * r \<le> k \<and> k < 80 * r + length l then glyph (l ! (k - 80 * r)) else if k div 80 = r then blank else x) =
     (if k div 80 = r then line_cell l (k mod 80) else x)"
proof -
  assume l: "length l < 80"
  have k: "k = 80 * (k div 80) + k mod 80" by simp
  show ?thesis
  proof (cases "k div 80 = r")
    case True
    then have "k - 80 * r = k mod 80" "80 * r \<le> k" using k by linarith+
    then show ?thesis using True l by (auto simp: line_cell_def)
  next
    case False
    then have "\<not> (80 * r \<le> k \<and> k < 80 * r + length l)" using l by (auto simp: div_nat_eqI)
    then show ?thesis using False by auto
  qed
qed

text \<open>
  C33. The terminal as a log: after any number of lines of less than 80 characters on a cleared screen,
  the screen shows exactly the last 24 lines in order, each from the start of its row, and the
  cursor is behind the last one; with more than 24 lines everything has moved up.
\<close>

theorem terminal_shows_last_lines:
  assumes "row t = 0" and "column t = 0" and "\<forall>l\<in>set ls. length l < 80"
  defines "t' \<equiv> fold WriteLine ls (clear_screen t)"
  shows "(\<forall>k<2000. shown t' k = log_cell ls k) \<and> row t' = of_nat (min (length ls) 24) \<and> column t' = 0 \<and> cursor_ok t'"
  using assms(3) unfolding t'_def
proof (induction ls rule: rev_induct)
  case Nil
  then show ?case using clear_screen_blank [of t] assms(1,2) by (simp add: log_cell_def cursor_ok_def)
next
  case (snoc l ls)
  define s where "s = fold WriteLine ls (clear_screen t)"
  let ?n = "length ls" and ?r = "min (length ls) 24"
  have IH: "\<And>k. k < 2000 \<Longrightarrow> shown s k = log_cell ls k" "row s = of_nat ?r" "column s = 0" "cursor_ok s"
    using snoc by (simp_all add: s_def)
  have r: "unat (row s) = ?r" using IH(2) by (simp add: unat_of_nat)
  have l: "length l < 80" using snoc.prems by simp
  have old: "k div 80 = ?r \<Longrightarrow> log_cell ls k = blank" for k by (auto simp: log_cell_def Let_def)
  have lined: "(if 80 * ?r \<le> k \<and> k < 80 * ?r + length l then glyph (l ! (k - 80 * ?r)) else shown s k) =
      (if k div 80 = ?r then line_cell l (k mod 80) else log_cell ls k)" if "k < 2000" for k
    using line_place [OF l, of ?r k "log_cell ls k"] old [of k] IH(1) [OF that] by (auto split: if_splits)
  note W = WriteLine_row [OF IH(4,3) l, unfolded r]
  have sh: "shown (WriteLine l s) k = log_cell (ls @ [l]) k" if k: "k < 2000" for k
  proof (cases "?n < 24")
    case True
    then show ?thesis using W(1) [OF k] lined [OF k] log_cell_short [OF True, of l k] by simp
  next
    case False
    then have n: "24 \<le> ?n" "?r = 24" by simp_all
    have "(k + 80) div 80 = k div 80 + 1" "(k + 80) mod 80 = k mod 80" by simp_all
    then show ?thesis
      using W(1) [OF k] lined [of "k + 80"] log_cell_full [OF n(1), of l k] n(2) k by (auto simp: not_less)
  qed
  have "row (WriteLine l s) = of_nat (min (length (ls @ [l])) 24)"
    using W(2) IH(2) by (auto simp: min_def)
  then show ?case using sh W(3) WriteLine_safe [OF IH(4)] by (simp add: s_def)
qed

theorem terminal_shows_last_lines_witness:
  "shown (fold WriteLine [lit ''[GDT] OK!'', lit ''[IDT] OK!''] (clear_screen start_screen)) 81 = glyph 73"
proof -
  have "shown (fold WriteLine [lit ''[GDT] OK!'', lit ''[IDT] OK!''] (clear_screen start_screen)) 81 =
      log_cell [lit ''[GDT] OK!'', lit ''[IDT] OK!''] 81"
    using terminal_shows_last_lines [of start_screen "[lit ''[GDT] OK!'', lit ''[IDT] OK!'']"]
    by (simp add: start_screen_def lit_def)
  then show ?thesis by (simp add: log_cell_def line_cell_def lit_def of_char_def)
qed

end
