(* ===== verification/Spec2Isabelle.thy ===== *)
theory Spec2Isabelle
  imports Kernel_Init Layout_Laws Kernel_Space Slub_Processors Pci Page_Release Concurrent_Frames String_Laws Terminal_Log
begin

text \<open>
  The CubikOS kernel for x86-64, as it is under \<^verbatim>\<open>src/Kernel\<close>: a model of its C code in HOL and the
  theorems about it.

  \<^bold>\<open>The program.\<close>  A boot loader enters \<^verbatim>\<open>kload_stivale2\<close> (\<^verbatim>\<open>arch/x86_64/bootx64.c\<close>), which parses the
  tags the loader left (\<^verbatim>\<open>bootx64.h\<close>) and calls \<^verbatim>\<open>ArchitectureInitialize\<close>: descriptor tables, memory
  (\<^verbatim>\<open>MemoryInitialize\<close> of \<^verbatim>\<open>src/mm/memory.c\<close>), interrupt controller and timer, ACPI, APIC, SMBIOS, the
  other processors, and the scheduler.  Memory has three layers: page frames in a buddy allocator
  (\<^verbatim>\<open>src/mm/page.c\<close>), virtual pages and page tables (\<^verbatim>\<open>arch/x86_64/paging.c\<close>) joined in
  \<^verbatim>\<open>src/mm/malloc.c\<close>, and objects in slab caches (\<^verbatim>\<open>src/mm/slub.c\<close>).  Lists, locks and strings are
  shared by all.

  \<^bold>\<open>How it is modelled.\<close>  Machine integers are words of their width.  A call that may not come back
  gives a value of \<open>fault + 'a\<close>: the cause (NULL or unmapped pointers, panic, halt, a lock that is
  never released, undefined shifts, misaligned accesses, an array index out of range, the use of a
  value that is not returned) or the result.  The state is a record that each layer extends:
  \<open>pm_state\<close> (word memory, frame descriptors, free lists), \<open>vm_state\<close> (page tables, processes,
  terminal), \<open>slab_state\<close>, \<open>hw_state\<close> (byte memory, ports, descriptor tables, processor), \<open>apic_state\<close>,
  \<open>smp_state\<close>, \<open>proc_state\<close>, \<open>init_state\<close>; an operation is a function on every extension of the
  record of its layer.  Structures of the allocator's own memory are in the word memory at their
  byte offsets, because the code overlays them; objects with a single use are typed records in maps
  from addresses.  Variables the source reads before it sets them, and code that is not in the
  repository (PCI configuration accesses, the \<^verbatim>\<open>cpuid\<close> instruction, interrupt stubs, answers of
  devices), are parameters.

  \<^bold>\<open>Theories.\<close>
  \<^item> \<open>Kernel_Prelude\<close>: outcomes, alignment macros, ranges, word lemmas.
  \<^item> \<open>LinkedList\<close> (\<^verbatim>\<open>utils/list.c\<close>): insertion behind a head and removal against lists of nodes.
  \<^item> \<open>Spinlock\<close> (\<^verbatim>\<open>utils/spinlock.h\<close>): the instructions of the lock on any number of processors as a
    step relation, mutual exclusion by an invariant, and the single processor view.
  \<^item> \<open>Page_Order\<close>, \<open>Page_Frames\<close>, \<open>Buddy_Refinement\<close>, \<open>Page_Release\<close>, \<open>Page_Zone\<close> (\<^verbatim>\<open>mm/page.c\<close>): sizes
    and orders; every operation; an abstract buddy allocator that \<^verbatim>\<open>PM_AllocatePages\<close> refines,
    disjointness, alignment and best fit of what it hands out; what happens on release, on fresh
    blocks and on used heads; loading of zones.
  \<^item> \<open>Concurrent_Frames\<close> (\<^verbatim>\<open>mm/page.c\<close>): \<^verbatim>\<open>PM_AllocatePages\<close> as a machine of statements that any number of processors
    interleave; one processor alone computes the function above, the lock of a descriptor is
    exclusive, and two processors can still obtain one block.
  \<^item> \<open>Process_Types\<close>, \<open>Page_Tables\<close>, \<open>Paging\<close>, \<open>Paging_Laws\<close>, \<open>Page_Marks\<close>, \<open>Paging_Start\<close>,
    \<open>Kernel_Pages\<close> (\<^verbatim>\<open>proc/proc.h\<close>, \<^verbatim>\<open>arch/x86_64/paging.c\<close>, \<^verbatim>\<open>mm/malloc.c\<close>): entry layouts and their round
    trip; mapping then translating; the first fit search for virtual pages; the start-up of virtual
    memory; and a request for one or several pages through all layers.
  \<^item> \<open>Kernel_Space\<close>: sequences of such requests.  The abstract address space (block lists and a word of
    marks, two instances of a locale for resources that are taken piece by piece, and their sum) is refined by
    \<^verbatim>\<open>AllocatePages\<close>: nothing is granted twice and what has been mapped stays mapped.
  \<^item> \<open>Slub\<close>, \<open>Slub_Laws\<close>, \<open>Slub_Objects\<close>, \<open>Slub_Processors\<close> (\<^verbatim>\<open>mm/slub.c\<close>): caches, pages of objects, the paths
    of an allocation, the sequence of objects that a new page gives, and the independence of processors
    that allocate from pages of their own, in any order.
  \<^item> \<open>CString\<close>, \<open>String_Laws\<close> (\<^verbatim>\<open>string.c\<close> and the memory functions of \<^verbatim>\<open>mm/memory.c\<close>): every string function against
    an operation on lists of characters, with the bytes it leaves alone.
  \<^item> \<open>Terminal\<close>, \<open>Terminal_Log\<close> (\<^verbatim>\<open>graphic/terminal.c\<close>, \<^verbatim>\<open>panic.c\<close>, \<^verbatim>\<open>graphic/framebuffer.c\<close>): the text screen,
    which never writes outside its cells and shows the last 24 of the lines printed.
  \<^item> \<open>Byte_Memory\<close>, \<open>Boot_Info\<close> (\<^verbatim>\<open>bootx64.h\<close>, \<^verbatim>\<open>boot/bootinfo.h\<close>): little-endian fields and the stivale2
    parser, with the list of entries it collects as its specification.
  \<^item> \<open>Ports\<close>, \<open>Legacy_Devices\<close> (\<^verbatim>\<open>ioports.h\<close>, \<^verbatim>\<open>pic.c\<close>, \<^verbatim>\<open>pit.c\<close>), \<open>Descriptors\<close> (\<^verbatim>\<open>gdt.c\<close>, \<^verbatim>\<open>idt.c\<close>, \<^verbatim>\<open>cpu.c\<close>), \<open>Interrupts\<close>
    (\<^verbatim>\<open>interrupts.c\<close>), \<open>Acpi\<close> (\<^verbatim>\<open>impl-acpi.c\<close>), \<open>Apic\<close> (\<^verbatim>\<open>impl-apic.c\<close>), \<open>Smbios\<close> (\<^verbatim>\<open>smbios.c\<close>), \<open>Smp\<close>
    (\<^verbatim>\<open>smp.c\<close>), \<open>Pci\<close> (\<^verbatim>\<open>pci.h\<close>, \<^verbatim>\<open>pci.c\<close>): the platform.  Devices are described by their data sheets and
    see the writes the code makes, in order: a device on the ports is a locale, interpreted for
    the interrupt controllers and the timer, and so is the window of the I/O APIC.
  \<^item> \<open>Process\<close> (\<^verbatim>\<open>proc/proc.c\<close>, \<^verbatim>\<open>proc/sched.c\<close>, \<^verbatim>\<open>proc/activity.c\<close>, \<^verbatim>\<open>sys/kernel.c\<close>), \<open>Kernel_Init\<close>
    (\<^verbatim>\<open>mm/memory.c\<close>, \<^verbatim>\<open>bootx64.c\<close>): processes, numbers, scheduler, start-up and the memory map.  How far
    the start-up gets from the entry point is at the end of this theory.
  \<^item> \<open>Struct_Layout\<close>, \<open>Boot_Structs\<close>, \<open>Kernel_Structs\<close>, \<open>Layout_Laws\<close>: the structure declarations of
    all headers as values, their sizes and offsets under the System V ABI, the agreement of the
    offsets in the models above with them, and the structures whose padding differs from what the
    firmware writes.

  \<^bold>\<open>Loops and fuel.\<close>  A loop whose bound is a number is recursion on it.  A loop that may not end has
  fuel and gives \<open>OutOfFuel\<close> when it is used up; the results say how much is enough (the length of
  the tag list plus one for the parser, one unit per table entry for the MADT, one unit per list
  search for the frame allocator) or that no amount is.  String loops are partial functions into
  \<open>option\<close> and are proved to return on terminated strings.

  \<^bold>\<open>What the results say.\<close>  Many operations do what they mean to: frame allocation, mapping,
  page requests, locking, lists, strings, the screen, the parser, the memory map, interrupt
  dispatch, descriptor tables, device programming.  Others do not, and the theorem states what they
  do instead: release of frames, blocks of the highest order, the slab allocator's first object and
  node lock, two requests for frames at a time, the start of virtual memory, process creation, several ACPI layouts, the SMBIOS search, 64-bit PCI base addresses.

  \<^bold>\<open>Not modelled.\<close>  Assembly files (\<^verbatim>\<open>boot.asm\<close>, \<^verbatim>\<open>intr64s.asm\<close> and others) beyond the instructions that
  C functions contain; drawing in the frame buffer beyond its stubs; headers that only declare
  (applications, \<^verbatim>\<open>LibC\<close>, \<^verbatim>\<open>LibOptik\<close>, \<^verbatim>\<open>Utils\<close>); functions that are declared and defined nowhere; the
  vendored libraries under \<^verbatim>\<open>Thirdparty\<close>, which the kernel does not call.  Interleaving is modelled
  for the spinlock and for \<^verbatim>\<open>PM_AllocatePages\<close>; all other operations run on one processor.
\<close>

section \<open>How far the start-up gets\<close>

text \<open>What comes before virtual memory leaves it alone.\<close>

lemma early_keeps:
  "links (on_cpu f s) = links s" "procs (on_cpu f s) = procs s" "links (say m s) = links s" "procs (say m s) = procs s"
  by (simp_all add: on_cpu_def say_def)


definition demo_init :: init_state where
  "demo_init =
     proc_state.extend
      (smp_state.extend demo_smp (proc_state.fields 0 (\<lambda>_. 0) (\<lambda>_. None) (\<lambda>_. None)))
      (init_state.fields zero_boot zero_stats)"


end
